(* ===== verification/Prelude.thy ===== *)
theory Prelude
  imports Main "HOL-Library.Word" "HOL-Library.Char_ord" "HOL-Library.List_Lexorder"
    "HOL-Library.Product_Lexorder"
begin

text \<open>
  Shared vocabulary of the development: results with errors as values, the early-return loop over
  a collection, ordered maps as sorted association lists (the code's \<^verbatim>\<open>BTreeMap\<close>), checked and
  saturating arithmetic on machine words, and codecs for the JSON files.
\<close>

section \<open>Results\<close>

datatype ('e, 'a) result = Ok 'a | Err 'e

type_synonym 'e check = "('e, unit) result"

named_theorems result_simps \<open>equations that take a chain of fallible calls apart\<close>

definition and_then :: "('e, 'a) result \<Rightarrow> ('a \<Rightarrow> ('e, 'b) result) \<Rightarrow> ('e, 'b) result" where
  "and_then r k = (case r of Ok x \<Rightarrow> k x | Err e \<Rightarrow> Err e)"

definition map_err :: "('e \<Rightarrow> 'f) \<Rightarrow> ('e, 'a) result \<Rightarrow> ('f, 'a) result" where
  "map_err f r = (case r of Ok x \<Rightarrow> Ok x | Err e \<Rightarrow> Err (f e))"

text \<open>\<open>if !c { return Err(e) }\<close> as a value.\<close>

definition ensure :: "bool \<Rightarrow> 'e \<Rightarrow> 'e check" where
  "ensure c e = (if c then Ok () else Err e)"

definition is_ok :: "('e, 'a) result \<Rightarrow> bool" where
  "is_ok r = (case r of Ok _ \<Rightarrow> True | Err _ \<Rightarrow> False)"

definition ok_or :: "'a option \<Rightarrow> 'e \<Rightarrow> ('e, 'a) result" where
  "ok_or opt e = (case opt of Some x \<Rightarrow> Ok x | None \<Rightarrow> Err e)"

text \<open>A \<open>for\<close> loop whose body may return early with an error.\<close>

fun each :: "('a \<Rightarrow> 'e check) \<Rightarrow> 'a list \<Rightarrow> 'e check" where
  "each f [] = Ok ()"
| "each f (x # xs) = and_then (f x) (\<lambda>_. each f xs)"

text \<open>\<open>iter.map(f).collect::<Result<Vec<_>, _>>()\<close>.\<close>

fun map_ok :: "('a \<Rightarrow> ('e, 'b) result) \<Rightarrow> 'a list \<Rightarrow> ('e, 'b list) result" where
  "map_ok f [] = Ok []"
| "map_ok f (x # xs) = and_then (f x) (\<lambda>y. and_then (map_ok f xs) (\<lambda>ys. Ok (y # ys)))"

lemma and_then_simps [simp, result_simps]:
  "and_then (Ok x) k = k x"
  "and_then (Err e) k = Err e"
  by (simp_all add: and_then_def)

lemma and_then_Ok_iff [result_simps]: "and_then r k = Ok y \<longleftrightarrow> (\<exists>x. r = Ok x \<and> k x = Ok y)"
  by (cases r) auto

lemma and_then_Err_iff [result_simps]:
  "and_then r k = Err e \<longleftrightarrow> r = Err e \<or> (\<exists>x. r = Ok x \<and> k x = Err e)"
  by (cases r) auto

lemma map_err_simps [simp, result_simps]:
  "map_err f (Ok x) = Ok x"
  "map_err f (Err e) = Err (f e)"
  by (simp_all add: map_err_def)

lemma map_err_Ok_iff [result_simps]: "map_err f r = Ok y \<longleftrightarrow> r = Ok y"
  by (cases r) auto

lemma ensure_Ok_iff [simp, result_simps]: "ensure c e = Ok u \<longleftrightarrow> c"
  by (simp add: ensure_def)

lemma ensure_Err_iff [simp, result_simps]: "ensure c e = Err e' \<longleftrightarrow> \<not> c \<and> e' = e"
  by (auto simp: ensure_def)

lemma ensure_True [simp]: "ensure True e = Ok ()"
  by (simp add: ensure_def)

lemma ensure_False [simp]: "ensure False e = Err e"
  by (simp add: ensure_def)

lemma ok_or_simps [simp]:
  "ok_or (Some x) e = Ok x"
  "ok_or None e = Err e"
  by (simp_all add: ok_or_def)

lemma ok_or_Ok_iff [simp, result_simps]: "ok_or opt e = Ok x \<longleftrightarrow> opt = Some x"
  by (cases opt) auto

lemma is_ok_simps [simp]: "is_ok (Ok x)" "\<not> is_ok (Err e)"
  by (simp_all add: is_ok_def)

lemma is_ok_iff: "is_ok r \<longleftrightarrow> (\<exists>x. r = Ok x)"
  by (cases r) auto

lemma not_Ok_unit: "(\<nexists>u. r = Ok u) \<longleftrightarrow> (\<exists>e. r = Err e)"
  by (cases r) auto

lemma each_Ok_iff [result_simps]: "each f xs = Ok u \<longleftrightarrow> (\<forall>x \<in> set xs. f x = Ok ())"
  by (induction xs) (auto simp: and_then_Ok_iff)

lemma map_ok_Ok_iff: "map_ok f xs = Ok ys \<longleftrightarrow> list_all2 (\<lambda>x y. f x = Ok y) xs ys"
  by (induction xs arbitrary: ys) (auto simp: and_then_Ok_iff list_all2_Cons1)

lemma map_ok_length: "map_ok f xs = Ok ys \<Longrightarrow> length ys = length xs"
  by (auto simp: map_ok_Ok_iff dest: list_all2_lengthD)

section \<open>Ordered maps\<close>

text \<open>
  A \<^verbatim>\<open>BTreeMap\<close> iterates in key order, which the code relies on when it writes a map to a file.
  It is modelled by its in-order list of bindings.
\<close>

type_synonym ('k, 'v) btree = "('k \<times> 'v) list"

definition bt_ok :: "('k::linorder, 'v) btree \<Rightarrow> bool" where
  "bt_ok m = sorted_wrt (<) (map fst m)"

fun bt_insert :: "'k::linorder \<Rightarrow> 'v \<Rightarrow> ('k, 'v) btree \<Rightarrow> ('k, 'v) btree" where
  "bt_insert k v [] = [(k, v)]"
| "bt_insert k v ((k', v') # m) =
     (if k < k' then (k, v) # (k', v') # m
      else if k = k' then (k, v) # m
      else (k', v') # bt_insert k v m)"

definition bt_remove :: "'k \<Rightarrow> ('k, 'v) btree \<Rightarrow> ('k, 'v) btree" where
  "bt_remove k m = filter (\<lambda>kv. fst kv \<noteq> k) m"

definition bt_retain :: "('k \<Rightarrow> 'v \<Rightarrow> bool) \<Rightarrow> ('k, 'v) btree \<Rightarrow> ('k, 'v) btree" where
  "bt_retain P m = filter (\<lambda>kv. P (fst kv) (snd kv)) m"

abbreviation bt_get :: "('k, 'v) btree \<Rightarrow> 'k \<Rightarrow> 'v option" where
  "bt_get \<equiv> map_of"

abbreviation bt_values :: "('k, 'v) btree \<Rightarrow> 'v list" where
  "bt_values \<equiv> map snd"

abbreviation bt_keys :: "('k, 'v) btree \<Rightarrow> 'k list" where
  "bt_keys \<equiv> map fst"

lemma set_bt_keys_insert: "set (bt_keys (bt_insert k v m)) = insert k (set (bt_keys m))"
  by (induction k v m rule: bt_insert.induct) auto

lemma bt_ok_Nil [simp]: "bt_ok []"
  by (simp add: bt_ok_def)

lemma bt_ok_insert [simp, intro]: "bt_ok m \<Longrightarrow> bt_ok (bt_insert k v m)"
  unfolding bt_ok_def
  by (induction k v m rule: bt_insert.induct)
     (auto simp: set_bt_keys_insert [simplified] image_iff)

lemma bt_ok_filter: "bt_ok m \<Longrightarrow> bt_ok (filter P m)"
  unfolding bt_ok_def
  by (induction m) auto

lemma bt_ok_remove [simp, intro]: "bt_ok m \<Longrightarrow> bt_ok (bt_remove k m)"
  by (simp add: bt_remove_def bt_ok_filter)

lemma bt_ok_retain [simp, intro]: "bt_ok m \<Longrightarrow> bt_ok (bt_retain P m)"
  by (simp add: bt_retain_def bt_ok_filter)

lemma bt_ok_distinct: "bt_ok m \<Longrightarrow> distinct (bt_keys m)"
  unfolding bt_ok_def using strict_sorted_iff by blast

lemma bt_get_insert: "bt_ok m \<Longrightarrow> bt_get (bt_insert k v m) = (bt_get m)(k \<mapsto> v)"
proof (induction k v m rule: bt_insert.induct)
  case (2 k v k' v' m)
  then show ?case by (auto simp: bt_ok_def fun_eq_iff)
qed auto

lemma bt_get_remove: "bt_get (bt_remove k m) = (bt_get m)(k := None)"
  by (induction m) (auto simp: bt_remove_def fun_eq_iff)

lemma bt_get_retain:
  "bt_ok m \<Longrightarrow>
   bt_get (bt_retain P m) k =
     (case bt_get m k of None \<Rightarrow> None | Some v \<Rightarrow> if P k v then Some v else None)"
proof (induction m)
  case (Cons kv m)
  obtain k' v' where kv: "kv = (k', v')" by force
  have rest: "bt_get m k' = None"
    using bt_ok_distinct [OF Cons.prems] kv by (auto simp: map_of_eq_None_iff)
  have ok: "bt_ok m" using Cons.prems by (simp add: bt_ok_def)
  show ?case using Cons.IH [OF ok] rest by (auto simp: bt_retain_def kv)
qed (simp add: bt_retain_def)

lemma length_bt_insert_le: "length (bt_insert k v m) \<le> Suc (length m)"
  by (induction k v m rule: bt_insert.induct) auto

lemma length_bt_insert:
  "bt_ok m \<Longrightarrow> length (bt_insert k v m) = (if bt_get m k = None then Suc (length m) else length m)"
proof (induction k v m rule: bt_insert.induct)
  case (2 k v k' v' m)
  have "bt_get m k = None" if "k < k'"
    using that 2(2) by (fastforce simp: bt_ok_def map_of_eq_None_iff)
  with 2 show ?case by (auto simp: bt_ok_def)
qed simp

lemma in_set_bt_insert:
  "bt_ok m \<Longrightarrow> (k', v') \<in> set (bt_insert k v m) \<longleftrightarrow>
     (if k' = k then v' = v else (k', v') \<in> set m)"
proof (induction k v m rule: bt_insert.induct)
  case (2 k v k'' v'' m)
  have "(k, v') \<notin> set m" if "k < k'' \<or> k = k''" for v'
    using that 2(2) by (force simp: bt_ok_def)
  moreover have "(k'', x) \<notin> set m" for x
    using 2(2) by (force simp: bt_ok_def)
  ultimately show ?case using 2 by (auto simp: bt_ok_def)
qed auto

text \<open>Appending a binding with a greater key: how a sorted list is read back.\<close>

lemma bt_insert_snoc:
  "\<forall>k' \<in> set (bt_keys m). k' < k \<Longrightarrow> bt_insert k v m = m @ [(k, v)]"
  by (induction m) auto

lemma bt_ok_snoc:
  "bt_ok (m @ [(k, v)]) \<longleftrightarrow> bt_ok m \<and> (\<forall>k' \<in> set (bt_keys m). k' < k)"
  by (auto simp: bt_ok_def sorted_wrt_append)

lemma bt_ok_append1: "bt_ok (m @ m') \<Longrightarrow> bt_ok m"
  by (auto simp: bt_ok_def sorted_wrt_append)

text \<open>The interface of an ordered map, and what every client of one may rely on.\<close>

locale ordered_map =
  fixes empty :: 'm
    and insert :: "'k \<Rightarrow> 'v \<Rightarrow> 'm \<Rightarrow> 'm"
    and remove :: "'k \<Rightarrow> 'm \<Rightarrow> 'm"
    and get :: "'m \<Rightarrow> 'k \<Rightarrow> 'v option"
    and inv :: "'m \<Rightarrow> bool"
  assumes inv_empty: "inv empty"
    and inv_insert: "inv m \<Longrightarrow> inv (insert k v m)"
    and inv_remove: "inv m \<Longrightarrow> inv (remove k m)"
    and get_empty: "get empty k = None"
    and get_insert: "inv m \<Longrightarrow> get (insert k v m) = (get m)(k \<mapsto> v)"
    and get_remove: "inv m \<Longrightarrow> get (remove k m) = (get m)(k := None)"
begin

lemma get_insert_remove: "inv m \<Longrightarrow> get (remove k (insert k v m)) = get (remove k m)"
  by (simp add: get_insert get_remove inv_insert)

lemma remove_absent: "inv m \<Longrightarrow> get (remove k m) k = None"
  by (simp add: get_remove)

lemma insert_present: "inv m \<Longrightarrow> get (insert k v m) k = Some v"
  by (simp add: get_insert)

end

interpretation bt: ordered_map "[]" bt_insert bt_remove bt_get bt_ok
  by unfold_locales (auto simp: bt_get_insert bt_get_remove)

section \<open>Machine integers\<close>

type_synonym u8 = "8 word"
type_synonym u16 = "16 word"
type_synonym u32 = "32 word"
type_synonym u64 = "64 word"

definition checked_add :: "'w::len word \<Rightarrow> 'w word \<Rightarrow> 'w word option" where
  "checked_add a b = (if unat a + unat b < 2 ^ LENGTH('w) then Some (a + b) else None)"

definition saturating_add :: "'w::len word \<Rightarrow> 'w word \<Rightarrow> 'w word" where
  "saturating_add a b = (case checked_add a b of Some c \<Rightarrow> c | None \<Rightarrow> - 1)"

lemma checked_add_Some: "checked_add a b = Some c \<Longrightarrow> unat c = unat a + unat b"
  for a b c :: "'w::len word"
  by (auto simp: checked_add_def unat_word_ariths split: if_splits)

lemma checked_add_le: "checked_add a b = Some c \<Longrightarrow> a \<le> c"
  for a b c :: "'w::len word"
  by (auto dest!: checked_add_Some simp: word_le_nat_alt)

lemma unat_saturating_add:
  "unat (saturating_add a b) = min (unat a + unat b) (2 ^ LENGTH('w) - 1)"
  for a b :: "'w::len word"
proof (cases "checked_add a b")
  case None
  then have "2 ^ LENGTH('w) \<le> unat a + unat b" by (auto simp: checked_add_def split: if_splits)
  moreover have "unat (- 1 :: 'w word) = 2 ^ LENGTH('w) - 1"
    by (simp add: unsigned_minus_1_eq_mask mask_eq_exp_minus_1)
  ultimately show ?thesis using None by (simp add: saturating_add_def)
next
  case (Some c)
  then have "unat c = unat a + unat b" by (rule checked_add_Some)
  moreover have "unat a + unat b < 2 ^ LENGTH('w)"
    using Some by (auto simp: checked_add_def split: if_splits)
  ultimately show ?thesis using Some by (simp add: saturating_add_def)
qed

section \<open>Lists\<close>

text \<open>\<open>iter().position(p)\<close>.\<close>

fun position :: "('a \<Rightarrow> bool) \<Rightarrow> 'a list \<Rightarrow> nat option" where
  "position p [] = None"
| "position p (x # xs) = (if p x then Some 0 else map_option Suc (position p xs))"

lemma position_None_iff: "position p xs = None \<longleftrightarrow> (\<forall>x \<in> set xs. \<not> p x)"
  by (induction xs) auto

lemma position_Some: "position p xs = Some i \<Longrightarrow> i < length xs \<and> p (xs ! i)"
  by (induction xs arbitrary: i) (auto split: if_splits)

text \<open>\<open>Vec::remove(i)\<close>.\<close>

definition remove_at :: "nat \<Rightarrow> 'a list \<Rightarrow> 'a list" where
  "remove_at i xs = take i xs @ drop (Suc i) xs"

lemma set_remove_at_subset: "set (remove_at i xs) \<subseteq> set xs"
  by (auto simp: remove_at_def dest: in_set_takeD in_set_dropD)

lemma length_remove_at: "i < length xs \<Longrightarrow> length (remove_at i xs) = length xs - 1"
  by (simp add: remove_at_def)

lemma map_remove_at: "map f (remove_at i xs) = remove_at i (map f xs)"
  by (simp add: remove_at_def take_map drop_map)

lemma distinct_remove_at: "distinct xs \<Longrightarrow> distinct (remove_at i xs)"
  unfolding remove_at_def
  by (metis append_take_drop_id distinct_append distinct_drop disjoint_iff distinct_take
      in_set_dropD drop_Suc tl_drop list.set_sel(2) tl_Nil)

lemma find_Some_iff': "find p xs = Some x \<Longrightarrow> x \<in> set xs \<and> p x"
  by (metis find_Some_iff nth_mem)

section \<open>Codecs\<close>

text \<open>
  JSON encoding and decoding is the work of a library the code calls. A codec is a pair of
  functions; the only thing relied on is that what encodes decodes to the same value.
\<close>

type_synonym bytes = string

record 'x codec =
  encode :: "'x \<Rightarrow> bytes option"
  decode :: "bytes \<Rightarrow> 'x option"

definition codec_ok :: "'x codec \<Rightarrow> bool" where
  "codec_ok c = (\<forall>x b. encode c x = Some b \<longrightarrow> decode c b = Some x)"

lemma codec_okD: "codec_ok c \<Longrightarrow> encode c x = Some b \<Longrightarrow> decode c b = Some x"
  by (simp add: codec_ok_def)

text \<open>A finite codec, for concrete instances.\<close>

definition table_codec :: "('x \<times> bytes) list \<Rightarrow> 'x codec" where
  "table_codec t = \<lparr>encode = map_of t, decode = map_of (map (\<lambda>(x, b). (b, x)) t)\<rparr>"

lemma table_codec_ok: "distinct (map snd t) \<Longrightarrow> codec_ok (table_codec t)"
proof -
  assume d: "distinct (map snd t)"
  have fst_map: "map fst (map (\<lambda>(x, b). (b, x)) t) = map snd t"
    by (induction t) auto
  show ?thesis
    unfolding codec_ok_def
  proof (intro allI impI)
    fix x b
    assume "encode (table_codec t) x = Some b"
    then have "(x, b) \<in> set t" by (simp add: table_codec_def map_of_SomeD)
    then have "(b, x) \<in> set (map (\<lambda>(x, b). (b, x)) t)" by force
    moreover have "distinct (map fst (map (\<lambda>(x, b). (b, x)) t))"
      using d by (simp only: fst_map)
    ultimately show "decode (table_codec t) b = Some x"
      by (simp add: table_codec_def del: map_map)
  qed
qed

end
