(* ===== verification/Rust_Str.thy ===== *)
theory Rust_Str
  imports Prelude
begin

text \<open>
  The part of Rust's \<^verbatim>\<open>str\<close>, \<^verbatim>\<open>u8\<close> and \<^verbatim>\<open>char\<close> the program uses. A \<^typ>\<open>string\<close> is the UTF-8
  byte sequence of a Rust string, so \<^const>\<open>length\<close> is \<^verbatim>\<open>str::len\<close>; operations that Rust defines on
  characters (\<^verbatim>\<open>trim\<close>, \<^verbatim>\<open>char::is_control\<close>, \<^verbatim>\<open>chars().count()\<close>) read the bytes of a character.
\<close>

section \<open>Bytes and character classes\<close>

abbreviation code :: "char \<Rightarrow> nat" where
  "code c \<equiv> of_char c"

definition is_digit :: "char \<Rightarrow> bool" where
  "is_digit c = (48 \<le> code c \<and> code c \<le> 57)"

definition is_lower :: "char \<Rightarrow> bool" where
  "is_lower c = (97 \<le> code c \<and> code c \<le> 122)"

definition is_upper :: "char \<Rightarrow> bool" where
  "is_upper c = (65 \<le> code c \<and> code c \<le> 90)"

definition is_alpha :: "char \<Rightarrow> bool" where
  "is_alpha c = (is_lower c \<or> is_upper c)"

definition is_alnum :: "char \<Rightarrow> bool" where
  "is_alnum c = (is_alpha c \<or> is_digit c)"

definition is_hex_lower :: "char \<Rightarrow> bool" where
  "is_hex_lower c = (is_digit c \<or> (97 \<le> code c \<and> code c \<le> 102))"

text \<open>\<^verbatim>\<open>u8::is_ascii_whitespace\<close>: space, tab, line feed, form feed, carriage return.\<close>

definition is_ascii_ws :: "char \<Rightarrow> bool" where
  "is_ascii_ws c = (code c \<in> {32, 9, 10, 12, 13})"

definition is_ascii :: "char \<Rightarrow> bool" where
  "is_ascii c = (code c < 128)"

lemmas char_class_defs =
  is_digit_def is_lower_def is_upper_def is_alpha_def is_alnum_def is_hex_lower_def
  is_ascii_ws_def is_ascii_def

definition to_lower :: "char \<Rightarrow> char" where
  "to_lower c = (if is_upper c then char_of (code c + 32) else c)"

definition to_upper :: "char \<Rightarrow> char" where
  "to_upper c = (if is_lower c then char_of (code c - 32) else c)"

definition lowercase :: "string \<Rightarrow> string" where
  "lowercase = map to_lower"

definition uppercase :: "string \<Rightarrow> string" where
  "uppercase = map to_upper"

abbreviation newline :: char where
  "newline \<equiv> CHR 0x0A"

abbreviation dquote :: char where
  "dquote \<equiv> CHR 0x22"

abbreviation squote :: char where
  "squote \<equiv> CHR 0x27"

abbreviation backslash :: char where
  "backslash \<equiv> CHR 0x5C"

lemma code_to_lower: "is_upper c \<Longrightarrow> code (to_lower c) = code c + 32"
  by (auto simp: to_lower_def is_upper_def)

lemma code_to_upper: "is_lower c \<Longrightarrow> code (to_upper c) = code c - 32"
  by (auto simp: to_upper_def is_lower_def)

lemma to_lower_is_lower: "is_alpha c \<Longrightarrow> is_lower (to_lower c)"
  by (cases "is_upper c") (auto simp: is_alpha_def is_lower_def code_to_lower is_upper_def to_lower_def)

lemma to_lower_other: "\<not> is_upper c \<Longrightarrow> to_lower c = c"
  by (simp add: to_lower_def)

section \<open>Prefixes, suffixes, search\<close>

fun starts_with :: "string \<Rightarrow> string \<Rightarrow> bool" where
  "starts_with [] s = True"
| "starts_with (p # ps) [] = False"
| "starts_with (p # ps) (c # cs) = (p = c \<and> starts_with ps cs)"

definition ends_with :: "string \<Rightarrow> string \<Rightarrow> bool" where
  "ends_with p s = starts_with (rev p) (rev s)"

definition strip_prefix :: "string \<Rightarrow> string \<Rightarrow> string option" where
  "strip_prefix p s = (if starts_with p s then Some (drop (length p) s) else None)"

definition strip_suffix :: "string \<Rightarrow> string \<Rightarrow> string option" where
  "strip_suffix p s = (if ends_with p s then Some (take (length s - length p) s) else None)"

text \<open>\<^verbatim>\<open>s.find(p)\<close>: the byte index of the first occurrence.\<close>

fun find_str :: "string \<Rightarrow> string \<Rightarrow> nat option" where
  "find_str p [] = (if p = [] then Some 0 else None)"
| "find_str p (c # cs) =
     (if starts_with p (c # cs) then Some 0 else map_option Suc (find_str p cs))"

definition contains :: "string \<Rightarrow> string \<Rightarrow> bool" where
  "contains p s = (find_str p s \<noteq> None)"

text \<open>\<^verbatim>\<open>s.rfind(c)\<close> for a one-byte character.\<close>

fun rfind_char :: "char \<Rightarrow> string \<Rightarrow> nat option" where
  "rfind_char c [] = None"
| "rfind_char c (d # ds) =
     (case rfind_char c ds of
        Some i \<Rightarrow> Some (Suc i)
      | None \<Rightarrow> if c = d then Some 0 else None)"

definition split_once :: "string \<Rightarrow> string \<Rightarrow> (string \<times> string) option" where
  "split_once p s =
     (case find_str p s of
        None \<Rightarrow> None
      | Some i \<Rightarrow> Some (take i s, drop (i + length p) s))"

definition rsplit_once :: "char \<Rightarrow> string \<Rightarrow> (string \<times> string) option" where
  "rsplit_once c s =
     (case rfind_char c s of
        None \<Rightarrow> None
      | Some i \<Rightarrow> Some (take i s, drop (Suc i) s))"

text \<open>\<^verbatim>\<open>s.split(c)\<close>: always at least one piece.\<close>

fun split_char :: "char \<Rightarrow> string \<Rightarrow> string list" where
  "split_char c [] = [[]]"
| "split_char c (d # ds) =
     (if c = d then [] # split_char c ds
      else (case split_char c ds of
              [] \<Rightarrow> [[d]]
            | w # ws \<Rightarrow> (d # w) # ws))"

fun join :: "string \<Rightarrow> string list \<Rightarrow> string" where
  "join sep [] = []"
| "join sep [w] = w"
| "join sep (w # v # ws) = w @ sep @ join sep (v # ws)"

text \<open>\<^verbatim>\<open>str::lines\<close>: \<^verbatim>\<open>split_inclusive\<close> on line feeds, then one line ending stripped from each piece.\<close>

fun split_inclusive :: "string \<Rightarrow> string list" where
  "split_inclusive [] = []"
| "split_inclusive (c # cs) =
     (if c = newline then [newline] # split_inclusive cs
      else (case split_inclusive cs of
              [] \<Rightarrow> [[c]]
            | l # ls \<Rightarrow> (c # l) # ls))"

definition strip_eol :: "string \<Rightarrow> string" where
  "strip_eol l =
     (case strip_suffix [newline] l of
        None \<Rightarrow> l
      | Some l1 \<Rightarrow> (case strip_suffix [CHR 0x0D] l1 of None \<Rightarrow> l1 | Some l2 \<Rightarrow> l2))"

definition lines :: "string \<Rightarrow> string list" where
  "lines s = map strip_eol (split_inclusive s)"

text \<open>\<^verbatim>\<open>s.replace(p, r)\<close> for a non-empty pattern.\<close>

function replace :: "string \<Rightarrow> string \<Rightarrow> string \<Rightarrow> string" where
  "replace p r s =
     (if p = [] then s
      else (case s of
              [] \<Rightarrow> []
            | c # cs \<Rightarrow>
                if starts_with p s then r @ replace p r (drop (length p) s)
                else c # replace p r cs))"
  by pat_completeness auto
termination
  by (relation "measure (\<lambda>(p, r, s). length s)") auto

declare replace.simps [simp del]

lemma starts_with_iff: "starts_with p s \<longleftrightarrow> (\<exists>t. s = p @ t)"
  by (induction p s rule: starts_with.induct) auto

lemma starts_with_append [simp]: "starts_with p (p @ s)"
  by (auto simp: starts_with_iff)

lemma starts_with_self [simp]: "starts_with p p"
  by (auto simp: starts_with_iff)

lemma starts_with_length: "starts_with p s \<Longrightarrow> length p \<le> length s"
  by (auto simp: starts_with_iff)

lemma ends_with_iff: "ends_with p s \<longleftrightarrow> (\<exists>t. s = t @ p)"
  unfolding ends_with_def starts_with_iff
  by (metis rev_append rev_rev_ident)

lemma strip_prefix_Some_iff: "strip_prefix p s = Some t \<longleftrightarrow> s = p @ t"
  by (auto simp: strip_prefix_def starts_with_iff)

lemma strip_prefix_append [simp]: "strip_prefix p (p @ t) = Some t"
  by (simp add: strip_prefix_Some_iff)

lemma strip_suffix_Some_iff: "strip_suffix p s = Some t \<longleftrightarrow> s = t @ p"
  by (auto simp: strip_suffix_def ends_with_iff)

lemma strip_suffix_append [simp]: "strip_suffix p (t @ p) = Some t"
  by (simp add: strip_suffix_Some_iff)

lemma find_str_Some_split:
  "find_str p s = Some i \<Longrightarrow> i + length p \<le> length s \<and> s = take i s @ p @ drop (i + length p) s"
proof (induction p s arbitrary: i rule: find_str.induct)
  case (2 p c cs)
  show ?case
  proof (cases "starts_with p (c # cs)")
    case True
    with 2(2) starts_with_length [OF True] show ?thesis by (auto simp: starts_with_iff)
  next
    case False
    with 2(2) obtain j where j: "find_str p cs = Some j" "i = Suc j" by auto
    from 2(1) [OF False j(1)] show ?thesis by (auto simp: j(2))
  qed
qed (auto split: if_splits)

lemma find_str_None: "find_str p s = None \<Longrightarrow> s \<noteq> a @ p @ b"
proof (induction p s arbitrary: a rule: find_str.induct)
  case (2 p c cs)
  then have no: "\<not> starts_with p (c # cs)" and none: "find_str p cs = None"
    by (auto split: if_splits)
  show ?case
  proof (cases a)
    case Nil
    with no show ?thesis by (auto simp: starts_with_iff)
  next
    case (Cons x xs)
    with 2(1) [OF no none, of xs] show ?thesis by auto
  qed
qed (auto split: if_splits)

lemma contains_iff: "contains p s \<longleftrightarrow> (\<exists>a b. s = a @ p @ b)"
  unfolding contains_def
  by (metis find_str_None find_str_Some_split option.exhaust)

text \<open>The first occurrence: nothing of the pattern starts earlier.\<close>

lemma find_str_first: "find_str p s = Some i \<Longrightarrow> j < i \<Longrightarrow> \<not> starts_with p (drop j s)"
proof (induction p s arbitrary: i j rule: find_str.induct)
  case (2 p c cs)
  then show ?case by (cases j) (auto split: if_splits)
qed (auto split: if_splits)

lemma find_str_single: "find_str [c] s = Some i \<Longrightarrow> c \<notin> set (take i s)"
proof (induction s arbitrary: i)
  case (Cons d ds)
  then show ?case by (auto split: if_splits)
qed simp

lemma find_str_single_None_iff: "find_str [c] s = None \<longleftrightarrow> c \<notin> set s"
  by (induction s) auto

lemma find_str_single_append: "c \<notin> set a \<Longrightarrow> find_str [c] (a @ c # b) = Some (length a)"
  by (induction a) auto

lemma split_once_single: "c \<notin> set a \<Longrightarrow> split_once [c] (a @ c # b) = Some (a, b)"
  by (simp add: split_once_def find_str_single_append)

lemma split_once_Some: "split_once p s = Some (a, b) \<Longrightarrow> s = a @ p @ b"
  by (auto simp: split_once_def dest: find_str_Some_split split: option.splits)

lemma rfind_char_None_iff: "rfind_char c s = None \<longleftrightarrow> c \<notin> set s"
  by (induction s) (auto split: option.splits)

lemma rfind_char_Some: "rfind_char c s = Some i \<Longrightarrow> s = take i s @ c # drop (Suc i) s \<and> c \<notin> set (drop (Suc i) s)"
  by (induction s arbitrary: i) (auto split: option.splits if_splits simp: rfind_char_None_iff)

lemma rfind_char_append: "c \<notin> set b \<Longrightarrow> rfind_char c (a @ c # b) = Some (length a)"
proof (induction a)
  case Nil
  then show ?case by (simp add: rfind_char_None_iff [THEN iffD2])
qed simp

lemma rsplit_once_Some: "rsplit_once c s = Some (a, b) \<Longrightarrow> s = a @ c # b \<and> c \<notin> set b"
  by (auto simp: rsplit_once_def dest: rfind_char_Some split: option.splits)

lemma split_char_nonempty [simp]: "split_char c s \<noteq> []"
  by (cases s) (auto split: list.splits)

lemma join_Nil_Cons: "ws \<noteq> [] \<Longrightarrow> join sep ([] # ws) = sep @ join sep ws"
  by (cases ws) auto

lemma join_Cons_Cons: "join sep ((d # w) # ws) = d # join sep (w # ws)"
  by (cases ws) auto

lemma join_split_char: "join [c] (split_char c s) = s"
proof (induction s)
  case (Cons d ds)
  obtain w ws where w: "split_char c ds = w # ws" by (cases "split_char c ds") auto
  have nil: "join [c] ([] # split_char c ds) = c # ds" using Cons by (simp add: join_Nil_Cons)
  show ?case
  proof (cases "c = d")
    case True
    with nil show ?thesis by simp
  next
    case False
    with Cons show ?thesis by (simp add: w join_Cons_Cons)
  qed
qed simp

lemma split_char_no_sep: "w \<in> set (split_char c s) \<Longrightarrow> c \<notin> set w"
proof (induction s arbitrary: w)
  case (Cons d ds)
  obtain v vs where v: "split_char c ds = v # vs" by (cases "split_char c ds") auto
  have "c \<notin> set v" and "\<And>w. w \<in> set vs \<Longrightarrow> c \<notin> set w"
    using Cons.IH by (auto simp: v)
  then show ?case using Cons.prems Cons.IH by (cases "c = d") (auto simp: v)
qed simp

lemma split_inclusive_line:
  "newline \<notin> set l \<Longrightarrow> split_inclusive (l @ newline # s) = (l @ [newline]) # split_inclusive s"
  by (induction l) auto

lemma strip_eol_line: "l = [] \<or> last l \<noteq> CHR 0x0D \<Longrightarrow> strip_eol (l @ [newline]) = l"
proof -
  assume "l = [] \<or> last l \<noteq> CHR 0x0D"
  then have "strip_suffix [CHR 0x0D] l = None"
    by (auto simp: strip_suffix_def ends_with_iff)
  then show ?thesis by (simp add: strip_eol_def)
qed

lemma lines_line:
  "newline \<notin> set l \<Longrightarrow> l = [] \<or> last l \<noteq> CHR 0x0D \<Longrightarrow> lines (l @ newline # s) = l # lines s"
  by (simp add: lines_def split_inclusive_line strip_eol_line)

lemma lines_Nil [simp]: "lines [] = []"
  by (simp add: lines_def)

section \<open>Characters of a UTF-8 string\<close>

text \<open>
  \<^verbatim>\<open>char::is_whitespace\<close> holds of U+0009..U+000D, U+0020, U+0085, U+00A0, U+1680, U+2000..U+200A,
  U+2028, U+2029, U+202F, U+205F and U+3000. \<open>ws_len\<close> is the number of bytes of a white-space
  character at the front of a string, 0 when the first character is not white space;
  \<open>ws_len_rev\<close> is the same at the end of a string given in reverse.
\<close>

definition ws1 :: "nat \<Rightarrow> bool" where
  "ws1 a = ((9 \<le> a \<and> a \<le> 13) \<or> a = 32)"

definition ws2 :: "nat \<Rightarrow> nat \<Rightarrow> bool" where
  "ws2 a b = (a = 0xC2 \<and> (b = 0x85 \<or> b = 0xA0))"

definition ws3 :: "nat \<Rightarrow> nat \<Rightarrow> nat \<Rightarrow> bool" where
  "ws3 a b c =
     ((a = 0xE1 \<and> b = 0x9A \<and> c = 0x80)
      \<or> (a = 0xE2 \<and> b = 0x80 \<and> ((0x80 \<le> c \<and> c \<le> 0x8A) \<or> c = 0xA8 \<or> c = 0xA9 \<or> c = 0xAF))
      \<or> (a = 0xE2 \<and> b = 0x81 \<and> c = 0x9F)
      \<or> (a = 0xE3 \<and> b = 0x80 \<and> c = 0x80))"

definition ws_len :: "string \<Rightarrow> nat" where
  "ws_len s =
     (case s of
        [] \<Rightarrow> 0
      | a # s1 \<Rightarrow>
          if ws1 (code a) then 1
          else (case s1 of
                  [] \<Rightarrow> 0
                | b # s2 \<Rightarrow>
                    if ws2 (code a) (code b) then 2
                    else (case s2 of
                            [] \<Rightarrow> 0
                          | c # _ \<Rightarrow> if ws3 (code a) (code b) (code c) then 3 else 0)))"

definition ws_len_rev :: "string \<Rightarrow> nat" where
  "ws_len_rev s =
     (case s of
        [] \<Rightarrow> 0
      | c # s1 \<Rightarrow>
          if ws1 (code c) then 1
          else (case s1 of
                  [] \<Rightarrow> 0
                | b # s2 \<Rightarrow>
                    if ws2 (code b) (code c) then 2
                    else (case s2 of
                            [] \<Rightarrow> 0
                          | a # _ \<Rightarrow> if ws3 (code a) (code b) (code c) then 3 else 0)))"

lemma ws_len_le: "ws_len s \<le> length s"
  by (auto simp: ws_len_def split: list.splits)

lemma ws_len_rev_le: "ws_len_rev s \<le> length s"
  by (auto simp: ws_len_rev_def split: list.splits)

function trim_start :: "string \<Rightarrow> string" where
  "trim_start s = (if ws_len s = 0 then s else trim_start (drop (ws_len s) s))"
  by pat_completeness auto
termination
  by (relation "measure length") (use ws_len_le in \<open>auto simp: ws_len_def split: list.splits\<close>)

function trim_rev :: "string \<Rightarrow> string" where
  "trim_rev s = (if ws_len_rev s = 0 then s else trim_rev (drop (ws_len_rev s) s))"
  by pat_completeness auto
termination
  by (relation "measure length") (use ws_len_rev_le in \<open>auto simp: ws_len_rev_def split: list.splits\<close>)

declare trim_start.simps [simp del] trim_rev.simps [simp del]

definition trim_end :: "string \<Rightarrow> string" where
  "trim_end s = rev (trim_rev (rev s))"

definition trim :: "string \<Rightarrow> string" where
  "trim s = trim_end (trim_start s)"

text \<open>\<^verbatim>\<open>char::is_control\<close> holds of U+0000..U+001F and U+007F..U+009F; the latter, but for
  U+007F, are the two-byte characters C2 80 .. C2 9F.\<close>

fun has_control :: "string \<Rightarrow> bool" where
  "has_control [] = False"
| "has_control (a # s) =
     (code a < 32 \<or> code a = 127
      \<or> (code a = 0xC2 \<and> s \<noteq> [] \<and> 0x80 \<le> code (hd s) \<and> code (hd s) \<le> 0x9F)
      \<or> has_control s)"

fun has_whitespace :: "string \<Rightarrow> bool" where
  "has_whitespace [] = False"
| "has_whitespace (a # s) = (ws_len (a # s) \<noteq> 0 \<or> has_whitespace s)"

text \<open>\<^verbatim>\<open>chars().count()\<close>: the bytes that do not continue a character.\<close>

definition char_count :: "string \<Rightarrow> nat" where
  "char_count s = length (filter (\<lambda>c. \<not> (128 \<le> code c \<and> code c < 192)) s)"

text \<open>\<^verbatim>\<open>is_char_boundary\<close>: slicing elsewhere panics.\<close>

definition is_char_boundary :: "string \<Rightarrow> nat \<Rightarrow> bool" where
  "is_char_boundary s i =
     (i = 0 \<or> i = length s \<or> (i < length s \<and> \<not> (128 \<le> code (s ! i) \<and> code (s ! i) < 192)))"

lemma has_control_append: "has_control s \<Longrightarrow> has_control (t @ s)"
  by (induction t) auto

lemma no_control_byte: "\<not> has_control s \<Longrightarrow> c \<in> set s \<Longrightarrow> 32 \<le> code c \<and> code c \<noteq> 127"
  by (induction s) auto

lemma no_control_newline: "\<not> has_control s \<Longrightarrow> newline \<notin> set s"
  using no_control_byte [of s newline] by auto

lemma no_control_cr: "\<not> has_control s \<Longrightarrow> CHR 0x0D \<notin> set s"
  using no_control_byte [of s "CHR 0x0D"] by auto

lemma trim_start_no_ws: "ws_len s = 0 \<Longrightarrow> trim_start s = s"
  by (simp add: trim_start.simps [of s])

lemma trim_rev_no_ws: "ws_len_rev s = 0 \<Longrightarrow> trim_rev s = s"
  by (simp add: trim_rev.simps [of s])

lemma trim_start_space: "trim_start (CHR '' '' # s) = trim_start s"
  by (simp add: trim_start.simps [of "CHR '' '' # s"] ws_len_def ws1_def)

lemma trim_start_spaces: "trim_start (replicate n (CHR '' '') @ s) = trim_start s"
  by (induction n) (auto simp: trim_start_space)

text \<open>A first or last byte that is printable ASCII other than a space ends trimming.\<close>

definition is_graph :: "char \<Rightarrow> bool" where
  "is_graph c = (33 \<le> code c \<and> code c \<le> 126)"

lemma ws_len_graph: "is_graph c \<Longrightarrow> ws_len (c # s) = 0"
  by (auto simp: ws_len_def ws1_def ws2_def ws3_def is_graph_def split: list.splits)

lemma ws_len_rev_graph: "is_graph c \<Longrightarrow> ws_len_rev (c # s) = 0"
  by (auto simp: ws_len_rev_def ws1_def ws2_def ws3_def is_graph_def split: list.splits)

lemma trim_end_graph: "is_graph c \<Longrightarrow> trim_end (s @ [c]) = s @ [c]"
  by (simp add: trim_end_def trim_rev_no_ws ws_len_rev_graph)

lemma trim_graph: "is_graph a \<Longrightarrow> is_graph b \<Longrightarrow> trim (a # s @ [b]) = a # s @ [b]"
  using trim_end_graph [of b "a # s"] by (simp add: trim_def trim_start_no_ws ws_len_graph)

section \<open>Numbers\<close>

fun show_nat :: "nat \<Rightarrow> string" where
  "show_nat n =
     (if n < 10 then [char_of (48 + n)] else show_nat (n div 10) @ [char_of (48 + n mod 10)])"

declare show_nat.simps [simp del]

definition digit_val :: "char \<Rightarrow> nat" where
  "digit_val c = code c - 48"

fun digits_val :: "nat \<Rightarrow> string \<Rightarrow> nat" where
  "digits_val acc [] = acc"
| "digits_val acc (c # cs) = digits_val (acc * 10 + digit_val c) cs"

text \<open>\<^verbatim>\<open>str::parse\<close> for an unsigned type with the given bound: an optional plus sign, at least one
  digit, no overflow.\<close>

definition parse_unsigned :: "nat \<Rightarrow> string \<Rightarrow> nat option" where
  "parse_unsigned bound s =
     (let d = (case s of c # cs \<Rightarrow> if c = CHR ''+'' then cs else s | [] \<Rightarrow> [])
      in if d \<noteq> [] \<and> list_all is_digit d \<and> digits_val 0 d < bound then Some (digits_val 0 d)
         else None)"

definition parse_u16 :: "string \<Rightarrow> u16 option" where
  "parse_u16 s = map_option of_nat (parse_unsigned (2 ^ 16) s)"

text \<open>\<^verbatim>\<open>str::parse::<i64>\<close>: an optional sign, at least one digit, within range.\<close>

definition parse_i64 :: "string \<Rightarrow> int option" where
  "parse_i64 s =
     (let neg = (case s of c # _ \<Rightarrow> c = CHR ''-'' | [] \<Rightarrow> False);
          d = (case s of c # cs \<Rightarrow> if c = CHR ''-'' \<or> c = CHR ''+'' then cs else s | [] \<Rightarrow> []);
          v = (if neg then - int (digits_val 0 d) else int (digits_val 0 d))
      in if d \<noteq> [] \<and> list_all is_digit d \<and> - (2 ^ 63) \<le> v \<and> v < 2 ^ 63 then Some v else None)"

text \<open>Whether \<^verbatim>\<open>str::parse::<f64>\<close> succeeds: an optional sign, then \<^verbatim>\<open>inf\<close>, \<^verbatim>\<open>infinity\<close> or \<^verbatim>\<open>nan\<close>
  in any case, or digits with at most one point and an optional exponent.\<close>

definition strip_sign :: "string \<Rightarrow> string" where
  "strip_sign s = (case s of c # cs \<Rightarrow> if c = CHR ''-'' \<or> c = CHR ''+'' then cs else s | [] \<Rightarrow> [])"

definition parses_exponent :: "string \<Rightarrow> bool" where
  "parses_exponent s =
     (case s of
        [] \<Rightarrow> True
      | c # cs \<Rightarrow> (c = CHR ''e'' \<or> c = CHR ''E'')
                  \<and> strip_sign cs \<noteq> [] \<and> list_all is_digit (strip_sign cs))"

definition parses_number :: "string \<Rightarrow> bool" where
  "parses_number s =
     (let whole = takeWhile is_digit s;
          rest = dropWhile is_digit s
      in case rest of
           c # cs \<Rightarrow>
             if c = CHR ''.'' then
               (whole \<noteq> [] \<or> takeWhile is_digit cs \<noteq> []) \<and> parses_exponent (dropWhile is_digit cs)
             else whole \<noteq> [] \<and> parses_exponent rest
         | [] \<Rightarrow> whole \<noteq> [])"

definition parses_f64 :: "string \<Rightarrow> bool" where
  "parses_f64 s =
     (lowercase (strip_sign s) \<in> {''inf'', ''infinity'', ''nan''} \<or> parses_number (strip_sign s))"

text \<open>Lower-case hexadecimal of a byte sequence, \<^verbatim>\<open>{:02x}\<close> for each byte.\<close>

definition hex_digit :: "nat \<Rightarrow> char" where
  "hex_digit n = (''0123456789abcdef'' ! n)"

definition hex_bytes :: "char list \<Rightarrow> string" where
  "hex_bytes bs = concat (map (\<lambda>b. [hex_digit (code b div 16), hex_digit (code b mod 16)]) bs)"

lemma code_char_of_digit: "n < 10 \<Longrightarrow> code (char_of (48 + n) :: char) = 48 + n"
  by simp

lemma is_digit_show_digit: "n < 10 \<Longrightarrow> is_digit (char_of (48 + n))"
  for n :: nat
  by (simp add: is_digit_def)

lemma show_nat_digits: "list_all is_digit (show_nat n)"
proof (induction n rule: show_nat.induct)
  case (1 n)
  then show ?case
    by (subst show_nat.simps) (auto simp: is_digit_show_digit)
qed

lemma show_nat_nonempty [simp]: "show_nat n \<noteq> []"
  by (subst show_nat.simps) simp

lemma digits_val_append: "digits_val acc (a @ b) = digits_val (digits_val acc a) b"
  by (induction a arbitrary: acc) auto

lemma digits_val_show_nat: "digits_val 0 (show_nat n) = n"
proof (induction n rule: show_nat.induct)
  case (1 n)
  show ?case
  proof (cases "n < 10")
    case True
    then show ?thesis by (subst show_nat.simps) (simp add: digit_val_def)
  next
    case False
    with 1 show ?thesis
      by (subst show_nat.simps) (simp add: digits_val_append digit_val_def)
  qed
qed

lemma show_nat_inj: "show_nat m = show_nat n \<longleftrightarrow> m = n"
  by (metis digits_val_show_nat)

lemma show_nat_not_plus: "show_nat n = c # cs \<Longrightarrow> c \<noteq> CHR ''+''"
  using show_nat_digits [of n] by (auto simp: is_digit_def)

lemma parse_unsigned_show_nat:
  assumes "n < bound"
  shows "parse_unsigned bound (show_nat n) = Some n"
proof -
  obtain c cs where s: "show_nat n = c # cs" by (cases "show_nat n") auto
  have "c \<noteq> CHR ''+''" using show_nat_not_plus [OF s] .
  moreover have "digits_val 0 (c # cs) = n" using digits_val_show_nat [of n] by (simp only: s)
  moreover have "list_all is_digit (c # cs)" using show_nat_digits [of n] by (simp only: s)
  ultimately show ?thesis using assms unfolding parse_unsigned_def s by (simp add: Let_def)
qed

lemma parse_u16_show_nat: "parse_u16 (show_nat (unat w)) = Some w"
  using unsigned_less [of w, where ?'a = nat] by (simp add: parse_u16_def parse_unsigned_show_nat)

lemma parse_unsigned_bound: "parse_unsigned bound s = Some n \<Longrightarrow> n < bound"
  by (auto simp: parse_unsigned_def Let_def split: if_splits)

lemma is_digit_not_newline: "is_digit c \<Longrightarrow> c \<noteq> newline"
  by (auto simp: is_digit_def)

lemma show_nat_no_char: "\<not> is_digit c \<Longrightarrow> c \<notin> set (show_nat n)"
  using show_nat_digits [of n] by (auto simp: list_all_iff)

lemma length_hex_bytes: "length (hex_bytes bs) = 2 * length bs"
  by (induction bs) (auto simp: hex_bytes_def)

lemma is_hex_digit: "n < 16 \<Longrightarrow> is_hex_lower (hex_digit n)"
proof -
  assume "n < 16"
  then have "\<forall>n \<in> set [0..<16]. is_hex_lower (hex_digit n) \<Longrightarrow> ?thesis" by simp
  moreover have "\<forall>n \<in> set [0..<16]. is_hex_lower (hex_digit n)" by code_simp
  ultimately show ?thesis by blast
qed

lemma hex_bytes_hex: "list_all is_hex_lower (hex_bytes bs)"
proof (induction bs)
  case (Cons b bs)
  have "code b < 16 * 16" using nat_of_char_less_256 [of b] by simp
  then have "code b div 16 < 16" by (rule less_mult_imp_div_less)
  with Cons show ?case by (auto simp: hex_bytes_def is_hex_digit)
qed (simp add: hex_bytes_def)

end
