(* ===== verification/Redact.thy ===== *)
theory Redact
  imports Rust_Str
begin

text \<open>
  Redaction of diagnostic text, \<^verbatim>\<open>src/runtime/process.rs\<close>: credentials in URLs, in
  \<^verbatim>\<open>Authorization\<close> headers, after an authentication scheme and in \<^verbatim>\<open>KEY=value\<close> assignments.
  Every loop of the code is a recursion over what is left of the line.
\<close>

section \<open>The code\<close>

definition REDACTED :: string where
  "REDACTED = ''***''"

definition SENSITIVE_FRAGMENTS :: "string list" where
  "SENSITIVE_FRAGMENTS =
     [''PASSWORD'', ''PASSWD'', ''SECRET'', ''TOKEN'', ''APIKEY'', ''API_KEY'', ''ACCESSKEY'',
      ''ACCESS_KEY'', ''PRIVATEKEY'', ''PRIVATE_KEY'', ''CREDENTIAL'']"

definition SENSITIVE_KEYS :: "string list" where
  "SENSITIVE_KEYS = [''AUTH'', ''PASS'', ''PWD'']"

text \<open>\<^verbatim>\<open>s.find(p)\<close> for a predicate on the character at the front of the remaining text.\<close>

fun find_pos :: "(string \<Rightarrow> bool) \<Rightarrow> string \<Rightarrow> nat option" where
  "find_pos P [] = None"
| "find_pos P (c # cs) = (if P (c # cs) then Some 0 else map_option Suc (find_pos P cs))"

definition find_or_len :: "(string \<Rightarrow> bool) \<Rightarrow> string \<Rightarrow> nat" where
  "find_or_len P s = (case find_pos P s of Some i \<Rightarrow> i | None \<Rightarrow> length s)"

definition ends_authority :: "string \<Rightarrow> bool" where
  "ends_authority s =
     (s \<noteq> [] \<and> (ws_len s \<noteq> 0 \<or> hd s \<in> {CHR ''/'', CHR ''?'', CHR ''#'', dquote, squote, CHR '','', CHR '')''}))"

definition hide_userinfo :: "string \<Rightarrow> string" where
  "hide_userinfo authority =
     (case rfind_char (CHR ''@'') authority of
        Some at \<Rightarrow> REDACTED @ drop at authority
      | None \<Rightarrow> authority)"

function redact_url_userinfo :: "string \<Rightarrow> string" where
  "redact_url_userinfo rest =
     (case find_str ''://'' rest of
        None \<Rightarrow> rest
      | Some scheme_end \<Rightarrow>
          (let authority_start = scheme_end + 3;
               tail = drop authority_start rest;
               ende = find_or_len ends_authority tail
           in take authority_start rest @ hide_userinfo (take ende tail)
              @ redact_url_userinfo (drop ende tail)))"
  by pat_completeness auto
termination
  by (relation "measure length") (auto dest!: find_str_Some_split)

declare redact_url_userinfo.simps [simp del]

fun skip_blanks :: "string \<Rightarrow> nat \<Rightarrow> nat" where
  "skip_blanks [] n = n"
| "skip_blanks (c # cs) n = (if c = CHR '' '' \<or> c = CHR 0x09 then skip_blanks cs (Suc n) else n)"

definition skip_scheme :: "string \<Rightarrow> nat \<Rightarrow> nat" where
  "skip_scheme lower cursor =
     (case List.find (\<lambda>scheme. starts_with scheme (drop cursor lower))
             [''bearer'', ''basic'', ''digest'', ''negotiate''] of
        Some scheme \<Rightarrow> cursor + length scheme
      | None \<Rightarrow> cursor)"

definition redact_authorization_header :: "string \<Rightarrow> string" where
  "redact_authorization_header line =
     (let lower = lowercase line
      in case find_str ''authorization:'' lower of
           None \<Rightarrow> line
         | Some at \<Rightarrow>
             (let start = at + length ''authorization:'';
                  cursor = skip_scheme lower (skip_blanks (drop start line) start)
              in take cursor line @
                 (if dropWhile (\<lambda>c. c = CHR '' '' \<or> c = CHR 0x09) (drop cursor line) = []
                  then drop cursor line
                  else '' '' @ REDACTED)))"

definition ends_token :: "string \<Rightarrow> bool" where
  "ends_token s = (s \<noteq> [] \<and> (ws_len s \<noteq> 0 \<or> hd s \<in> {dquote, CHR '','', CHR '';''}))"

text \<open>\<^verbatim>\<open>min_by_key\<close> keeps the first of equal elements.\<close>

definition next_scheme :: "string \<Rightarrow> (nat \<times> nat) option" where
  "next_scheme lower =
     (case (find_str ''bearer '' lower, find_str ''basic '' lower) of
        (Some i, Some j) \<Rightarrow> if i \<le> j then Some (i, 7) else Some (j, 6)
      | (Some i, None) \<Rightarrow> Some (i, 7)
      | (None, Some j) \<Rightarrow> Some (j, 6)
      | (None, None) \<Rightarrow> None)"

lemma next_scheme_len: "next_scheme lower = Some (at, n) \<Longrightarrow> 0 < n \<and> at + n \<le> length lower"
  unfolding next_scheme_def
  by (auto split: option.splits if_splits dest!: find_str_Some_split)

function redact_auth_schemes :: "string \<Rightarrow> string" where
  "redact_auth_schemes line =
     (case next_scheme (lowercase line) of
        None \<Rightarrow> line
      | Some (at, keyword_len) \<Rightarrow>
          (let value_start = at + keyword_len;
               tail = drop value_start line;
               ende = find_or_len ends_token tail
           in take value_start line @ (if 0 < ende then REDACTED else [])
              @ redact_auth_schemes (drop ende tail)))"
  by pat_completeness auto
termination
  by (relation "measure length") (auto dest!: next_scheme_len simp: lowercase_def)

declare redact_auth_schemes.simps [simp del]

definition trim_quotes :: "string \<Rightarrow> string" where
  "trim_quotes s = rev (dropWhile (\<lambda>c. c = dquote) (rev (dropWhile (\<lambda>c. c = dquote) s)))"

definition is_sensitive_key :: "string \<Rightarrow> bool" where
  "is_sensitive_key k =
     (let key = trim_quotes k; upper = uppercase key
      in key \<noteq> [] \<and>
         (upper \<in> set SENSITIVE_KEYS
          \<or> list_ex (\<lambda>fragment. contains fragment upper) SENSITIVE_FRAGMENTS))"

definition is_key_byte :: "char \<Rightarrow> bool" where
  "is_key_byte c = (is_alnum c \<or> c \<in> {CHR ''_'', CHR ''-'', CHR ''.''})"

text \<open>
  The key before a separator, read backwards from it: blanks, at most one closing quote, then key
  bytes. \<open>seen\<close> is the reversed text between the last copied position and the separator.
\<close>

definition key_before :: "string \<Rightarrow> string" where
  "key_before seen =
     (let s1 = dropWhile is_ascii_ws seen;
          s2 = (case s1 of c # cs \<Rightarrow> if c = dquote then cs else s1 | [] \<Rightarrow> [])
      in rev (takeWhile is_key_byte s2))"

definition ends_value :: "char \<Rightarrow> bool" where
  "ends_value c =
     (c \<in> {CHR '' '', CHR 0x09, CHR '','', CHR '';'', CHR ''}'', CHR '')'', dquote, squote})"

definition is_blank :: "char \<Rightarrow> bool" where
  "is_blank c = (c = CHR '' '' \<or> c = CHR 0x09)"

lemma length_rest_simps:
  "length (dropWhile is_blank xs) - n < Suc (length xs)"
  "q # qs = dropWhile is_blank xs \<Longrightarrow> length qs - n < Suc (length xs)"
  using length_dropWhile_le [of is_blank xs] by (auto dest: arg_cong [where f = length])

text \<open>
  The scan of \<^verbatim>\<open>redact_assignments\<close>: \<open>seen\<close> is the reversed text from \<^verbatim>\<open>copied\<close> to \<^verbatim>\<open>index\<close>, not yet
  emitted, \<open>s\<close> the text from \<^verbatim>\<open>index\<close> on. After a value was replaced \<^verbatim>\<open>copied\<close> stands at its end;
  \<^verbatim>\<open>index = end.max(index + 1)\<close> can only pass it when the value is empty and nothing separates it
  from the separator, and then \<^verbatim>\<open>end\<close> is \<^verbatim>\<open>index + 1\<close> as well.
\<close>

function assignments_from :: "string \<Rightarrow> string \<Rightarrow> string" where
  "assignments_from seen s =
     (case s of
        [] \<Rightarrow> rev seen
      | c # rest \<Rightarrow>
          if c \<noteq> CHR ''='' \<and> c \<noteq> CHR '':'' then assignments_from (c # seen) rest
          else if \<not> is_sensitive_key (key_before seen) then assignments_from (c # seen) rest
          else
            (let blanks = takeWhile is_blank rest;
                 v = dropWhile is_blank rest;
                 unquoted =
                   (let e = length (takeWhile (\<lambda>c. \<not> ends_value c) v)
                    in (if 0 < e then REDACTED else []) @ assignments_from [] (drop e v))
             in rev seen @ [c] @ blanks @
                (case v of
                   q # qs \<Rightarrow>
                     if q = dquote then
                       (case find_str [dquote] qs of
                          Some close \<Rightarrow>
                            [dquote] @ REDACTED @ [dquote] @ assignments_from [] (drop (Suc close) qs)
                        | None \<Rightarrow> unquoted)
                     else unquoted
                 | [] \<Rightarrow> unquoted)))"
  by pat_completeness auto
termination
  by (relation "measure (\<lambda>(seen, s). length s)") (auto simp: length_rest_simps)

declare assignments_from.simps [simp del]

definition redact_assignments :: "string \<Rightarrow> string" where
  "redact_assignments line = assignments_from [] line"

definition redact_line :: "string \<Rightarrow> string" where
  "redact_line line =
     redact_assignments (redact_auth_schemes
       (redact_authorization_header (redact_url_userinfo line)))"

definition redact :: "string \<Rightarrow> string" where
  "redact text = join [newline] (map redact_line (split_char newline text))"

definition redact_diagnostic :: "string \<Rightarrow> bool \<Rightarrow> string" where
  "redact_diagnostic text truncated =
     (case (truncated, rfind_char newline text) of
        (True, Some l) \<Rightarrow> redact (take l text)
      | _ \<Rightarrow> redact text)"

section \<open>Secrecy of URL credentials\<close>

lemma find_str_extend: "find_str p (a @ p) = Some (length a) \<Longrightarrow> find_str p (a @ p @ x) = Some (length a)"
proof (induction a)
  case (Cons c a)
  have "\<not> starts_with p (c # a @ p)" using Cons.prems by (auto split: if_splits)
  moreover from this have "\<not> starts_with p (c # a @ p @ x)"
  proof (rule contrapos_nn)
    assume "starts_with p (c # a @ p @ x)"
    then have "take (length p) ((c # a @ p) @ x) = p" by (auto simp: starts_with_iff)
    then have "take (length p) (c # a @ p) = p" by (subst (asm) take_append) simp
    then show "starts_with p (c # a @ p)" unfolding starts_with_iff by (metis append_take_drop_id)
  qed
  ultimately show ?case using Cons by auto
qed (cases p; cases x; auto)

lemma ws_at_simps:
  "\<not> ws1 64" "\<not> ws2 a 64" "\<not> ws2 64 b" "\<not> ws3 a b 64" "\<not> ws3 a 64 c" "\<not> ws3 64 b c"
  by (auto simp: ws1_def ws2_def ws3_def)

lemma ws_len_at: "ws_len (s @ CHR ''@'' # t) = ws_len (s @ ''@'')"
proof -
  consider "s = []" | a where "s = [a]" | a b where "s = [a, b]" | a b c s' where "s = a # b # c # s'"
    by (metis neq_Nil_conv)
  then show ?thesis
    by cases (simp_all add: ws_len_def ws_at_simps split: list.split)
qed

lemma ws_len_at_0 [simp]: "ws_len (CHR ''@'' # t) = 0"
  by (simp add: ws_len_def ws_at_simps split: list.split)

text \<open>\<open>u\<close> contains no character that ends an authority.\<close>

definition plain_userinfo :: "string \<Rightarrow> bool" where
  "plain_userinfo u = (newline \<notin> set u \<and> find_pos ends_authority (u @ ''@'') = None)"

lemma find_pos_userinfo:
  "find_pos ends_authority (u @ ''@'') = None \<Longrightarrow>
   find_pos ends_authority (u @ CHR ''@'' # t) = map_option (\<lambda>i. Suc (length u) + i) (find_pos ends_authority t)"
proof (induction u)
  case Nil
  have "\<not> ends_authority (CHR ''@'' # t)" by (simp add: ends_authority_def)
  then show ?case by (cases "find_pos ends_authority t") auto
next
  case (Cons c u)
  have "\<not> ends_authority (c # u @ CHR ''@'' # t)"
    using Cons.prems ws_len_at [of "c # u" t] by (auto simp: ends_authority_def split: if_splits)
  moreover have "find_pos ends_authority (u @ ''@'') = None"
    using Cons.prems by (auto split: if_splits)
  ultimately show ?case using Cons.IH by (cases "find_pos ends_authority t") auto
qed

definition host_part :: "string \<Rightarrow> string" where
  "host_part h = (case rfind_char (CHR ''@'') h of None \<Rightarrow> CHR ''@'' # h | Some j \<Rightarrow> drop j h)"

lemma hide_userinfo_at: "hide_userinfo (u @ CHR ''@'' # h) = REDACTED @ host_part h"
proof (cases "rfind_char (CHR ''@'') h")
  case None
  then have "rfind_char (CHR ''@'') (u @ CHR ''@'' # h) = Some (length u)"
    by (intro rfind_char_append) (simp add: rfind_char_None_iff)
  with None show ?thesis by (simp add: hide_userinfo_def host_part_def)
next
  case (Some j)
  have "rfind_char c (v @ h) = Some (length v + j)" if "rfind_char c h = Some j" for c v
    using that by (induction v) auto
  from this [OF Some, of "u @ ''@''"]
  have "rfind_char (CHR ''@'') (u @ CHR ''@'' # h) = Some (Suc (length u) + j)" by simp
  with Some show ?thesis by (simp add: hide_userinfo_def host_part_def)
qed

lemma redact_url_userinfo_secret:
  assumes "find_str ''://'' (pre @ ''://'') = Some (length pre)"
    and "find_pos ends_authority (u @ ''@'') = None"
  shows "redact_url_userinfo (pre @ ''://'' @ u @ ''@'' @ t) =
           pre @ ''://'' @ REDACTED @ host_part (take (find_or_len ends_authority t) t)
           @ redact_url_userinfo (drop (find_or_len ends_authority t) t)"
proof -
  have f: "find_str ''://'' (pre @ ''://'' @ u @ ''@'' @ t) = Some (length pre)"
    using find_str_extend [OF assms(1)] by simp
  have l: "find_or_len ends_authority (u @ ''@'' @ t) = Suc (length u) + find_or_len ends_authority t"
    using find_pos_userinfo [OF assms(2), of t] by (auto simp: find_or_len_def split: option.splits)
  let ?k = "find_or_len ends_authority t"
  have "redact_url_userinfo (pre @ ''://'' @ u @ ''@'' @ t) =
          pre @ ''://'' @ hide_userinfo (u @ CHR ''@'' # take ?k t) @ redact_url_userinfo (drop ?k t)"
    unfolding redact_url_userinfo.simps [of "pre @ ''://'' @ u @ ''@'' @ t"] f
    using l by (simp add: Let_def numeral_eq_Suc)
  then show ?thesis by (simp add: hide_userinfo_at)
qed

lemma split_char_prefix:
  "c \<notin> set a \<Longrightarrow> split_char c (a @ b) = (a @ hd (split_char c b)) # tl (split_char c b)"
  by (induction a) (auto split: list.splits)

lemma redact_userinfo_indep:
  assumes "newline \<notin> set pre" "find_str ''://'' (pre @ ''://'') = Some (length pre)"
    and "plain_userinfo u" "plain_userinfo v"
  shows "redact (pre @ ''://'' @ u @ ''@'' @ rest) = redact (pre @ ''://'' @ v @ ''@'' @ rest)"
proof -
  have sp: "split_char newline (pre @ ''://'' @ w @ ''@'' @ rest) =
      (pre @ ''://'' @ w @ ''@'' @ hd (split_char newline rest)) # tl (split_char newline rest)"
    if "plain_userinfo w" for w
    using split_char_prefix [of newline "pre @ ''://'' @ w @ ''@''" rest] that assms(1)
    by (simp add: plain_userinfo_def)
  have "redact_line (pre @ ''://'' @ u @ ''@'' @ l) = redact_line (pre @ ''://'' @ v @ ''@'' @ l)" for l
    using redact_url_userinfo_secret [OF assms(2), of u l] redact_url_userinfo_secret [OF assms(2), of v l]
      assms(3,4)
    by (simp add: redact_line_def plain_userinfo_def)
  then show ?thesis unfolding redact_def sp [OF assms(3)] sp [OF assms(4)] by simp
qed

section \<open>Secrecy of assigned values\<close>

text \<open>
  A plain line ahead of a sensitive key: no separator in it, so the scan reaches the assignment
  with everything before it still unread.
\<close>

lemma assignments_from_skip:
  "list_all (\<lambda>c. c \<noteq> CHR ''='' \<and> c \<noteq> CHR '':'') a \<Longrightarrow>
   assignments_from seen (a @ s) = assignments_from (rev a @ seen) s"
proof (induction a arbitrary: seen)
  case (Cons c a)
  then show ?case by (simp add: assignments_from.simps [of seen "c # a @ s"])
qed simp

lemma redact_assignments_secret:
  assumes "list_all (\<lambda>c. c \<noteq> CHR ''='' \<and> c \<noteq> CHR '':'') a" "is_sensitive_key (key_before (rev a))"
    and "v \<noteq> []" "list_all (\<lambda>c. \<not> ends_value c) v"
    and "rest = [] \<or> ends_value (hd rest)"
  shows "redact_assignments (a @ ''='' @ v @ rest) = a @ ''='' @ REDACTED @ assignments_from [] rest"
proof -
  have nb: "takeWhile is_blank (v @ rest) = []" "dropWhile is_blank (v @ rest) = v @ rest"
    using assms(3,4) by (cases v; auto simp: is_blank_def ends_value_def)+
  have tw: "takeWhile (\<lambda>c. \<not> ends_value c) (v @ rest) = v"
    using assms(4,5) by (cases rest) (auto simp: list_all_iff takeWhile_append)
  obtain q qs where v: "v = q # qs" using assms(3) by (cases v) auto
  have q: "q \<noteq> dquote" using assms(4) v by (auto simp: ends_value_def)
  have "redact_assignments (a @ ''='' @ v @ rest) = assignments_from (rev a) (CHR ''='' # v @ rest)"
    using assignments_from_skip [OF assms(1), of "[]"] by (simp add: redact_assignments_def)
  also have "\<dots> = a @ ''='' @ REDACTED @ assignments_from [] rest"
    using assms(2) nb tw q v
    by (simp add: assignments_from.simps [of "rev a"] Let_def)
  finally show ?thesis .
qed

end
