(* ===== verification/Errors.thy ===== *)
theory Errors
  imports Redact
begin

text \<open>
  The error values of \<^verbatim>\<open>src/error.rs\<close>, with the storage and process errors it converts. The text
  of an error is kept as its source (\<open>detail\<close>) and rendered and redacted by \<open>message\<close>, as
  \<^verbatim>\<open>AppError::new\<close> does; \<open>dbg\<close> is the standard library's \<^verbatim>\<open>{:?}\<close> of a string.
\<close>

datatype error_code =
    InvalidInput | Forbidden | NotFound | AlreadyExists | OperationBusy | PortInUse
  | PrerequisiteUnavailable | ProcessUnavailable | ProcessFailed | TimedOut | Cancelled
  | RollbackFailed | StorageIo | StorageCorrupt | MigrationRefused | UnsupportedOperation
  | UnsafePath | Internal | BrowserOpenFailed | WindowOpenFailed | ShortcutFailed

datatype io_kind = KNotFound | KAlreadyExists | KOther

record io_error =
  kind :: io_kind
  io_text :: string

text \<open>The reasons the code gives a \<^verbatim>\<open>MigrationRefused\<close>.\<close>

datatype refusal =
    NoRecoveryFile io_error
  | ClockBeforeEpoch
  | NoParentDirectory
  | NoTemporaryName
  | InvalidAppId string
  | EmptyEssentialField
  | UpdatedBeforeCreated
  | InvalidComposePaths
  | V2Exists
  | SlugNotAnId

datatype storage_error =
    SIo io_error
  | SAlreadyExists string
  | SNotFound string
  | SJson
  | SInvalidRegistryVersion u32
  | SMigrationRefused refusal
  | SInvalidComposeValue string
  | SLockUnavailable string

datatype process_code = PUnavailable | PFailed | PTimedOut | PCancelled

record process_error =
  pcode :: process_code
  pmessage :: string

datatype detail =
    Text string
  | Storage_detail storage_error
  | Io_detail io_error
  | Process_detail string
  | Rollback_detail detail detail

record app_error =
  code_of :: error_code
  detail_of :: detail

section \<open>Construction and conversion\<close>

definition app_error_new :: "error_code \<Rightarrow> string \<Rightarrow> app_error" where
  "app_error_new c m = \<lparr>code_of = c, detail_of = Text m\<rparr>"

definition app_error_rollback :: "detail \<Rightarrow> detail \<Rightarrow> app_error" where
  "app_error_rollback original cleanup =
     \<lparr>code_of = RollbackFailed, detail_of = Rollback_detail original cleanup\<rparr>"

definition app_error_internal :: "string \<Rightarrow> app_error" where
  "app_error_internal m = app_error_new Internal m"

definition app_error_invalid :: "string \<Rightarrow> app_error" where
  "app_error_invalid m = app_error_new InvalidInput m"

definition process_error_new :: "process_code \<Rightarrow> string \<Rightarrow> process_error" where
  "process_error_new c m = \<lparr>pcode = c, pmessage = redact m\<rparr>"

definition from_process :: "process_error \<Rightarrow> app_error" where
  "from_process e =
     \<lparr>code_of = (case pcode e of
          PUnavailable \<Rightarrow> ProcessUnavailable
        | PFailed \<Rightarrow> ProcessFailed
        | PTimedOut \<Rightarrow> TimedOut
        | PCancelled \<Rightarrow> Cancelled),
      detail_of = Process_detail (pmessage e)\<rparr>"

definition from_io :: "io_error \<Rightarrow> app_error" where
  "from_io e = \<lparr>code_of = StorageIo, detail_of = Io_detail e\<rparr>"

definition from_storage :: "storage_error \<Rightarrow> app_error" where
  "from_storage e =
     \<lparr>code_of = (case e of
          SAlreadyExists _ \<Rightarrow> AlreadyExists
        | SNotFound _ \<Rightarrow> NotFound
        | SIo _ \<Rightarrow> StorageIo
        | SJson \<Rightarrow> StorageCorrupt
        | SInvalidRegistryVersion _ \<Rightarrow> StorageCorrupt
        | SMigrationRefused _ \<Rightarrow> MigrationRefused
        | SInvalidComposeValue _ \<Rightarrow> InvalidInput
        | SLockUnavailable _ \<Rightarrow> OperationBusy),
      detail_of = Storage_detail e\<rparr>"

section \<open>The text shown\<close>

text \<open>\<open>refused\<close> renders a refusal and \<open>json\<close> is the decoder's own message.\<close>

definition storage_display ::
  "(string \<Rightarrow> string) \<Rightarrow> (refusal \<Rightarrow> string) \<Rightarrow> string \<Rightarrow> storage_error \<Rightarrow> string" where
  "storage_display dbg refused json e =
     (case e of
        SAlreadyExists id' \<Rightarrow> ''app id '' @ dbg id' @ '' already exists''
      | SNotFound id' \<Rightarrow> ''app id '' @ dbg id' @ '' not found''
      | SIo err \<Rightarrow> ''registry I/O error: '' @ io_text err
      | SJson \<Rightarrow> ''registry JSON error: '' @ json
      | SInvalidRegistryVersion v \<Rightarrow>
          ''unsupported registry version '' @ show_nat (unat v) @ ''; expected 2''
      | SMigrationRefused r \<Rightarrow> ''v1 migration refused: '' @ refused r
      | SLockUnavailable reason \<Rightarrow> ''registry is busy: '' @ reason
      | SInvalidComposeValue v \<Rightarrow> ''v1 compose value is not a path: '' @ dbg v)"

fun detail_text ::
  "(string \<Rightarrow> string) \<Rightarrow> (refusal \<Rightarrow> string) \<Rightarrow> string \<Rightarrow> detail \<Rightarrow> string" where
  "detail_text dbg refused json (Text m) = m"
| "detail_text dbg refused json (Storage_detail e) = storage_display dbg refused json e"
| "detail_text dbg refused json (Io_detail e) = io_text e"
| "detail_text dbg refused json (Process_detail m) = m"
| "detail_text dbg refused json (Rollback_detail a b) =
     redact (detail_text dbg refused json a) @ '' Cleanup also failed: ''
     @ redact (detail_text dbg refused json b)
     @ ''. Setup may be incomplete; inspect the app files and containers before retrying.''"

definition message ::
  "(string \<Rightarrow> string) \<Rightarrow> (refusal \<Rightarrow> string) \<Rightarrow> string \<Rightarrow> app_error \<Rightarrow> string" where
  "message dbg refused json e = redact (detail_text dbg refused json (detail_of e))"

lemma code_of_new [simp]: "code_of (app_error_new c m) = c"
  by (simp add: app_error_new_def)

lemma code_of_invalid [simp]: "code_of (app_error_invalid m) = InvalidInput"
  by (simp add: app_error_invalid_def)

lemma code_of_internal [simp]: "code_of (app_error_internal m) = Internal"
  by (simp add: app_error_internal_def)

lemma code_of_from_io [simp]: "code_of (from_io e) = StorageIo"
  by (simp add: from_io_def)

text \<open>
  The text of an application error does not depend on the credentials of a URL in it:
  replacing the user information by any other leaves the message the same.
\<close>

theorem app_error_hides_credentials:
  assumes "newline \<notin> set pre" "find_str ''://'' (pre @ ''://'') = Some (length pre)"
    and "plain_userinfo u" "plain_userinfo v"
  shows "message dbg refused json (app_error_new c (pre @ ''://'' @ u @ ''@'' @ rest)) =
         message dbg refused json (app_error_new c (pre @ ''://'' @ v @ ''@'' @ rest))"
  using redact_userinfo_indep [OF assms] by (simp add: message_def app_error_new_def)

theorem app_error_hides_credentials_witness:
  "message (\<lambda>s. s) (\<lambda>_. []) []
     (app_error_new ProcessFailed (''pull https'' @ ''://'' @ ''user:secret'' @ ''@'' @ ''example.com failed'')) =
   message (\<lambda>s. s) (\<lambda>_. []) []
     (app_error_new ProcessFailed (''pull https'' @ ''://'' @ ''x'' @ ''@'' @ ''example.com failed''))"
  by (rule app_error_hides_credentials; code_simp)

end
