(* ===== verification/Paths.thy ===== *)
theory Paths
  imports Rust_Str
begin

text \<open>
  Rust's \<^verbatim>\<open>std::path\<close> as far as the program uses it. A \<^verbatim>\<open>PathBuf\<close> is compared, prefixed and
  walked by its components, so it is modelled by the list of them. \<open>parse_path\<close> is the Unix
  reading of a string; a Windows path differs in its separators and in its leading \<open>Prefix\<close>, and
  everything below the parser is the same for both.
\<close>

datatype component = Prefix string | RootDir | CurDir | ParentDir | Normal string

type_synonym path = "component list"

definition piece_component :: "string \<Rightarrow> component" where
  "piece_component w = (if w = ''..'' then ParentDir else Normal w)"

definition parse_path :: "string \<Rightarrow> path" where
  "parse_path s =
     (let pieces = split_char (CHR ''/'') s;
          body = map piece_component (filter (\<lambda>w. w \<noteq> [] \<and> w \<noteq> ''.'') pieces)
      in if starts_with ''/'' s then RootDir # body
         else if hd pieces = ''.'' then CurDir # body
         else body)"

text \<open>\<^verbatim>\<open>Path::join\<close> with a relative path.\<close>

definition path_join :: "path \<Rightarrow> string \<Rightarrow> path" where
  "path_join p name = p @ [Normal name]"

text \<open>\<^verbatim>\<open>Path::parent\<close>: none for a root, a prefix or an empty path.\<close>

definition path_parent :: "path \<Rightarrow> path option" where
  "path_parent p =
     (if p = [] then None
      else (case last p of
              Normal _ \<Rightarrow> Some (butlast p)
            | CurDir \<Rightarrow> Some (butlast p)
            | ParentDir \<Rightarrow> Some (butlast p)
            | RootDir \<Rightarrow> None
            | Prefix _ \<Rightarrow> None))"

definition path_file_name :: "path \<Rightarrow> string option" where
  "path_file_name p =
     (if p = [] then None else (case last p of Normal n \<Rightarrow> Some n | _ \<Rightarrow> None))"

text \<open>\<^verbatim>\<open>Path::file_stem\<close> of a file name: a dot at its start does not begin an extension.\<close>

definition file_stem :: "string \<Rightarrow> string" where
  "file_stem n =
     (case rfind_char (CHR ''.'') n of
        None \<Rightarrow> n
      | Some i \<Rightarrow> if i = 0 then n else take i n)"

definition with_extension :: "string \<Rightarrow> path \<Rightarrow> path" where
  "with_extension ext p =
     (case path_file_name p of
        None \<Rightarrow> p
      | Some n \<Rightarrow> butlast p @ [Normal (file_stem n @ ''.'' @ ext)])"

definition path_starts_with :: "path \<Rightarrow> path \<Rightarrow> bool" where
  "path_starts_with p base = (take (length base) p = base)"

definition is_absolute :: "path \<Rightarrow> bool" where
  "is_absolute p =
     (case p of RootDir # _ \<Rightarrow> True | Prefix _ # RootDir # _ \<Rightarrow> True | _ \<Rightarrow> False)"

definition has_parent_dir :: "path \<Rightarrow> bool" where
  "has_parent_dir p = list_ex (\<lambda>c. c = ParentDir) p"

lemma path_starts_with_iff: "path_starts_with p base \<longleftrightarrow> (\<exists>r. p = base @ r)"
  unfolding path_starts_with_def
  by (metis append_eq_conv_conj append_take_drop_id)

lemma path_starts_with_trans:
  "path_starts_with p q \<Longrightarrow> path_starts_with q r \<Longrightarrow> path_starts_with p r"
  by (auto simp: path_starts_with_iff)

lemma path_starts_with_refl [simp]: "path_starts_with p p"
  by (simp add: path_starts_with_def)

lemma path_parent_starts_with: "path_parent p = Some q \<Longrightarrow> path_starts_with p q"
proof -
  assume "path_parent p = Some q"
  then have "p \<noteq> []" "q = butlast p"
    by (auto simp: path_parent_def split: if_splits component.splits)
  then have "p = q @ [last p]" by simp
  then show ?thesis unfolding path_starts_with_iff by metis
qed

lemma path_parent_join [simp]: "path_parent (path_join p n) = Some p"
  by (simp add: path_parent_def path_join_def)

lemma path_file_name_join [simp]: "path_file_name (path_join p n) = Some n"
  by (simp add: path_file_name_def path_join_def)

lemma path_join_inject [simp]: "path_join p m = path_join p n \<longleftrightarrow> m = n"
  by (simp add: path_join_def)

end
