(* ===== verification/World.thy ===== *)
theory World
  imports Errors Paths
begin

text \<open>
  The machine the program runs on, as far as the modelled code touches it: files, directories,
  advisory locks held by other processes, the system clock and the system random source. A program
  maps a world to an outcome and the next world. Every operation on the file system consults the
  next element of a fault script: it succeeds, reports an error, or the process dies there. An
  exhausted script means no further faults.
\<close>

section \<open>Programs\<close>

datatype fault = Fine | Faulty | Torn nat | Dies | Dies_torn nat

record world =
  files :: "path \<Rightarrow> bytes option"
  dirs :: "path set"
  locked :: "path set"
  clock_secs :: "u64 option"
  clock_nanos :: nat
  entropy :: "char list"
  faults :: "fault list"

datatype ('e, 'a) run = Done 'a | Failed 'e | Crashed

type_synonym ('e, 'a) prog = "world \<Rightarrow> ('e, 'a) run \<times> world"

definition io_return :: "'a \<Rightarrow> ('e, 'a) prog" where
  "io_return x w = (Done x, w)"

definition io_fail :: "'e \<Rightarrow> ('e, 'a) prog" where
  "io_fail e w = (Failed e, w)"

text \<open>A Rust panic ends the process.\<close>

definition io_panic :: "('e, 'a) prog" where
  "io_panic w = (Crashed, w)"

definition io_bind :: "('e, 'a) prog \<Rightarrow> ('a \<Rightarrow> ('e, 'b) prog) \<Rightarrow> ('e, 'b) prog" where
  "io_bind m f w =
     (case m w of
        (Done x, w1) \<Rightarrow> f x w1
      | (Failed e, w1) \<Rightarrow> (Failed e, w1)
      | (Crashed, w1) \<Rightarrow> (Crashed, w1))"

text \<open>\<^verbatim>\<open>match m { Ok(x) => f(x), Err(e) => h(e) }\<close>.\<close>

definition io_match :: "('e, 'a) prog \<Rightarrow> ('a \<Rightarrow> ('f, 'b) prog) \<Rightarrow> ('e \<Rightarrow> ('f, 'b) prog) \<Rightarrow> ('f, 'b) prog" where
  "io_match m f h w =
     (case m w of
        (Done x, w1) \<Rightarrow> f x w1
      | (Failed e, w1) \<Rightarrow> h e w1
      | (Crashed, w1) \<Rightarrow> (Crashed, w1))"

definition io_map_err :: "('e \<Rightarrow> 'f) \<Rightarrow> ('e, 'a) prog \<Rightarrow> ('f, 'a) prog" where
  "io_map_err g m = io_match m io_return (\<lambda>e. io_fail (g e))"

definition io_lift :: "('e, 'a) result \<Rightarrow> ('e, 'a) prog" where
  "io_lift r = (case r of Ok x \<Rightarrow> io_return x | Err e \<Rightarrow> io_fail e)"

definition io_ensure :: "bool \<Rightarrow> 'e \<Rightarrow> ('e, unit) prog" where
  "io_ensure c e = (if c then io_return () else io_fail e)"

text \<open>\<^verbatim>\<open>let _ = m\<close>: the outcome of \<open>m\<close> is dropped unless the process dies.\<close>

definition io_ignore :: "('e, 'a) prog \<Rightarrow> ('f, unit) prog" where
  "io_ignore m = io_match m (\<lambda>_. io_return ()) (\<lambda>_. io_return ())"

definition with_world :: "(world \<Rightarrow> ('e, 'a) prog) \<Rightarrow> ('e, 'a) prog" where
  "with_world f w = f w w"

named_theorems io_simps \<open>running a program step by step\<close>

lemma io_return_run [simp, io_simps]: "io_return x w = (Done x, w)"
  by (simp add: io_return_def)

lemma io_fail_run [simp, io_simps]: "io_fail e w = (Failed e, w)"
  by (simp add: io_fail_def)

lemma io_panic_run [simp, io_simps]: "io_panic w = (Crashed, w)"
  by (simp add: io_panic_def)

lemma io_lift_run [simp, io_simps]:
  "io_lift (Ok x) = io_return x" "io_lift (Err e) = io_fail e"
  by (simp_all add: io_lift_def)

lemma io_ensure_run [simp, io_simps]:
  "io_ensure True e = io_return ()" "io_ensure False e = io_fail e"
  by (simp_all add: io_ensure_def)

lemma with_world_run [simp, io_simps]: "with_world f w = f w w"
  by (simp add: with_world_def)

lemma io_bind_Done: "m w = (Done x, w1) \<Longrightarrow> io_bind m f w = f x w1"
  by (simp add: io_bind_def)

lemma io_bind_Failed: "m w = (Failed e, w1) \<Longrightarrow> io_bind m f w = (Failed e, w1)"
  by (simp add: io_bind_def)

lemma io_bind_Crashed: "m w = (Crashed, w1) \<Longrightarrow> io_bind m f w = (Crashed, w1)"
  by (simp add: io_bind_def)

lemma io_bind_return [simp]: "io_bind (io_return x) f = f x"
  by (simp add: io_bind_def fun_eq_iff)

lemma io_bind_fail [simp]: "io_bind (io_fail e) f = io_fail e"
  by (simp add: io_bind_def fun_eq_iff)

lemma io_bind_DoneE:
  assumes "io_bind m f w = (Done y, w')"
  obtains x w1 where "m w = (Done x, w1)" "f x w1 = (Done y, w')"
  using assms by (auto simp: io_bind_def split: prod.splits run.splits)

lemma io_bind_cases:
  assumes "io_bind m f w = (r, w')"
  obtains
    (Done) x w1 where "m w = (Done x, w1)" "f x w1 = (r, w')"
  | (Failed) e where "m w = (Failed e, w')" "r = Failed e"
  | (Crashed) "m w = (Crashed, w')" "r = Crashed"
  using assms by (auto simp: io_bind_def split: prod.splits run.splits)

lemma io_match_cases:
  assumes "io_match m f h w = (r, w')"
  obtains
    (Done) x w1 where "m w = (Done x, w1)" "f x w1 = (r, w')"
  | (Failed) e w1 where "m w = (Failed e, w1)" "h e w1 = (r, w')"
  | (Crashed) "m w = (Crashed, w')" "r = Crashed"
  using assms by (auto simp: io_match_def split: prod.splits run.splits)

lemma io_map_err_run:
  "io_map_err g m w =
     (case m w of (Done x, w1) \<Rightarrow> (Done x, w1) | (Failed e, w1) \<Rightarrow> (Failed (g e), w1)
      | (Crashed, w1) \<Rightarrow> (Crashed, w1))"
  by (simp add: io_map_err_def io_match_def split: prod.splits run.splits)

lemma io_map_err_Done [simp]: "io_map_err g m w = (Done x, w') \<longleftrightarrow> m w = (Done x, w')"
  by (auto simp: io_map_err_run split: prod.splits run.splits)

lemma io_map_err_Crashed [simp]: "io_map_err g m w = (Crashed, w') \<longleftrightarrow> m w = (Crashed, w')"
  by (auto simp: io_map_err_run split: prod.splits run.splits)

lemma io_map_err_Failed:
  "io_map_err g m w = (Failed e, w') \<longleftrightarrow> (\<exists>e0. m w = (Failed e0, w') \<and> e = g e0)"
  by (auto simp: io_map_err_run split: prod.splits run.splits)

section \<open>File system operations\<close>

definition io_err :: "io_kind \<Rightarrow> io_error" where
  "io_err k = \<lparr>kind = k, io_text = []\<rparr>"

definition next_fault :: "world \<Rightarrow> fault" where
  "next_fault w = (case faults w of [] \<Rightarrow> Fine | f # _ \<Rightarrow> f)"

definition spend_fault :: "world \<Rightarrow> world" where
  "spend_fault w = w\<lparr>faults := tl (faults w)\<rparr>"

text \<open>An operation with the given effect, subject to the script.\<close>

definition fs_op :: "(io_error, 'a) prog \<Rightarrow> (io_error, 'a) prog" where
  "fs_op effect w =
     (case next_fault w of
        Fine \<Rightarrow> effect (spend_fault w)
      | Faulty \<Rightarrow> (Failed (io_err KOther), spend_fault w)
      | Torn _ \<Rightarrow> (Failed (io_err KOther), spend_fault w)
      | Dies \<Rightarrow> (Crashed, spend_fault w)
      | Dies_torn _ \<Rightarrow> (Crashed, spend_fault w))"

definition put_file :: "path \<Rightarrow> bytes option \<Rightarrow> world \<Rightarrow> world" where
  "put_file p b w = w\<lparr>files := (files w)(p := b)\<rparr>"

definition fs_read :: "path \<Rightarrow> (io_error, bytes) prog" where
  "fs_read p = fs_op (\<lambda>w.
     (case files w p of
        None \<Rightarrow> (Failed (io_err KNotFound), w)
      | Some b \<Rightarrow> (Done b, w)))"

text \<open>\<^verbatim>\<open>File::open\<close> for reading.\<close>

definition fs_open :: "path \<Rightarrow> (io_error, unit) prog" where
  "fs_open p = fs_op (\<lambda>w.
     (case files w p of
        None \<Rightarrow> (Failed (io_err KNotFound), w)
      | Some _ \<Rightarrow> (Done (), w)))"

definition fs_metadata_len :: "path \<Rightarrow> (io_error, nat) prog" where
  "fs_metadata_len p = fs_op (\<lambda>w.
     (case files w p of
        None \<Rightarrow> (Failed (io_err KNotFound), w)
      | Some b \<Rightarrow> (Done (length b), w)))"

text \<open>\<^verbatim>\<open>Path::exists\<close>.\<close>

definition fs_exists :: "path \<Rightarrow> ('e, bool) prog" where
  "fs_exists p w = (Done (files w p \<noteq> None \<or> p \<in> dirs w), w)"

definition fs_create_dir_all :: "path \<Rightarrow> (io_error, unit) prog" where
  "fs_create_dir_all p = fs_op (\<lambda>w. (Done (), w\<lparr>dirs := dirs w \<union> set (map (\<lambda>n. take n p) [0..<Suc (length p)])\<rparr>))"

text \<open>\<^verbatim>\<open>OpenOptions::new().write(true).create_new(true).open\<close>.\<close>

definition fs_create_new :: "path \<Rightarrow> (io_error, unit) prog" where
  "fs_create_new p = fs_op (\<lambda>w.
     (case files w p of
        None \<Rightarrow> (Done (), put_file p (Some []) w)
      | Some _ \<Rightarrow> (Failed (io_err KAlreadyExists), w)))"

text \<open>\<^verbatim>\<open>write_all\<close> may leave any prefix behind when it fails or the process dies.\<close>

definition fs_write_all :: "path \<Rightarrow> bytes \<Rightarrow> (io_error, unit) prog" where
  "fs_write_all p b w =
     (let w1 = spend_fault w
      in case next_fault w of
           Fine \<Rightarrow> (Done (), put_file p (Some b) w1)
         | Faulty \<Rightarrow> (Failed (io_err KOther), w1)
         | Torn n \<Rightarrow> (Failed (io_err KOther), put_file p (Some (take n b)) w1)
         | Dies \<Rightarrow> (Crashed, w1)
         | Dies_torn n \<Rightarrow> (Crashed, put_file p (Some (take n b)) w1))"

definition fs_sync_all :: "path \<Rightarrow> (io_error, unit) prog" where
  "fs_sync_all p = fs_op (io_return ())"

definition fs_remove_file :: "path \<Rightarrow> (io_error, unit) prog" where
  "fs_remove_file p = fs_op (\<lambda>w.
     (case files w p of
        None \<Rightarrow> (Failed (io_err KNotFound), w)
      | Some _ \<Rightarrow> (Done (), put_file p None w)))"

definition fs_rename :: "path \<Rightarrow> path \<Rightarrow> (io_error, unit) prog" where
  "fs_rename p q = fs_op (\<lambda>w.
     (case files w p of
        None \<Rightarrow> (Failed (io_err KNotFound), w)
      | Some b \<Rightarrow> (Done (), put_file p None (put_file q (Some b) w))))"

text \<open>Opening a lock file for writing, creating it, and trying to take its advisory lock.\<close>

definition fs_open_lock :: "path \<Rightarrow> (io_error, unit) prog" where
  "fs_open_lock p = fs_op (\<lambda>w. (Done (), put_file p (Some (case files w p of None \<Rightarrow> [] | Some b \<Rightarrow> b)) w))"

definition fs_try_lock :: "path \<Rightarrow> ('e, bool) prog" where
  "fs_try_lock p w = (Done (p \<notin> locked w), w)"

text \<open>\<^verbatim>\<open>SystemTime::now().duration_since(UNIX_EPOCH)\<close> fails for a clock before the epoch.\<close>

definition now_secs :: "('e, u64 option) prog" where
  "now_secs w = (Done (clock_secs w), w)"

text \<open>\<^verbatim>\<open>getrandom::fill\<close> of an \<open>n\<close>-byte buffer.\<close>

definition random_bytes :: "nat \<Rightarrow> ('e, char list option) prog" where
  "random_bytes n w =
     (if n \<le> length (entropy w)
      then (Done (Some (take n (entropy w))), w\<lparr>entropy := drop n (entropy w)\<rparr>)
      else (Done None, w))"

section \<open>Frames\<close>

text \<open>A world without pending faults behaves like a plain file map.\<close>

definition calm :: "world \<Rightarrow> bool" where
  "calm w = (\<forall>f \<in> set (faults w). f = Fine)"

definition settle :: "world \<Rightarrow> world" where
  "settle w = w\<lparr>faults := []\<rparr>"

lemma settle_calm [simp]: "calm (settle w)"
  by (simp add: calm_def settle_def)

lemma settle_files [simp]: "files (settle w) = files w" "dirs (settle w) = dirs w"
    "locked (settle w) = locked w"
  by (simp_all add: settle_def)

lemma spend_fault_fields [simp]:
  "files (spend_fault w) = files w" "dirs (spend_fault w) = dirs w" "locked (spend_fault w) = locked w"
  "clock_secs (spend_fault w) = clock_secs w" "clock_nanos (spend_fault w) = clock_nanos w"
  "entropy (spend_fault w) = entropy w"
  by (simp_all add: spend_fault_def)

lemma put_file_fields [simp]:
  "files (put_file p b w) = (files w)(p := b)" "dirs (put_file p b w) = dirs w"
  "locked (put_file p b w) = locked w" "clock_secs (put_file p b w) = clock_secs w"
  "clock_nanos (put_file p b w) = clock_nanos w" "entropy (put_file p b w) = entropy w"
  "faults (put_file p b w) = faults w"
  by (simp_all add: put_file_def)

lemma calm_spend [simp]: "calm w \<Longrightarrow> calm (spend_fault w)"
  by (cases "faults w") (auto simp: calm_def spend_fault_def)

lemma calm_put [simp]: "calm (put_file p b w) = calm w"
  by (simp add: calm_def)

lemma calm_next [simp]: "calm w \<Longrightarrow> next_fault w = Fine"
  by (auto simp: calm_def next_fault_def split: list.splits)

text \<open>What an operation on the file system leaves alone: the clock, the random source, the locks of
  others, and every file outside a set.\<close>

definition keeps :: "path set \<Rightarrow> world \<Rightarrow> world \<Rightarrow> bool" where
  "keeps S w w' =
     ((\<forall>p. p \<notin> S \<longrightarrow> files w' p = files w p) \<and> locked w' = locked w
      \<and> clock_secs w' = clock_secs w \<and> clock_nanos w' = clock_nanos w \<and> entropy w' = entropy w)"

lemma keeps_refl [simp, intro]: "keeps S w w"
  by (simp add: keeps_def)

lemma keeps_trans: "keeps S w w1 \<Longrightarrow> keeps S w1 w2 \<Longrightarrow> keeps S w w2"
  by (simp add: keeps_def)

lemma keeps_mono: "keeps S w w' \<Longrightarrow> S \<subseteq> T \<Longrightarrow> keeps T w w'"
  unfolding keeps_def by blast

lemma keeps_file: "keeps S w w' \<Longrightarrow> p \<notin> S \<Longrightarrow> files w' p = files w p"
  by (simp add: keeps_def)

lemma keeps_spend [simp, intro]: "keeps S w (spend_fault w)"
  by (simp add: keeps_def)

lemma keeps_put: "p \<in> S \<Longrightarrow> keeps S w (put_file p b w)"
  by (auto simp: keeps_def)

lemma keeps_put_spend [intro]: "p \<in> S \<Longrightarrow> keeps S w (put_file p b (spend_fault w))"
  by (auto simp: keeps_def)

lemma fs_read_run:
  assumes "fs_read p w = (r, w')"
  shows "w' = spend_fault w"
    and "r = Done b \<Longrightarrow> files w p = Some b"
    and "r = Failed e \<Longrightarrow> kind e = KNotFound \<Longrightarrow> files w p = None"
  using assms by (auto simp: fs_read_def fs_op_def io_err_def split: fault.splits option.splits)

lemma fs_read_calm:
  "calm w \<Longrightarrow> fs_read p w =
     (case files w p of None \<Rightarrow> (Failed (io_err KNotFound), spend_fault w) | Some b \<Rightarrow> (Done b, spend_fault w))"
  by (simp add: fs_read_def fs_op_def split: option.splits)

lemma fs_metadata_len_calm:
  "calm w \<Longrightarrow> fs_metadata_len p w =
     (case files w p of None \<Rightarrow> (Failed (io_err KNotFound), spend_fault w)
      | Some b \<Rightarrow> (Done (length b), spend_fault w))"
  by (simp add: fs_metadata_len_def fs_op_def split: option.splits)

lemma fs_metadata_len_run:
  assumes "fs_metadata_len p w = (r, w')"
  shows "w' = spend_fault w" and "r = Done n \<Longrightarrow> \<exists>b. files w p = Some b \<and> n = length b"
  using assms by (auto simp: fs_metadata_len_def fs_op_def split: fault.splits option.splits)

lemma fs_create_dir_all_keeps: "fs_create_dir_all p w = (r, w') \<Longrightarrow> keeps S w w'"
  by (auto simp: fs_create_dir_all_def fs_op_def keeps_def split: fault.splits)

lemma fs_open_lock_keeps: "fs_open_lock p w = (r, w') \<Longrightarrow> p \<in> S \<Longrightarrow> keeps S w w'"
  by (auto simp: fs_open_lock_def fs_op_def keeps_def split: fault.splits)

lemma fs_create_new_run:
  assumes "fs_create_new p w = (r, w')"
  shows "keeps {p} w w'"
    and "r = Done u \<Longrightarrow> files w p = None \<and> w' = put_file p (Some []) (spend_fault w)"
    and "\<forall>u. r \<noteq> Done u \<Longrightarrow> w' = spend_fault w"
  using assms by (auto simp: fs_create_new_def fs_op_def keeps_def split: fault.splits option.splits)

lemma fs_write_all_run:
  assumes "fs_write_all p b w = (r, w')"
  shows "keeps {p} w w'" and "r = Done u \<Longrightarrow> w' = put_file p (Some b) (spend_fault w)"
  using assms by (auto simp: fs_write_all_def keeps_def Let_def split: fault.splits)

lemma fs_sync_all_run: "fs_sync_all p w = (r, w') \<Longrightarrow> w' = spend_fault w"
  by (auto simp: fs_sync_all_def fs_op_def split: fault.splits)

lemma fs_remove_file_run:
  assumes "fs_remove_file p w = (r, w')"
  shows "w' = (if r = Done () then put_file p None (spend_fault w) else spend_fault w)"
  using assms by (auto simp: fs_remove_file_def fs_op_def split: fault.splits option.splits)

lemma fs_rename_run:
  assumes "fs_rename p q w = (r, w')"
  shows "w' = (if r = Done () then put_file p None (put_file q (files w p) (spend_fault w)) else spend_fault w)"
  using assms by (auto simp: fs_rename_def fs_op_def split: fault.splits option.splits)

end
