(* ===== verification/App_Model.thy ===== *)
theory App_Model
  imports Paths
begin

text \<open>
  The data model of \<^verbatim>\<open>src/model.rs\<close>: installed apps, their identifiers and the choice of a free
  identifier.
\<close>

section \<open>Data\<close>

datatype runtime_spec =
    External
  | Compose (project_name: string) (project_dir: path) (compose_file: path)

record installed_app =
  app_id :: string
  catalog_id :: "string option"
  display_name :: string
  launch_url :: string
  icon_path :: "path option"
  runtime :: runtime_spec
  created_at_unix :: u64
  updated_at_unix :: u64

definition is_managed :: "installed_app \<Rightarrow> bool" where
  "is_managed app = (case runtime app of Compose _ _ _ \<Rightarrow> True | External \<Rightarrow> False)"

record app_def =
  def_name :: string
  def_url :: string
  def_icon :: "string option"
  def_compose :: "string option"
  def_health :: "string option"

section \<open>Identifiers\<close>

fun has_double_hyphen :: "string \<Rightarrow> bool" where
  "has_double_hyphen (a # b # s) = ((a = CHR ''-'' \<and> b = CHR ''-'') \<or> has_double_hyphen (b # s))"
| "has_double_hyphen _ = False"

definition is_id_byte :: "char \<Rightarrow> bool" where
  "is_id_byte c = (is_lower c \<or> is_digit c \<or> c = CHR ''-'')"

definition is_valid_installed_app_id :: "string \<Rightarrow> bool" where
  "is_valid_installed_app_id s =
     (case s of
        [] \<Rightarrow> False
      | first # rest \<Rightarrow>
          (let lst = (if rest = [] then first else last rest)
           in if \<not> is_alnum first \<or> \<not> is_alnum lst then False
              else \<not> has_double_hyphen s \<and> list_all is_id_byte s))"

text \<open>
  The search \<open>base\<close>, \<open>base-2\<close>, \<open>base-3\<close>, ... over the range of a 64-bit suffix. Running out of
  suffixes is the code's \<^verbatim>\<open>unreachable!\<close>, a panic.
\<close>

datatype 'a outcome = Returns 'a | Panics

function try_suffixes :: "string \<Rightarrow> (string \<Rightarrow> bool) \<Rightarrow> nat \<Rightarrow> string option outcome" where
  "try_suffixes base is_available suffix =
     (if 2 ^ 64 \<le> suffix then Panics
      else (let candidate = base @ ''-'' @ show_nat suffix
            in if is_available candidate then Returns (Some candidate)
               else try_suffixes base is_available (Suc suffix)))"
  by pat_completeness auto
termination
  by (relation "measure (\<lambda>(base, is_available, suffix). 2 ^ 64 - suffix)") auto

declare try_suffixes.simps [simp del]

definition next_available_installed_app_id ::
  "string \<Rightarrow> (string \<Rightarrow> bool) \<Rightarrow> string option outcome" where
  "next_available_installed_app_id base is_available =
     (if \<not> is_valid_installed_app_id base then Returns None
      else if is_available base then Returns (Some base)
      else try_suffixes base is_available 2)"

section \<open>Lemmas\<close>

lemma has_double_hyphen_append:
  "has_double_hyphen (a @ b) \<longleftrightarrow>
     has_double_hyphen a \<or> has_double_hyphen b
     \<or> (a \<noteq> [] \<and> b \<noteq> [] \<and> last a = CHR ''-'' \<and> hd b = CHR ''-'')"
proof (induction a)
  case (Cons x a)
  then show ?case by (cases a; cases b) auto
qed auto

lemma has_double_hyphen_digits: "list_all is_digit s \<Longrightarrow> \<not> has_double_hyphen s"
  by (induction s rule: has_double_hyphen.induct) (auto simp: is_digit_def)

lemma is_valid_id_iff:
  "is_valid_installed_app_id s \<longleftrightarrow>
     s \<noteq> [] \<and> is_alnum (hd s) \<and> is_alnum (last s) \<and> \<not> has_double_hyphen s \<and> list_all is_id_byte s"
  by (cases s) (auto simp: is_valid_installed_app_id_def Let_def)

lemma not_alnum_hyphen [simp]: "\<not> is_alnum (CHR ''-'')"
  by (simp add: char_class_defs)

lemma digit_alnum: "is_digit c \<Longrightarrow> is_alnum c"
  by (simp add: is_alnum_def)

lemma digit_id_byte: "is_digit c \<Longrightarrow> is_id_byte c"
  by (simp add: is_id_byte_def)

lemma list_all_digit_id: "list_all is_digit s \<Longrightarrow> list_all is_id_byte s"
  by (auto simp: list_all_iff digit_id_byte)

lemma suffixed_id_valid:
  assumes "is_valid_installed_app_id base"
  shows "is_valid_installed_app_id (base @ ''-'' @ show_nat n)"
proof -
  have d: "list_all is_digit (show_nat n)" by (rule show_nat_digits)
  then have ends: "is_digit (last (show_nat n))" "is_digit (hd (show_nat n))"
    by (simp_all add: list_all_iff)
  have "hd (show_nat n) \<noteq> CHR ''-''" using ends by (auto simp: is_digit_def)
  then have nodbl: "\<not> has_double_hyphen (''-'' @ show_nat n)"
    using has_double_hyphen_digits [OF d] by (simp only: has_double_hyphen_append) simp
  have base: "base \<noteq> []" "is_alnum (hd base)" "last base \<noteq> CHR ''-''"
      "\<not> has_double_hyphen base" "list_all is_id_byte base"
    using assms by (auto simp: is_valid_id_iff)
  have "\<not> has_double_hyphen (base @ ''-'' @ show_nat n)"
    using base nodbl by (subst has_double_hyphen_append) simp
  moreover have "list_all is_id_byte (base @ ''-'' @ show_nat n)"
    using base list_all_digit_id [OF d] by (simp add: is_id_byte_def)
  ultimately show ?thesis
    using base ends by (simp add: is_valid_id_iff digit_alnum)
qed

lemma try_suffixes_valid:
  "is_valid_installed_app_id base \<Longrightarrow> try_suffixes base av n = Returns (Some i) \<Longrightarrow>
   is_valid_installed_app_id i \<and> av i"
proof (induction base av n rule: try_suffixes.induct)
  case (1 base av n)
  show ?case
    using 1 suffixed_id_valid [OF 1(2), of n]
    by (subst (asm) (2) try_suffixes.simps) (auto simp: Let_def split: if_splits)
qed

lemma try_suffixes_least:
  assumes "n \<le> k" "k < 2 ^ 64" "av (base @ ''-'' @ show_nat k)"
    and "\<forall>j. n \<le> j \<and> j < k \<longrightarrow> \<not> av (base @ ''-'' @ show_nat j)"
  shows "try_suffixes base av n = Returns (Some (base @ ''-'' @ show_nat k))"
  using assms
proof (induction "k - n" arbitrary: n)
  case 0
  then show ?case by (subst try_suffixes.simps) (simp add: Let_def)
next
  case (Suc d)
  then have "\<not> av (base @ ''-'' @ show_nat n)" "n < 2 ^ 64" by auto
  moreover have "try_suffixes base av (Suc n) = Returns (Some (base @ ''-'' @ show_nat k))"
    using Suc.hyps Suc.prems by auto
  ultimately show ?case by (subst try_suffixes.simps) (simp add: Let_def)
qed

lemma suffix_inj: "base @ ''-'' @ show_nat m = base @ ''-'' @ show_nat n \<longleftrightarrow> m = n"
  by (simp add: show_nat_inj)

text \<open>With finitely many names taken, one of the first suffixes is free.\<close>

lemma free_suffix_exists:
  assumes "finite used"
  shows "\<exists>k. 2 \<le> k \<and> k \<le> 2 + card used \<and> base @ ''-'' @ show_nat k \<notin> used"
proof (rule ccontr)
  assume "\<not> ?thesis"
  then have sub: "(\<lambda>k. base @ ''-'' @ show_nat k) ` {2..2 + card used} \<subseteq> used" by force
  have "card ((\<lambda>k. base @ ''-'' @ show_nat k) ` {2..2 + card used}) = Suc (card used)"
    by (subst card_image) (auto intro!: inj_onI simp: show_nat_inj)
  with card_mono [OF assms sub] show False by simp
qed

lemma next_available_finite:
  assumes "is_valid_installed_app_id base" "finite used" "card used < 2 ^ 63"
  shows "\<exists>i. next_available_installed_app_id base (\<lambda>c. c \<notin> used) = Returns (Some i)
             \<and> i \<notin> used \<and> is_valid_installed_app_id i"
proof (cases "base \<notin> used")
  case True
  with assms(1) show ?thesis by (simp add: next_available_installed_app_id_def)
next
  case False
  define P where "P k = (2 \<le> k \<and> base @ ''-'' @ show_nat k \<notin> used)" for k :: nat
  obtain k0 where k0: "P k0" "k0 \<le> 2 + card used"
    using free_suffix_exists [OF assms(2), of base] by (auto simp: P_def)
  define k where "k = (LEAST k. P k)"
  have k: "P k" "k \<le> k0" "\<And>j. j < k \<Longrightarrow> \<not> P j"
    using k0(1) unfolding k_def by (auto intro: LeastI Least_le dest: not_less_Least)
  have "try_suffixes base (\<lambda>c. c \<notin> used) 2 = Returns (Some (base @ ''-'' @ show_nat k))"
    using k k0(2) assms(3) by (intro try_suffixes_least) (auto simp: P_def)
  moreover from this have "is_valid_installed_app_id (base @ ''-'' @ show_nat k)
      \<and> base @ ''-'' @ show_nat k \<notin> used"
    using try_suffixes_valid [OF assms(1)] by blast
  ultimately show ?thesis
    using False assms(1) by (auto simp: next_available_installed_app_id_def)
qed

lemma next_available_valid:
  "next_available_installed_app_id base av = Returns (Some i) \<Longrightarrow>
   is_valid_installed_app_id i \<and> av i"
  by (auto simp: next_available_installed_app_id_def dest: try_suffixes_valid split: if_splits)

end
