(* ===== verification/Storage.thy ===== *)
theory Storage
  imports World App_Model
begin

text \<open>
  The registry of installed apps, \<^verbatim>\<open>src/storage.rs\<close>: atomic file replacement, loading with recovery,
  the one-time import of the previous format, and the registry mutations. JSON is a parameter of
  the functions that use it.
\<close>

section \<open>Atomic replacement\<close>

text \<open>The candidate \<^verbatim>\<open>.<name>-<nonce>-<attempt>.tmp\<close> beside the target.\<close>

definition temp_path :: "path \<Rightarrow> string \<Rightarrow> nat \<Rightarrow> nat \<Rightarrow> path" where
  "temp_path parent name nonce attempt =
     path_join parent (''.'' @ name @ ''-'' @ show_nat nonce @ ''-'' @ show_nat attempt @ ''.tmp'')"

fun allocate_temp :: "path \<Rightarrow> string \<Rightarrow> nat \<Rightarrow> nat \<Rightarrow> nat \<Rightarrow> (storage_error, path option) prog" where
  "allocate_temp parent name nonce attempt 0 = io_return None"
| "allocate_temp parent name nonce attempt (Suc left) =
     (let candidate = temp_path parent name nonce attempt
      in io_match (fs_create_new candidate)
           (\<lambda>_. io_return (Some candidate))
           (\<lambda>e. if kind e = KAlreadyExists then allocate_temp parent name nonce (Suc attempt) left
                else io_fail (SIo e)))"

definition replace_target :: "path \<Rightarrow> path \<Rightarrow> bytes \<Rightarrow> (io_error, unit) prog" where
  "replace_target temp p b =
     io_bind (fs_write_all temp b) (\<lambda>_.
     io_bind (fs_sync_all temp) (\<lambda>_.
     io_bind (fs_exists p) (\<lambda>there.
     io_bind (if there then fs_remove_file p else io_return ()) (\<lambda>_.
       fs_rename temp p))))"

definition atomic_write :: "path \<Rightarrow> bytes \<Rightarrow> (storage_error, unit) prog" where
  "atomic_write p b =
     (case path_parent p of
        None \<Rightarrow> io_fail (SMigrationRefused NoParentDirectory)
      | Some parent \<Rightarrow>
          io_bind (io_map_err SIo (fs_create_dir_all parent)) (\<lambda>_.
          with_world (\<lambda>w.
            (case clock_secs w of
               None \<Rightarrow> io_fail (SMigrationRefused ClockBeforeEpoch)
             | Some _ \<Rightarrow>
                 (case path_file_name p of
                    None \<Rightarrow> io_panic
                  | Some name \<Rightarrow>
                      io_bind (allocate_temp parent name (clock_nanos w) 0 100) (\<lambda>t.
                        (case t of
                           None \<Rightarrow> io_fail (SMigrationRefused NoTemporaryName)
                         | Some temp \<Rightarrow>
                             io_match (replace_target temp p b) io_return
                               (\<lambda>e. io_bind (io_ignore (fs_remove_file temp)) (\<lambda>_. io_fail (SIo e))))))))))"

definition write_file_atomically :: "path \<Rightarrow> bytes \<Rightarrow> (storage_error, unit) prog" where
  "write_file_atomically p b = atomic_write p b"

definition atomic_replace_with_previous :: "path \<Rightarrow> bytes \<Rightarrow> (storage_error, unit) prog" where
  "atomic_replace_with_previous p b =
     io_bind (fs_exists p) (\<lambda>there.
     io_bind
       (if there then
          io_bind (io_map_err SIo (fs_read p)) (\<lambda>previous.
            atomic_write (with_extension ''previous.json'' p) previous)
        else io_return ()) (\<lambda>_.
     atomic_write p b))"

section \<open>Where things live\<close>

definition CONFIG_SLUG :: string where
  "CONFIG_SLUG = ''local-store''"

definition LEGACY_CONFIG_SLUG :: string where
  "LEGACY_CONFIG_SLUG = ''dockwrap''"

definition registry_v2_path_for_root :: "path \<Rightarrow> path" where
  "registry_v2_path_for_root root = path_join (path_join root CONFIG_SLUG) ''registry-v2.json''"

definition registry_v2_previous_path_for_root :: "path \<Rightarrow> path" where
  "registry_v2_previous_path_for_root root =
     path_join (path_join root CONFIG_SLUG) ''registry-v2.previous.json''"

definition migration_v1_backup_path_for_root :: "path \<Rightarrow> path" where
  "migration_v1_backup_path_for_root root =
     path_join (path_join root CONFIG_SLUG) ''migration-v1-backup.json''"

definition primary_v1_path_for_root :: "path \<Rightarrow> path" where
  "primary_v1_path_for_root root = path_join (path_join root CONFIG_SLUG) ''apps.json''"

definition legacy_v1_path_for_root :: "path \<Rightarrow> path" where
  "legacy_v1_path_for_root root = path_join (path_join root LEGACY_CONFIG_SLUG) ''apps.json''"

definition registry_lock_path_for_root :: "path \<Rightarrow> path" where
  "registry_lock_path_for_root root = path_join (path_join root CONFIG_SLUG) ''registry.lock''"

section \<open>The registry\<close>

record registry_v2 =
  version :: u32
  apps :: "installed_app list"

definition VERSION :: u32 where
  "VERSION = 2"

definition registry_new :: "installed_app list \<Rightarrow> registry_v2" where
  "registry_new as = \<lparr>version = VERSION, apps = as\<rparr>"

definition validate_app :: "installed_app \<Rightarrow> storage_error check" where
  "validate_app app =
     (if trim (display_name app) = [] \<or> trim (launch_url app) = []
      then Err (SMigrationRefused EmptyEssentialField)
      else if updated_at_unix app < created_at_unix app
      then Err (SMigrationRefused UpdatedBeforeCreated)
      else (case runtime app of
              Compose name dir file \<Rightarrow>
                if \<not> is_valid_installed_app_id name \<or> has_parent_dir dir \<or> has_parent_dir file
                   \<or> \<not> path_starts_with file dir
                then Err (SMigrationRefused InvalidComposePaths)
                else Ok ()
            | External \<Rightarrow> Ok ()))"

fun validate_apps :: "string set \<Rightarrow> installed_app list \<Rightarrow> storage_error check" where
  "validate_apps ids [] = Ok ()"
| "validate_apps ids (app # rest) =
     (if \<not> is_valid_installed_app_id (app_id app) \<or> app_id app \<in> ids
      then Err (SMigrationRefused (InvalidAppId (app_id app)))
      else and_then (validate_app app) (\<lambda>_. validate_apps (insert (app_id app) ids) rest))"

definition validate_registry :: "registry_v2 \<Rightarrow> storage_error check" where
  "validate_registry r =
     (if version r \<noteq> VERSION then Err (SInvalidRegistryVersion (version r))
      else validate_apps {} (apps r))"

definition load_registry_v2_at :: "registry_v2 codec \<Rightarrow> path \<Rightarrow> (storage_error, registry_v2) prog" where
  "load_registry_v2_at json root =
     io_bind
       (io_match (fs_read (registry_v2_path_for_root root)) io_return
          (\<lambda>e. if kind e = KNotFound
               then io_map_err (\<lambda>pe. SMigrationRefused (NoRecoveryFile pe))
                      (fs_read (registry_v2_previous_path_for_root root))
               else io_fail (SIo e)))
       (\<lambda>data. io_lift
          (and_then (ok_or (decode json data) SJson)
             (\<lambda>r. and_then (validate_registry r) (\<lambda>_. Ok r))))"

definition save_registry_v2_at ::
  "registry_v2 codec \<Rightarrow> path \<Rightarrow> registry_v2 \<Rightarrow> (storage_error, unit) prog" where
  "save_registry_v2_at json root r =
     (if version r \<noteq> VERSION then io_fail (SInvalidRegistryVersion (version r))
      else (case encode json r of
              None \<Rightarrow> io_fail SJson
            | Some b \<Rightarrow> atomic_replace_with_previous (registry_v2_path_for_root root) b))"

section \<open>Import of the previous format\<close>

definition ascii_slug_step :: "char \<Rightarrow> string \<times> bool \<Rightarrow> string \<times> bool" where
  "ascii_slug_step b st =
     (let slug = fst st; pending = snd st
      in if is_alnum b then
           ((if pending \<and> slug \<noteq> [] then slug @ ''-'' else slug) @ [to_lower b], False)
         else if slug \<noteq> [] then (slug, True)
         else (slug, pending))"

definition ascii_slug :: "string \<Rightarrow> string" where
  "ascii_slug name =
     (let slug = fst (fold ascii_slug_step name ([], False))
      in if slug = [] then ''app'' else slug)"

definition compose_runtime :: "string \<Rightarrow> string \<Rightarrow> (storage_error, runtime_spec) result" where
  "compose_runtime value project =
     (if newline \<in> set value \<or> CHR 0x0D \<in> set value \<or> contains ''services:'' value
         \<or> contains ''version:'' value \<or> contains '': '' value
         \<or> starts_with ''---'' (trim_start value)
      then Err (SInvalidComposeValue value)
      else (let file = parse_path value
            in case path_parent file of
                 None \<Rightarrow> Err (SInvalidComposeValue value)
               | Some dir \<Rightarrow>
                   if dir = [] then Err (SInvalidComposeValue value)
                   else Ok (Compose project dir file)))"

text \<open>The \<^verbatim>\<open>expect\<close> on the identifier is a panic, kept as the refusal \<open>SlugNotAnId\<close>.\<close>

definition convert_legacy_app ::
  "string set \<Rightarrow> app_def \<Rightarrow> u64 \<Rightarrow> (storage_error, installed_app) result" where
  "convert_legacy_app used app timestamp =
     (case next_available_installed_app_id (ascii_slug (def_name app)) (\<lambda>c. c \<notin> used) of
        Returns (Some i) \<Rightarrow>
          and_then
            (case def_compose app of
               None \<Rightarrow> Ok External
             | Some v \<Rightarrow> if trim v = [] then Ok External else compose_runtime v i)
            (\<lambda>rt. Ok \<lparr>app_id = i, catalog_id = None, display_name = def_name app,
                      launch_url = def_url app, icon_path = map_option parse_path (def_icon app),
                      runtime = rt, created_at_unix = timestamp, updated_at_unix = timestamp\<rparr>)
      | _ \<Rightarrow> Err (SMigrationRefused SlugNotAnId))"

fun convert_from :: "string set \<Rightarrow> app_def list \<Rightarrow> u64 \<Rightarrow> (storage_error, installed_app list) result" where
  "convert_from used [] timestamp = Ok []"
| "convert_from used (app # rest) timestamp =
     and_then (convert_legacy_app used app timestamp) (\<lambda>a.
     and_then (convert_from (insert (app_id a) used) rest timestamp) (\<lambda>as. Ok (a # as)))"

definition convert_legacy_apps :: "app_def list \<Rightarrow> u64 \<Rightarrow> (storage_error, installed_app list) result" where
  "convert_legacy_apps legacy timestamp = convert_from {} legacy timestamp"

text \<open>\<^verbatim>\<open>fs::metadata(p).is_ok()\<close>.\<close>

definition metadata_ok :: "path \<Rightarrow> ('e, bool) prog" where
  "metadata_ok p = io_match (fs_metadata_len p) (\<lambda>_. io_return True) (\<lambda>_. io_return False)"

text \<open>The first of several files that exists; only a missing file lets the next one be tried.\<close>

fun read_first :: "path list \<Rightarrow> (storage_error, bytes) prog" where
  "read_first [] = io_fail (SIo (io_err KNotFound))"
| "read_first (p # ps) =
     io_match (fs_read p) io_return
       (\<lambda>e. if kind e = KNotFound \<and> ps \<noteq> [] then read_first ps else io_fail (SIo e))"

definition migrate_v1_registry_at ::
  "registry_v2 codec \<Rightarrow> app_def list codec \<Rightarrow> path \<Rightarrow> u64 \<Rightarrow> (storage_error, unit) prog" where
  "migrate_v1_registry_at json json1 root timestamp =
     io_bind (metadata_ok (registry_v2_path_for_root root)) (\<lambda>there.
     if there then io_fail (SMigrationRefused V2Exists)
     else
       (let backup = migration_v1_backup_path_for_root root
        in io_bind (read_first [backup, primary_v1_path_for_root root, legacy_v1_path_for_root root])
             (\<lambda>source.
           io_bind (io_lift (ok_or (decode json1 source) SJson)) (\<lambda>legacy.
           io_bind (io_lift (convert_legacy_apps legacy timestamp)) (\<lambda>as.
           io_bind (fs_exists backup) (\<lambda>kept.
           io_bind (if kept then io_return () else atomic_write backup source) (\<lambda>_.
             save_registry_v2_at json root (registry_new as))))))))"

definition load_or_migrate_registry_at ::
  "registry_v2 codec \<Rightarrow> app_def list codec \<Rightarrow> path \<Rightarrow> (storage_error, registry_v2) prog" where
  "load_or_migrate_registry_at json json1 root =
     io_bind (fs_exists (registry_v2_path_for_root root)) (\<lambda>live.
     io_bind (fs_exists (registry_v2_previous_path_for_root root)) (\<lambda>prev.
     if live \<or> prev then load_registry_v2_at json root
     else
       io_bind (fs_exists (primary_v1_path_for_root root)) (\<lambda>v1.
       io_bind (fs_exists (legacy_v1_path_for_root root)) (\<lambda>old.
       if v1 \<or> old then
         io_bind now_secs (\<lambda>t.
           (case t of
              None \<Rightarrow> io_fail (SMigrationRefused ClockBeforeEpoch)
            | Some now \<Rightarrow>
                io_bind (migrate_v1_registry_at json json1 root now) (\<lambda>_.
                  load_registry_v2_at json root)))
       else io_return (registry_new [])))))"

section \<open>Mutations\<close>

text \<open>
  \<^verbatim>\<open>lock_registry_at\<close> polls the sidecar lock until its deadline. With the lock state of the other
  processes fixed for the duration of the call, polling it again changes nothing.
\<close>

definition lock_registry_at :: "path \<Rightarrow> (storage_error, unit) prog" where
  "lock_registry_at root =
     io_bind (io_map_err SIo (fs_create_dir_all (path_join root CONFIG_SLUG))) (\<lambda>_.
     io_bind (io_map_err SIo (fs_open_lock (registry_lock_path_for_root root))) (\<lambda>_.
     io_bind (fs_try_lock (registry_lock_path_for_root root)) (\<lambda>got.
       io_ensure got
         (SLockUnavailable ''another Local Store process held the registry for over 10 seconds''))))"

definition insert_app :: "installed_app \<Rightarrow> registry_v2 \<Rightarrow> (storage_error, registry_v2) result" where
  "insert_app app r =
     (if list_ex (\<lambda>saved. app_id saved = app_id app) (apps r) then Err (SAlreadyExists (app_id app))
      else Ok (r\<lparr>apps := apps r @ [app]\<rparr>))"

definition remove_app :: "string \<Rightarrow> registry_v2 \<Rightarrow> (storage_error, registry_v2 \<times> installed_app) result" where
  "remove_app i r =
     (case position (\<lambda>app. app_id app = i) (apps r) of
        None \<Rightarrow> Err (SNotFound i)
      | Some k \<Rightarrow> Ok (r\<lparr>apps := remove_at k (apps r)\<rparr>, apps r ! k))"

definition update_app :: "installed_app \<Rightarrow> registry_v2 \<Rightarrow> (storage_error, registry_v2) result" where
  "update_app app r =
     (case position (\<lambda>saved. app_id saved = app_id app) (apps r) of
        None \<Rightarrow> Err (SNotFound (app_id app))
      | Some k \<Rightarrow> Ok (r\<lparr>apps := (apps r)[k := app]\<rparr>))"

definition insert_installed_app ::
  "registry_v2 codec \<Rightarrow> app_def list codec \<Rightarrow> path \<Rightarrow> installed_app \<Rightarrow> (storage_error, unit) prog" where
  "insert_installed_app json json1 root app =
     io_bind (lock_registry_at root) (\<lambda>_.
     io_bind (load_or_migrate_registry_at json json1 root) (\<lambda>r.
     io_bind (io_lift (insert_app app r)) (\<lambda>r'.
       save_registry_v2_at json root r')))"

definition remove_installed_app ::
  "registry_v2 codec \<Rightarrow> app_def list codec \<Rightarrow> path \<Rightarrow> string \<Rightarrow> (storage_error, installed_app) prog" where
  "remove_installed_app json json1 root i =
     io_bind (lock_registry_at root) (\<lambda>_.
     io_bind (load_or_migrate_registry_at json json1 root) (\<lambda>r.
     io_bind (io_lift (remove_app i r)) (\<lambda>ra.
     io_bind (save_registry_v2_at json root (fst ra)) (\<lambda>_.
       io_return (snd ra)))))"

definition update_installed_app ::
  "registry_v2 codec \<Rightarrow> app_def list codec \<Rightarrow> path \<Rightarrow> installed_app \<Rightarrow> (storage_error, unit) prog" where
  "update_installed_app json json1 root app =
     io_bind (lock_registry_at root) (\<lambda>_.
     io_bind (load_or_migrate_registry_at json json1 root) (\<lambda>r.
     io_bind (io_lift (update_app app r)) (\<lambda>r'.
       save_registry_v2_at json root r')))"

end
