(* ===== verification/Storage_Props.thy ===== *)
theory Storage_Props
  imports Storage
begin

text \<open>
  What \<^verbatim>\<open>src/storage.rs\<close> promises: a file is replaced atomically whatever fails, the registry can
  always be loaded again after a save that failed or died part way, mutations change exactly what
  they say, and the import of the previous format yields distinct valid identifiers.
\<close>

section \<open>Atomic replacement\<close>

definition temps :: "path \<Rightarrow> path set" where
  "temps p = {temp_path parent name n k | parent name n k.
                path_parent p = Some parent \<and> path_file_name p = Some name}"

lemma path_split:
  assumes "path_parent p = Some parent" "path_file_name p = Some name"
  shows "p = path_join parent name"
proof -
  have "p \<noteq> []" "parent = butlast p" "last p = Normal name"
    using assms by (auto simp: path_parent_def path_file_name_def split: if_splits component.splits)
  then show ?thesis using append_butlast_last_id [of p] by (simp add: path_join_def)
qed

lemma not_own_temp: "p \<notin> temps p"
proof
  assume "p \<in> temps p"
  then obtain parent name n k where t: "p = temp_path parent name n k"
    and p: "path_parent p = Some parent" "path_file_name p = Some name"
    by (auto simp only: temps_def mem_Collect_eq)
  note own = path_split [OF p, symmetric, unfolded t temp_path_def path_join_inject]
  then have "length name = length (''.'' @ name @ ''-'' @ show_nat n @ ''-'' @ show_nat k @ ''.tmp'')"
    by (rule arg_cong)
  then show False by simp
qed

lemma not_temp_of: "path_file_name q = Some (c # m) \<Longrightarrow> c \<noteq> CHR ''.'' \<Longrightarrow> q \<notin> temps p"
  by (auto simp: temps_def temp_path_def)

text \<open>The contract of an atomic write, as its callers use it.\<close>

locale atomic_file =
  fixes put :: "path \<Rightarrow> bytes \<Rightarrow> (storage_error, unit) prog"
    and scratch :: "path \<Rightarrow> path set"
  assumes own: "p \<notin> scratch p"
    and on_frame: "put p b w = (r, w') \<Longrightarrow> keeps (insert p (scratch p)) w w'"
    and on_done: "put p b w = (Done u, w') \<Longrightarrow> files w' p = Some b"
    and on_other: "put p b w = (r, w') \<Longrightarrow> r \<noteq> Done () \<Longrightarrow> files w' p = files w p \<or> files w' p = None"
begin

text \<open>Old bytes, new bytes, or no file: never a torn one.\<close>

lemma never_torn: "put p b w = (r, w') \<Longrightarrow> files w' p \<in> {files w p, Some b, None}"
  by (cases "r = Done ()") (use on_done on_other in blast)+

lemma others_kept: "put p b w = (r, w') \<Longrightarrow> q \<noteq> p \<Longrightarrow> q \<notin> scratch p \<Longrightarrow> files w' q = files w q"
  by (metis on_frame keeps_file insertE)

lemma env_kept:
  "put p b w = (r, w') \<Longrightarrow> locked w' = locked w \<and> clock_secs w' = clock_secs w \<and> entropy w' = entropy w"
  by (drule on_frame) (auto simp: keeps_def)

end

lemma allocate_temp_run:
  "allocate_temp parent name n k left w = (r, w') \<Longrightarrow>
   keeps (range (temp_path parent name n)) w w'
   \<and> (\<forall>t. r = Done (Some t) \<longrightarrow> (\<exists>j. t = temp_path parent name n j))"
proof (induction left arbitrary: k w)
  case (Suc left)
  let ?S = "range (temp_path parent name n)"
  from Suc.prems show ?case
    unfolding allocate_temp.simps Let_def
  proof (cases rule: io_match_cases)
    case (Done x w1)
    with fs_create_new_run(1) [OF Done(1)] show ?thesis
      by (auto elim!: keeps_mono)
  next
    case (Failed e w1)
    have "keeps ?S w w1" using fs_create_new_run(1) [OF Failed(1)] by (rule keeps_mono) auto
    with Failed(2) Suc.IH [of "Suc k" w1] show ?thesis
      by (auto split: if_splits intro: keeps_trans [of ?S w w1 w'])
  next
    case Crashed
    with fs_create_new_run(1) [OF Crashed(1)] show ?thesis by (auto elim!: keeps_mono)
  qed
qed auto

lemma replace_target_run:
  assumes "replace_target t p b w = (r, w')" "t \<noteq> p"
  shows "keeps {t, p} w w'"
    and "r = Done u \<Longrightarrow> files w' p = Some b"
    and "r \<noteq> Done () \<Longrightarrow> files w' p = files w p \<or> files w' p = None"
proof -
  have "keeps {t, p} w w' \<and> (if r = Done () then files w' p = Some b
          else files w' p = files w p \<or> files w' p = None)"
    using assms(1) unfolding replace_target_def
  proof (cases rule: io_bind_cases)
    case (Done x w1)
    have w1: "w1 = put_file t (Some b) (spend_fault w)" using fs_write_all_run(2) [OF Done(1)] by simp
    from Done(2) show ?thesis
    proof (cases rule: io_bind_cases)
      case (Done y w2)
      have w2: "w2 = spend_fault w1" by (rule fs_sync_all_run [OF Done(1)])
      obtain th where th: "io_bind (if th then fs_remove_file p else io_return ()) (\<lambda>_. fs_rename t p) w2 = (r, w')"
        using Done(2) by (auto simp: io_bind_def fs_exists_def)
      then show ?thesis
      proof (cases rule: io_bind_cases)
        case (Done z w3)
        have w3: "keeps {p} w2 w3" "files w3 p = files w2 p \<or> files w3 p = None"
          using Done(1) fs_remove_file_run [of p w2 "Done z" w3]
          by (auto split: if_splits simp: keeps_def)
        have ft: "files w3 t = Some b" using w3(1) assms(2) w1 w2 by (simp add: keeps_def)
        show ?thesis
          using fs_rename_run [OF Done(2)] w3 ft assms(2) w1 w2
          by (auto simp: keeps_def split: if_splits)
      next
        case (Failed e)
        then show ?thesis
          using fs_remove_file_run [of p w2 "Failed e" w'] assms(2) w1 w2
          by (auto split: if_splits simp: keeps_def)
      next
        case Crashed
        then show ?thesis
          using fs_remove_file_run [of p w2 Crashed w'] assms(2) w1 w2
          by (auto split: if_splits simp: keeps_def)
      qed
    next
      case (Failed e)
      then show ?thesis using fs_sync_all_run [OF Failed(1)] w1 assms(2) by (auto simp: keeps_def)
    next
      case Crashed
      then show ?thesis using fs_sync_all_run [OF Crashed(1)] w1 assms(2) by (auto simp: keeps_def)
    qed
  next
    case (Failed e)
    then show ?thesis using fs_write_all_run(1) [OF Failed(1)] assms(2) by (auto simp: keeps_def)
  next
    case Crashed
    then show ?thesis using fs_write_all_run(1) [OF Crashed(1)] assms(2) by (auto simp: keeps_def)
  qed
  then show "keeps {t, p} w w'" and "r = Done u \<Longrightarrow> files w' p = Some b"
    and "r \<noteq> Done () \<Longrightarrow> files w' p = files w p \<or> files w' p = None"
    by auto
qed

definition untorn :: "path \<Rightarrow> bytes \<Rightarrow> world \<Rightarrow> (storage_error, unit) run \<Rightarrow> world \<Rightarrow> bool" where
  "untorn p b w r w' =
     (keeps (insert p (temps p)) w w'
      \<and> (if r = Done () then files w' p = Some b else files w' p = files w p \<or> files w' p = None))"

lemma untorn_quiet: "keeps (temps p) w w' \<Longrightarrow> r \<noteq> Done () \<Longrightarrow> untorn p b w r w'"
  using keeps_file [OF _ not_own_temp, of p w w'] keeps_mono [of "temps p" w w' "insert p (temps p)"]
  by (auto simp: untorn_def)

lemma untorn_after: "keeps (temps p) w w1 \<Longrightarrow> untorn p b w1 r w' \<Longrightarrow> untorn p b w r w'"
  using keeps_file [OF _ not_own_temp, of p w w1] keeps_mono [of "temps p" w w1 "insert p (temps p)"]
    keeps_trans [of "insert p (temps p)" w w1 w']
  by (auto simp: untorn_def)

lemma remove_temp_keeps: "io_ignore (fs_remove_file t) w = (r, w') \<Longrightarrow> keeps {t} w w'"
  unfolding io_ignore_def
  by (erule io_match_cases; drule fs_remove_file_run; auto simp: keeps_def split: if_splits)

lemma finish_write_run:
  assumes "io_match (replace_target temp p b) io_return
             (\<lambda>e. io_bind (io_ignore (fs_remove_file temp)) (\<lambda>_. io_fail (SIo e))) w = (r, w')"
    and temp: "temp \<in> temps p"
  shows "untorn p b w r w'"
proof -
  have ne: "temp \<noteq> p" using not_own_temp temp by auto
  have up: "keeps (insert p (temps p)) v v'" if "keeps {temp, p} v v'" for v v'
    using that by (rule keeps_mono) (use temp in auto)
  from assms(1) show ?thesis
  proof (cases rule: io_match_cases)
    case (Done u w3)
    then have "r = Done ()" "w3 = w'" by simp_all
    with up [OF replace_target_run(1) [OF Done(1) ne]] replace_target_run(2) [OF Done(1) ne]
    show ?thesis by (simp add: untorn_def)
  next
    case (Failed e w3)
    have p3: "files w3 p = files w p \<or> files w3 p = None"
      using replace_target_run(3) [OF Failed(1) ne] by simp
    from Failed(2) have rk: "r \<noteq> Done () \<and> keeps {temp} w3 w'"
      by (cases rule: io_bind_cases) (use remove_temp_keeps in auto)
    then have "files w' p = files w3 p" using keeps_file [of "{temp}" w3 w' p] ne by auto
    moreover have "keeps {temp, p} w3 w'" using rk keeps_mono [of "{temp}" w3 w' "{temp, p}"] by auto
    then have "keeps (insert p (temps p)) w w'"
      by (rule keeps_trans [OF up [OF replace_target_run(1) [OF Failed(1) ne]] up])
    ultimately show ?thesis using p3 rk by (auto simp: untorn_def)
  next
    case Crashed
    then show ?thesis
      using up [OF replace_target_run(1) [OF Crashed(1) ne]] replace_target_run(3) [OF Crashed(1) ne]
      by (auto simp: untorn_def)
  qed
qed

lemma allocate_and_write_run:
  assumes "io_bind (allocate_temp parent name n 0 100) (\<lambda>t.
             (case t of
                None \<Rightarrow> io_fail (SMigrationRefused NoTemporaryName)
              | Some temp \<Rightarrow>
                  io_match (replace_target temp p b) io_return
                    (\<lambda>e. io_bind (io_ignore (fs_remove_file temp)) (\<lambda>_. io_fail (SIo e))))) w = (r, w')"
    and pn: "path_parent p = Some parent" "path_file_name p = Some name"
  shows "untorn p b w r w'"
proof -
  have T: "range (temp_path parent name n) \<subseteq> temps p" using pn by (auto simp: temps_def)
  have k: "keeps (temps p) w w1" if "allocate_temp parent name n 0 100 w = (q, w1)" for q w1
    using allocate_temp_run [OF that] keeps_mono [OF _ T] by blast
  from assms(1) show ?thesis
  proof (cases rule: io_bind_cases)
    case (Done t w2)
    note k2 = k [OF Done(1)]
    show ?thesis
    proof (cases t)
      case None
      with Done(2) k2 show ?thesis by (auto intro: untorn_quiet)
    next
      case (Some temp)
      then have "temp \<in> temps p" using allocate_temp_run [OF Done(1)] T by blast
      with Done(2) Some show ?thesis by (auto intro: untorn_after [OF k2] finish_write_run)
    qed
  next
    case (Failed e)
    then show ?thesis using k by (auto intro: untorn_quiet)
  next
    case Crashed
    then show ?thesis using k by (auto intro: untorn_quiet)
  qed
qed

lemma atomic_write_untorn:
  assumes run: "atomic_write p b w = (r, w')"
  shows "untorn p b w r w'"
proof (cases "path_parent p")
  case None
  with run show ?thesis by (auto simp: atomic_write_def intro!: untorn_quiet)
next
  case (Some parent)
  have k: "keeps (temps p) w w1" if "io_map_err SIo (fs_create_dir_all parent) w = (q, w1)" for q w1
    using that by (cases q) (auto simp: io_map_err_Failed intro: fs_create_dir_all_keeps)
  from run show ?thesis
    unfolding atomic_write_def Some option.case
  proof (cases rule: io_bind_cases)
    case (Done x w1)
    note k1 = k [OF Done(1)]
    show ?thesis
    proof (cases "clock_secs w1 = None \<or> path_file_name p = None")
      case True
      with Done(2) k1 show ?thesis by (auto intro: untorn_quiet split: option.splits)
    next
      case False
      then obtain c name where "clock_secs w1 = Some c" and name: "path_file_name p = Some name" by auto
      with Done(2) show ?thesis
        by (auto intro: untorn_after [OF k1] allocate_and_write_run [OF _ Some name])
    qed
  next
    case (Failed e)
    then show ?thesis using k [OF Failed(1)] by (auto intro: untorn_quiet)
  next
    case Crashed
    then show ?thesis using k [OF Crashed(1)] by (auto intro: untorn_quiet)
  qed
qed

lemma atomic_file_atomic_write: "atomic_file atomic_write temps"
proof
  fix p b w r w'
  show "p \<notin> temps p" by (rule not_own_temp)
  show "keeps (insert p (temps p)) w w'" if "atomic_write p b w = (r, w')"
    using atomic_write_untorn [OF that] by (simp add: untorn_def)
  show "files w' p = Some b" if "atomic_write p b w = (Done u, w')" for u
    using atomic_write_untorn [OF that] by (simp add: untorn_def)
  show "files w' p = files w p \<or> files w' p = None"
    if "atomic_write p b w = (r, w')" "r \<noteq> Done ()"
    using atomic_write_untorn [OF that(1)] that(2) by (simp add: untorn_def)
qed

interpretation atomic: atomic_file atomic_write temps
  by (rule atomic_file_atomic_write)

lemma write_file_atomically_eq: "write_file_atomically = atomic_write"
  by (simp add: write_file_atomically_def fun_eq_iff)

interpretation wfa: atomic_file write_file_atomically temps
  unfolding write_file_atomically_eq by (rule atomic_file_atomic_write)

section \<open>The registry survives a failed save\<close>

text \<open>The registry a program started later, with nothing failing any more, would load.\<close>

definition loads :: "registry_v2 codec \<Rightarrow> path \<Rightarrow> world \<Rightarrow> registry_v2 \<Rightarrow> bool" where
  "loads json root w r = (fst (load_registry_v2_at json root (settle w)) = Done r)"

definition registry_bytes :: "path \<Rightarrow> world \<Rightarrow> bytes option" where
  "registry_bytes root w =
     (case files w (registry_v2_path_for_root root) of
        Some b \<Rightarrow> Some b
      | None \<Rightarrow> files w (registry_v2_previous_path_for_root root))"

lemma loads_iff:
  "loads json root w r \<longleftrightarrow>
     (\<exists>b. registry_bytes root w = Some b \<and> decode json b = Some r \<and> validate_registry r = Ok ())"
  by (auto simp: loads_def load_registry_v2_at_def registry_bytes_def io_bind_def io_match_def
      io_map_err_run fs_read_calm io_err_def io_lift_def and_then_def ok_or_def
      split: option.splits result.splits)

text \<open>Whatever fails on the way, a load that returns has read those bytes.\<close>

lemma load_Done:
  assumes "load_registry_v2_at json root w = (Done r, w')"
  shows "loads json root w r" and "keeps {} w w'"
proof -
  from assms obtain data w1 where
    d: "io_match (fs_read (registry_v2_path_for_root root)) io_return
          (\<lambda>e. if kind e = KNotFound
               then io_map_err (\<lambda>pe. SMigrationRefused (NoRecoveryFile pe))
                      (fs_read (registry_v2_previous_path_for_root root))
               else io_fail (SIo e)) w = (Done data, w1)"
    and v: "decode json data = Some r" "validate_registry r = Ok ()" "w' = w1"
    unfolding load_registry_v2_at_def
    by (auto elim!: io_bind_DoneE simp: io_lift_def and_then_Ok_iff split: result.splits)
  have "registry_bytes root w = Some data \<and> keeps {} w w1"
    using d
  proof (cases rule: io_match_cases)
    case (Done x w2)
    then show ?thesis
      using fs_read_run(1,2) [OF Done(1)] by (auto simp: registry_bytes_def)
  next
    case (Failed e w2)
    then show ?thesis
      using fs_read_run(1,3) [OF Failed(1)] fs_read_run(1,2) [of "registry_v2_previous_path_for_root root" w2]
      by (auto simp: registry_bytes_def split: if_splits intro: keeps_trans)
  qed auto
  with v show "loads json root w r" and "keeps {} w w'" by (auto simp: loads_iff)
qed

lemma loads_unique: "loads json root w r \<Longrightarrow> loads json root w r' \<Longrightarrow> r = r'"
  by (auto simp: loads_def)

lemma previous_path [simp]:
  "with_extension ''previous.json'' (registry_v2_path_for_root root) = registry_v2_previous_path_for_root root"
  by (simp add: with_extension_def registry_v2_path_for_root_def registry_v2_previous_path_for_root_def
      file_stem_def path_join_def path_file_name_def butlast_append)

lemma registry_paths_distinct:
  "registry_v2_path_for_root root \<noteq> registry_v2_previous_path_for_root root"
  "registry_v2_path_for_root root \<notin> temps p"
  "registry_v2_previous_path_for_root root \<notin> temps p"
  "registry_v2_path_for_root root \<noteq> registry_lock_path_for_root root"
  "registry_v2_previous_path_for_root root \<noteq> registry_lock_path_for_root root"
  "registry_v2_path_for_root root \<noteq> migration_v1_backup_path_for_root root"
  "registry_v2_previous_path_for_root root \<noteq> migration_v1_backup_path_for_root root"
  by (simp_all add: registry_v2_path_for_root_def registry_v2_previous_path_for_root_def
      registry_lock_path_for_root_def migration_v1_backup_path_for_root_def not_temp_of)

lemma replace_with_previous_bytes:
  assumes run: "atomic_replace_with_previous (registry_v2_path_for_root root) b w = (r, w')"
    and old: "registry_bytes root w = Some ob"
  shows "registry_bytes root w' = Some ob \<or> registry_bytes root w' = Some b"
    and "r = Done () \<Longrightarrow> registry_bytes root w' = Some b"
proof -
  let ?live = "registry_v2_path_for_root root"
  let ?prev = "registry_v2_previous_path_for_root root"
  have final: "(registry_bytes root w' = Some ob \<or> registry_bytes root w' = Some b)
      \<and> (r = Done () \<longrightarrow> registry_bytes root w' = Some b)"
    if w1: "atomic_write ?live b w1 = (r, w')" "files w1 ?prev = Some ob"
       "files w1 ?live = None \<or> files w1 ?live = Some ob" for w1
    using atomic.never_torn [OF w1(1)] atomic.on_done [of ?live b w1] w1
      atomic.others_kept [OF w1(1), of ?prev] registry_paths_distinct [of root]
    by (auto simp: registry_bytes_def)
  have "(registry_bytes root w' = Some ob \<or> registry_bytes root w' = Some b)
      \<and> (r = Done () \<longrightarrow> registry_bytes root w' = Some b)"
  proof (cases "files w ?live")
    case None
    then have prev: "files w ?prev = Some ob" using old by (simp add: registry_bytes_def)
    show ?thesis
    proof (cases "?live \<in> dirs w")
      case True
      then have "io_bind (io_map_err SIo (fs_read ?live)) (\<lambda>previous.
            atomic_write ?prev previous) w = (r, w') \<or> r \<noteq> Done () \<and> keeps {} w w'"
        using run None fs_read_run [of ?live w]
        by (fastforce simp: atomic_replace_with_previous_def io_bind_def fs_exists_def io_map_err_run
            split: run.splits prod.splits)
      moreover have "\<not> (\<exists>x w1. fs_read ?live w = (Done x, w1))"
        using None fs_read_run(2) [of ?live w] by fastforce
      ultimately have "r \<noteq> Done () \<and> keeps {} w w'"
        using fs_read_run(1) [of ?live w]
        by (fastforce elim!: io_bind_cases simp: io_map_err_Failed)
      moreover from this have "files w' = files w" by (auto simp: keeps_def fun_eq_iff)
      then have "registry_bytes root w' = registry_bytes root w" by (metis registry_bytes_def)
      ultimately show ?thesis using old by simp
    next
      case False
      then have "atomic_write ?live b w = (r, w')"
        using run None by (simp add: atomic_replace_with_previous_def io_bind_def fs_exists_def)
      then show ?thesis using final None prev by blast
    qed
  next
    case (Some lb)
    then have lb: "lb = ob" using old by (simp add: registry_bytes_def)
    have step: "io_bind (io_bind (io_map_err SIo (fs_read ?live)) (\<lambda>previous.
            atomic_write ?prev previous)) (\<lambda>_. atomic_write ?live b) w = (r, w')"
      using run Some by (simp add: atomic_replace_with_previous_def io_bind_def fs_exists_def)
    have keep: ?thesis if "files w' ?live = Some ob" "r \<noteq> Done ()"
      using that by (simp add: registry_bytes_def)
    from step show ?thesis
    proof (cases rule: io_bind_cases)
      case (Done u w2)
      then obtain w1 where "fs_read ?live w = (Done ob, w1)" and p: "atomic_write ?prev ob w1 = (Done u, w2)"
        using Some lb fs_read_run(2) [of ?live w] by (fastforce elim!: io_bind_DoneE)
      then have "files w1 ?live = Some ob" using Some lb fs_read_run(1) by fastforce
      then have "files w2 ?live = Some ob" "files w2 ?prev = Some ob"
        using atomic.on_done [OF p] atomic.others_kept [OF p, of ?live] registry_paths_distinct [of root]
        by auto
      with final Done(2) show ?thesis by blast
    next
      case (Failed e)
      have "files w' ?live = Some ob"
        using Failed(1)
      proof (cases rule: io_bind_cases)
        case (Done x w1)
        then show ?thesis
          using Some lb fs_read_run(1) [of ?live w] atomic.others_kept [OF Done(2), of ?live]
            registry_paths_distinct [of root] by fastforce
      next
        case (Failed e')
        then show ?thesis using Some lb fs_read_run(1) [of ?live w] by (fastforce simp: io_map_err_Failed)
      qed auto
      with keep Failed(2) show ?thesis by simp
    next
      case Crashed
      have "files w' ?live = Some ob"
        using Crashed(1)
      proof (cases rule: io_bind_cases)
        case (Done x w1)
        then show ?thesis
          using Some lb fs_read_run(1) [of ?live w] atomic.others_kept [OF Done(2), of ?live]
            registry_paths_distinct [of root] by fastforce
      next
        case Crashed
        then show ?thesis using Some lb fs_read_run(1) [of ?live w] by fastforce
      qed auto
      with keep Crashed(2) show ?thesis by simp
    qed
  qed
  then show "registry_bytes root w' = Some ob \<or> registry_bytes root w' = Some b"
    and "r = Done () \<Longrightarrow> registry_bytes root w' = Some b" by auto
qed

lemma save_registry_loads:
  assumes "codec_ok json" "loads json root w old" "validate_registry new = Ok ()"
    and "save_registry_v2_at json root new w = (r, w')"
  shows "loads json root w' old \<or> loads json root w' new"
    and "r = Done () \<Longrightarrow> loads json root w' new"
proof -
  from assms(2) obtain ob where ob: "registry_bytes root w = Some ob" "decode json ob = Some old"
      "validate_registry old = Ok ()"
    by (auto simp: loads_iff)
  have ver: "version new = VERSION" using assms(3) by (auto simp: validate_registry_def split: if_splits)
  have "(loads json root w' old \<or> loads json root w' new) \<and> (r = Done () \<longrightarrow> loads json root w' new)"
  proof (cases "encode json new")
    case None
    then show ?thesis using assms(2,4) ver by (auto simp: save_registry_v2_at_def)
  next
    case (Some b)
    note d = codec_okD [OF assms(1) Some]
    have "atomic_replace_with_previous (registry_v2_path_for_root root) b w = (r, w')"
      using assms(4) Some ver by (simp add: save_registry_v2_at_def)
    from replace_with_previous_bytes [OF this ob(1)] ob d assms(3)
    show ?thesis by (auto simp: loads_iff)
  qed
  then show "loads json root w' old \<or> loads json root w' new"
    and "r = Done () \<Longrightarrow> loads json root w' new" by auto
qed

section \<open>Validation\<close>

lemma validate_apps_iff:
  "validate_apps ids as = Ok () \<longleftrightarrow>
     distinct (map app_id as)
     \<and> (\<forall>a \<in> set as. is_valid_installed_app_id (app_id a) \<and> app_id a \<notin> ids \<and> validate_app a = Ok ())"
proof (induction ids as rule: validate_apps.induct)
  case (2 ids app rest)
  have "app_id app \<notin> app_id ` set rest \<longleftrightarrow> (\<forall>a \<in> set rest. app_id a \<noteq> app_id app)"
    by (metis imageE imageI)
  with 2 show ?case by (auto simp: and_then_Ok_iff)
qed simp

lemma validate_registry_iff:
  "validate_registry r = Ok () \<longleftrightarrow>
     version r = VERSION \<and> distinct (map app_id (apps r))
     \<and> (\<forall>a \<in> set (apps r). is_valid_installed_app_id (app_id a) \<and> validate_app a = Ok ())"
  by (auto simp: validate_registry_def validate_apps_iff)

definition app_ok :: "installed_app \<Rightarrow> bool" where
  "app_ok a = (is_valid_installed_app_id (app_id a) \<and> validate_app a = Ok ())"

lemma insert_app_valid:
  assumes "validate_registry r = Ok ()" "insert_app a r = Ok r'" "app_ok a"
  shows "validate_registry r' = Ok ()"
proof -
  have "app_id a \<notin> app_id ` set (apps r)" and "r' = r\<lparr>apps := apps r @ [a]\<rparr>"
    using assms(2) by (force simp: insert_app_def list_ex_iff split: if_splits)+
  with assms show ?thesis by (auto simp: validate_registry_iff app_ok_def)
qed

lemma remove_app_valid:
  assumes "validate_registry r = Ok ()" "remove_app i r = Ok (r', a)"
  shows "validate_registry r' = Ok ()"
  using assms set_remove_at_subset [of _ "apps r"]
  by (fastforce simp: validate_registry_iff remove_app_def map_remove_at distinct_remove_at split: option.splits)

lemma update_app_ids: "update_app a r = Ok r' \<Longrightarrow> map app_id (apps r') = map app_id (apps r)"
  by (auto simp: update_app_def map_update position_Some list_update_same_conv
      dest!: position_Some split: option.splits)

lemma update_app_valid:
  assumes "validate_registry r = Ok ()" "update_app a r = Ok r'" "app_ok a"
  shows "validate_registry r' = Ok ()"
proof -
  obtain k where "r' = r\<lparr>apps := (apps r)[k := a]\<rparr>"
    using assms(2) by (auto simp: update_app_def split: option.splits)
  then have "set (apps r') \<subseteq> insert a (set (apps r))" "version r' = version r"
    by (auto dest: in_set_conv_nth [THEN iffD1] set_update_subset_insert [THEN subsetD])
  with assms show ?thesis
    by (auto simp: validate_registry_iff update_app_ids app_ok_def)
qed

section \<open>Mutations under faults\<close>

lemma lock_registry_keeps:
  assumes "lock_registry_at root w = (r, w')"
  shows "keeps {registry_lock_path_for_root root} w w'"
proof -
  let ?S = "{registry_lock_path_for_root root}"
  have a: "keeps ?S v v'" if "io_map_err SIo (fs_create_dir_all p) v = (q, v')" for v v' p q
    using that by (cases q) (auto simp: io_map_err_Failed intro: fs_create_dir_all_keeps)
  have b: "keeps ?S v v'"
    if "io_map_err SIo (fs_open_lock (registry_lock_path_for_root root)) v = (q, v')" for v v' q
    using that by (cases q) (auto simp: io_map_err_Failed intro: fs_open_lock_keeps)
  show ?thesis
    using assms unfolding lock_registry_at_def
    by (auto elim!: io_bind_cases simp: fs_try_lock_def io_ensure_def dest!: a b
        split: if_splits intro: keeps_trans)
qed

lemma loads_keeps:
  "keeps S w w' \<Longrightarrow> registry_v2_path_for_root root \<notin> S \<Longrightarrow> registry_v2_previous_path_for_root root \<notin> S
   \<Longrightarrow> loads json root w' r \<longleftrightarrow> loads json root w r"
proof -
  assume "keeps S w w'" "registry_v2_path_for_root root \<notin> S" "registry_v2_previous_path_for_root root \<notin> S"
  then have "registry_bytes root w' = registry_bytes root w" unfolding registry_bytes_def keeps_def by metis
  then show ?thesis by (simp add: loads_iff)
qed

lemma loads_lock:
  "lock_registry_at root w = (r, w') \<Longrightarrow> loads json root w' q \<longleftrightarrow> loads json root w q"
  by (rule loads_keeps [OF lock_registry_keeps]) (auto simp: registry_paths_distinct)

lemma loads_exists: "loads json root w r \<Longrightarrow>
   files w (registry_v2_path_for_root root) \<noteq> None \<or> files w (registry_v2_previous_path_for_root root) \<noteq> None"
  by (auto simp: loads_iff registry_bytes_def split: option.splits)

lemma load_or_migrate_present:
  assumes "loads json root w old"
  shows "load_or_migrate_registry_at json json1 root w = load_registry_v2_at json root w"
  using loads_exists [OF assms]
  by (auto simp: load_or_migrate_registry_at_def io_bind_def fs_exists_def)

lemma keeps_then_spend: "keeps S w w' \<Longrightarrow> keeps S w (spend_fault w')"
  by (simp add: keeps_def)

lemma keeps_spend_twice: "keeps S w (spend_fault (spend_fault w))"
  by (simp add: keeps_def)

lemma load_other_keeps: "load_registry_v2_at json root w = (r, w') \<Longrightarrow> keeps {} w w'"
  unfolding load_registry_v2_at_def
  by (auto elim!: io_bind_cases io_match_cases simp: io_lift_def io_map_err_Failed
      dest!: fs_read_run(1) split: if_splits result.splits intro: keeps_spend_twice keeps_then_spend)

text \<open>
  The pattern of all three mutations: under the lock, load, compute, save. Whatever fails or
  wherever the process dies, the registry loads afterwards as it was or as computed.
\<close>

lemma mutation_atomic:
  assumes ok: "codec_ok json" and old: "loads json root w old"
    and valid: "\<And>x. f old = Ok x \<Longrightarrow> validate_registry (g x) = Ok ()"
    and run: "io_bind (lock_registry_at root) (\<lambda>_.
              io_bind (load_or_migrate_registry_at json json1 root) (\<lambda>r.
              io_bind (io_lift (f r)) (\<lambda>x.
              io_bind (save_registry_v2_at json root (g x)) (\<lambda>_. io_return (h x))))) w = (r, w')"
  shows "loads json root w' old \<or> (\<exists>x. f old = Ok x \<and> loads json root w' (g x))"
    and "r = Done y \<Longrightarrow> \<exists>x. f old = Ok x \<and> loads json root w' (g x) \<and> y = h x"
proof -
  have "(loads json root w' old \<or> (\<exists>x. f old = Ok x \<and> loads json root w' (g x)))
      \<and> (\<forall>y. r = Done y \<longrightarrow> (\<exists>x. f old = Ok x \<and> loads json root w' (g x) \<and> y = h x))"
    using run
  proof (cases rule: io_bind_cases)
    case (Done u w1)
    have l1: "loads json root w1 old" using loads_lock [OF Done(1)] old by simp
    from Done(2) show ?thesis
    proof (cases rule: io_bind_cases)
      case (Done r1 w2)
      then have ld: "load_registry_v2_at json root w1 = (Done r1, w2)"
        using load_or_migrate_present [OF l1] by simp
      then have r1: "r1 = old" using load_Done(1) [OF ld] l1 loads_unique by blast
      have l2: "loads json root w2 old" using load_Done(2) [OF ld] l1 loads_keeps [of "{}"] by blast
      show ?thesis
      proof (cases "f old")
        case (Ok x)
        with Done(2) r1 have "io_bind (save_registry_v2_at json root (g x)) (\<lambda>_. io_return (h x)) w2 = (r, w')"
          by simp
        then show ?thesis
        proof (cases rule: io_bind_cases)
          case (Done v w3)
          then show ?thesis using save_registry_loads(2) [OF ok l2 valid [OF Ok] Done(1)] Ok by auto
        next
          case (Failed e)
          then show ?thesis using save_registry_loads(1) [OF ok l2 valid [OF Ok] Failed(1)] Ok by auto
        next
          case Crashed
          then show ?thesis using save_registry_loads(1) [OF ok l2 valid [OF Ok] Crashed(1)] Ok by auto
        qed
      next
        case (Err e)
        with Done(2) r1 l2 show ?thesis by auto
      qed
    next
      case (Failed e)
      then show ?thesis
        using load_or_migrate_present [OF l1] load_other_keeps [of json root w1] l1 loads_keeps [of "{}" w1 w']
        by auto
    next
      case Crashed
      then show ?thesis
        using load_or_migrate_present [OF l1] load_other_keeps [of json root w1] l1 loads_keeps [of "{}" w1 w']
        by auto
    qed
  next
    case (Failed e)
    then show ?thesis using loads_lock [OF Failed(1)] old by auto
  next
    case Crashed
    then show ?thesis using loads_lock [OF Crashed(1)] old by auto
  qed
  then show "loads json root w' old \<or> (\<exists>x. f old = Ok x \<and> loads json root w' (g x))"
    and "r = Done y \<Longrightarrow> \<exists>x. f old = Ok x \<and> loads json root w' (g x) \<and> y = h x" by auto
qed

lemma io_bind_return_unit: "io_bind m (\<lambda>_. io_return ()) = m" "io_bind m io_return = m"
  by (auto simp: io_bind_def fun_eq_iff split: prod.splits run.splits)

lemma remove_at_filter:
  "distinct (map f xs) \<Longrightarrow> position (\<lambda>x. f x = i) xs = Some k \<Longrightarrow> remove_at k xs = filter (\<lambda>x. f x \<noteq> i) xs"
proof (induction xs arbitrary: k)
  case (Cons x xs)
  then show ?case
    by (auto simp: remove_at_def image_iff split: if_splits intro!: filter_True [symmetric])
qed simp

lemma update_at_map:
  "distinct (map f xs) \<Longrightarrow> position (\<lambda>x. f x = i) xs = Some k
   \<Longrightarrow> xs[k := a] = map (\<lambda>x. if f x = i then a else x) xs"
proof (induction xs arbitrary: k)
  case (Cons x xs)
  then show ?case
    by (auto simp: image_iff split: if_splits intro!: map_idI [symmetric])
qed simp

section \<open>Import of the previous format\<close>

lemma valid_id_snoc:
  assumes "is_valid_installed_app_id s" "is_lower c \<or> is_digit c"
  shows "is_valid_installed_app_id (s @ [c])" "is_valid_installed_app_id (s @ [CHR ''-'', c])"
proof -
  have c: "c \<noteq> CHR ''-''" "is_id_byte c" "is_alnum c"
    using assms(2) by (auto simp: is_lower_def is_digit_def is_id_byte_def is_alnum_def is_alpha_def)
  have s: "s \<noteq> []" "is_alnum (hd s)" "last s \<noteq> CHR ''-''" "\<not> has_double_hyphen s" "list_all is_id_byte s"
    using assms(1) by (auto simp: is_valid_id_iff)
  show "is_valid_installed_app_id (s @ [c])" "is_valid_installed_app_id (s @ [CHR ''-'', c])"
    using c s by (auto simp: is_valid_id_iff has_double_hyphen_append is_id_byte_def)
qed

lemma to_lower_alnum: "is_alnum b \<Longrightarrow> is_lower (to_lower b) \<or> is_digit (to_lower b)"
  by (cases "is_alpha b") (auto simp: to_lower_is_lower is_alnum_def is_alpha_def to_lower_other)

lemma ascii_slug_step_valid:
  assumes "fst st = [] \<or> is_valid_installed_app_id (fst st)"
  shows "fst (ascii_slug_step b st) = [] \<or> is_valid_installed_app_id (fst (ascii_slug_step b st))"
proof (cases "is_alnum b")
  case True
  note l = to_lower_alnum [OF True]
  have one: "is_valid_installed_app_id [to_lower b]"
    using l by (auto simp: is_valid_id_iff is_id_byte_def is_alnum_def is_alpha_def)
  show ?thesis
    using assms True one valid_id_snoc [OF _ l]
    by (cases "fst st = []") (auto simp: ascii_slug_step_def Let_def)
qed (use assms in \<open>auto simp: ascii_slug_step_def Let_def\<close>)

lemma ascii_slug_valid: "is_valid_installed_app_id (ascii_slug name)"
proof -
  have "fst (fold ascii_slug_step name st) = [] \<or> is_valid_installed_app_id (fst (fold ascii_slug_step name st))"
    if "fst st = [] \<or> is_valid_installed_app_id (fst st)" for st
    using that by (induction name arbitrary: st) (auto simp: ascii_slug_step_valid)
  from this [of "([], False)"] have
    "fst (fold ascii_slug_step name ([], False)) = []
     \<or> is_valid_installed_app_id (fst (fold ascii_slug_step name ([], False)))" by simp
  moreover have "is_valid_installed_app_id ''app''" by code_simp
  ultimately show ?thesis by (auto simp: ascii_slug_def Let_def)
qed

definition importable :: "app_def \<Rightarrow> bool" where
  "importable a =
     (trim (def_name a) \<noteq> [] \<and> trim (def_url a) \<noteq> []
      \<and> (case def_compose a of None \<Rightarrow> True | Some v \<Rightarrow> ParentDir \<notin> set (parse_path v)))"

lemma compose_runtime_ok:
  assumes "compose_runtime v i = Ok rt" "ParentDir \<notin> set (parse_path v)" "is_valid_installed_app_id i"
  shows "case rt of Compose name dir file \<Rightarrow>
      is_valid_installed_app_id name \<and> \<not> has_parent_dir dir \<and> \<not> has_parent_dir file \<and> path_starts_with file dir
    | External \<Rightarrow> True"
proof -
  obtain dir where d: "rt = Compose i dir (parse_path v)" "path_parent (parse_path v) = Some dir"
    using assms(1) by (auto simp: compose_runtime_def Let_def split: if_splits option.splits)
  have sw: "path_starts_with (parse_path v) dir" by (rule path_parent_starts_with [OF d(2)])
  then have "set dir \<subseteq> set (parse_path v)" by (auto simp: path_starts_with_iff)
  with assms d sw show ?thesis by (auto simp: has_parent_dir_def list_ex_iff)
qed

lemma convert_legacy_app_ok:
  assumes "convert_legacy_app used a t = Ok app"
  shows "app_id app \<notin> used" "is_valid_installed_app_id (app_id app)" "display_name app = def_name a"
    and "importable a \<Longrightarrow> validate_app app = Ok ()"
proof -
  obtain i rt where i: "next_available_installed_app_id (ascii_slug (def_name a)) (\<lambda>c. c \<notin> used) = Returns (Some i)"
    and rt: "(case def_compose a of None \<Rightarrow> Ok External
       | Some v \<Rightarrow> if trim v = [] then Ok External else compose_runtime v i) = Ok rt"
    and app: "app = \<lparr>app_id = i, catalog_id = None, display_name = def_name a,
                      launch_url = def_url a, icon_path = map_option parse_path (def_icon a),
                      runtime = rt, created_at_unix = t, updated_at_unix = t\<rparr>"
    using assms by (auto simp: convert_legacy_app_def and_then_Ok_iff split: outcome.splits option.splits)
  have v: "is_valid_installed_app_id i \<and> i \<notin> used" using next_available_valid [OF i] by simp
  with app show "app_id app \<notin> used" "is_valid_installed_app_id (app_id app)" "display_name app = def_name a"
    by auto
  show "validate_app app = Ok ()" if imp: "importable a"
    using that rt v compose_runtime_ok [of _ i rt]
    by (auto simp: validate_app_def app importable_def split: option.splits if_splits runtime_spec.splits)
qed

lemma convert_from_ok:
  "convert_from used legacy t = Ok as \<Longrightarrow>
   distinct (map app_id as) \<and> (\<forall>a \<in> set as. app_id a \<notin> used \<and> is_valid_installed_app_id (app_id a))
   \<and> map display_name as = map def_name legacy
   \<and> (list_all importable legacy \<longrightarrow> (\<forall>a \<in> set as. validate_app a = Ok ()))"
proof (induction used legacy t arbitrary: as rule: convert_from.induct)
  case (2 used app rest t)
  then obtain a bs where a: "convert_legacy_app used app t = Ok a"
    and bs: "convert_from (insert (app_id a) used) rest t = Ok bs" and as: "as = a # bs"
    by (auto simp: and_then_Ok_iff)
  from 2(1) [OF bs] convert_legacy_app_ok [OF a] as show ?case by auto
qed auto

lemma convert_legacy_app_not_slug:
  assumes "finite used" "card used < 2 ^ 63"
  shows "convert_legacy_app used a t \<noteq> Err (SMigrationRefused SlugNotAnId)"
proof -
  obtain i where "next_available_installed_app_id (ascii_slug (def_name a)) (\<lambda>c. c \<notin> used) = Returns (Some i)"
    using next_available_finite [OF ascii_slug_valid assms] by blast
  then show ?thesis
    by (auto simp: convert_legacy_app_def and_then_Err_iff compose_runtime_def Let_def
        split: option.splits if_splits)
qed

lemma convert_from_never_panics:
  "finite used \<Longrightarrow> card used + length legacy < 2 ^ 63 \<Longrightarrow>
   convert_from used legacy t \<noteq> Err (SMigrationRefused SlugNotAnId)"
proof (induction used legacy t rule: convert_from.induct)
  case (2 used app rest t)
  show ?case
  proof (cases "convert_legacy_app used app t")
    case (Ok a)
    have "card (insert (app_id a) used) + length rest < 2 ^ 63"
      using 2(2,3) card_insert_le_m1 [of "Suc (card used)" used "app_id a"]
      by (auto simp: card_insert_if)
    then have "convert_from (insert (app_id a) used) rest t \<noteq> Err (SMigrationRefused SlugNotAnId)"
      using 2(1) [of a] 2(2) by auto
    with Ok show ?thesis by (auto simp: and_then_Err_iff)
  next
    case (Err e)
    with convert_legacy_app_not_slug [of used app t] 2(2,3) show ?thesis by auto
  qed
qed simp

section \<open>What the import leaves alone\<close>

lemma replace_with_previous_keeps:
  assumes run: "atomic_replace_with_previous p b w = (r, w')"
    and q: "q \<noteq> p" "q \<noteq> with_extension ''previous.json'' p" "q \<notin> temps p"
      "q \<notin> temps (with_extension ''previous.json'' p)"
  shows "files w' q = files w q"
proof -
  have a: "files w2 q = files w1 q"
    if "atomic_write p c w1 = (v, w2)" for c v and w1 w2 :: world
    using atomic.others_kept [OF that, of q] q by auto
  have a': "files w2 q = files w1 q"
    if "atomic_write (with_extension ''previous.json'' p) c w1 = (v, w2)" for c v and w1 w2 :: world
    using atomic.others_kept [OF that, of q] q by auto
  have b: "files w1 q = files w q"
    if "(if there then io_bind (io_map_err SIo (fs_read p))
                   (\<lambda>previous. atomic_write (with_extension ''previous.json'' p) previous)
         else io_return ()) w = (v, w1)" for there v w1
    using that
    by (cases there; simp)
      (erule io_bind_cases; force simp: io_map_err_Failed dest: fs_read_run(1) a')
  from run obtain there where
    "io_bind (if there then io_bind (io_map_err SIo (fs_read p))
                   (\<lambda>previous. atomic_write (with_extension ''previous.json'' p) previous)
              else io_return ()) (\<lambda>_. atomic_write p b) w = (r, w')"
    by (auto simp: atomic_replace_with_previous_def io_bind_def [of "fs_exists p"] fs_exists_def)
  then show ?thesis
    by (cases rule: io_bind_cases) (use a b in \<open>fastforce+\<close>)
qed

lemma save_keeps:
  assumes "save_registry_v2_at json root x w = (r, w')"
    and "path_file_name q = Some (c # m)" "c \<noteq> CHR ''.''"
    and "q \<noteq> registry_v2_path_for_root root" "q \<noteq> registry_v2_previous_path_for_root root"
  shows "files w' q = files w q"
  using assms replace_with_previous_keeps [of "registry_v2_path_for_root root" _ w r w' q]
  by (auto simp: save_registry_v2_at_def not_temp_of split: if_splits option.splits)

lemma read_first_keeps: "read_first ps w = (r, w') \<Longrightarrow> keeps {} w w'"
  by (induction ps arbitrary: w)
    (auto elim!: io_match_cases dest!: fs_read_run(1) split: if_splits intro: keeps_trans)

lemma metadata_ok_keeps: "metadata_ok p w = (r, w') \<Longrightarrow> keeps {} w w'"
  unfolding metadata_ok_def by (erule io_match_cases) (auto dest!: fs_metadata_len_run(1))

text \<open>The import writes the registry and, once, its backup; the files it reads stay as they were.\<close>

lemma migrate_keeps:
  assumes run: "migrate_v1_registry_at json json1 root t w = (r, w')"
    and q: "path_file_name q = Some (c # m)" "c \<noteq> CHR ''.''"
      "q \<noteq> registry_v2_path_for_root root" "q \<noteq> registry_v2_previous_path_for_root root"
      "q = migration_v1_backup_path_for_root root \<longrightarrow> files w q \<noteq> None"
  shows "files w' q = files w q"
proof -
  let ?backup = "migration_v1_backup_path_for_root root"
  let ?sources = "[?backup, primary_v1_path_for_root root, legacy_v1_path_for_root root]"
  let ?put = "\<lambda>kept source. if kept then io_return () else atomic_write ?backup source"
  have qt: "q \<notin> temps p" for p using q not_temp_of by blast
  have save: "files v' q = files v q" if "save_registry_v2_at json root x v = (s, v')" for x v s v'
    using save_keeps [OF that q(1-4)] .
  have backup: "files v' q = files v q"
    if "fs_exists ?backup v = (Done kept, v1)" "?put kept source v1 = (s, v')" "files v q = files w q"
    for v v1 kept source s v'
  proof (cases kept)
    case False
    then have "q \<noteq> ?backup" using that q(5) by (auto simp: fs_exists_def)
    then show ?thesis
      using that False atomic.others_kept [of ?backup source v1 s v' q] qt by (auto simp: fs_exists_def)
  qed (use that in \<open>auto simp: fs_exists_def\<close>)
  have tail: "files v' q = files v q"
    if "io_bind (fs_exists ?backup) (\<lambda>kept. io_bind (?put kept source) (\<lambda>_.
          save_registry_v2_at json root x)) v = (s, v')" "files v q = files w q" for v v' s source x
    using that(1)
  proof (cases rule: io_bind_cases)
    case (Done kept v1)
    from Done(2) show ?thesis
      by (cases rule: io_bind_cases) (use backup [OF Done(1) _ that(2)] save in fastforce)+
  qed (simp_all add: fs_exists_def)
  from run show ?thesis
    unfolding migrate_v1_registry_at_def Let_def
  proof (cases rule: io_bind_cases)
    case (Done there w1)
    note k1 = keeps_file [OF metadata_ok_keeps [OF Done(1)], of q, simplified]
    show ?thesis
    proof (cases there)
      case False
      with Done(2) have "io_bind (read_first ?sources) (\<lambda>source.
           io_bind (io_lift (ok_or (decode json1 source) SJson)) (\<lambda>legacy.
           io_bind (io_lift (convert_legacy_apps legacy t)) (\<lambda>as.
           io_bind (fs_exists ?backup) (\<lambda>kept.
           io_bind (?put kept source) (\<lambda>_.
             save_registry_v2_at json root (registry_new as)))))) w1 = (r, w')" by simp
      then show ?thesis
      proof (cases rule: io_bind_cases)
        case (Done source w2)
        note k2 = keeps_file [OF read_first_keeps [OF Done(1)], of q, simplified]
        from Done(2) show ?thesis
          using tail [of source _ w2 r w'] k1 k2
          by (cases "decode json1 source") (auto simp: io_lift_def split: result.splits)
      next
        case (Failed e)
        then show ?thesis using keeps_file [OF read_first_keeps [OF Failed(1)], of q] k1 by simp
      next
        case Crashed
        then show ?thesis using keeps_file [OF read_first_keeps [OF Crashed(1)], of q] k1 by simp
      qed
    qed (use Done(2) k1 in simp)
  next
    case (Failed e)
    then show ?thesis using keeps_file [OF metadata_ok_keeps [OF Failed(1)], of q] by simp
  next
    case Crashed
    then show ?thesis using keeps_file [OF metadata_ok_keeps [OF Crashed(1)], of q] by simp
  qed
qed

section \<open>Concrete instances\<close>

definition sample_app :: "string \<Rightarrow> installed_app" where
  "sample_app i = \<lparr>app_id = i, catalog_id = None, display_name = i, launch_url = ''http://127.0.0.1:8080'',
                   icon_path = None, runtime = External, created_at_unix = 1, updated_at_unix = 1\<rparr>"

definition sample_json :: "registry_v2 codec" where
  "sample_json = table_codec [(registry_new [], ''0''), (registry_new [sample_app ''a''], ''1''),
     (registry_new [sample_app ''a'', sample_app ''b''], ''2''), (registry_new [sample_app ''b''], ''3''),
     (registry_new [(sample_app ''app'')\<lparr>display_name := ''?'', launch_url := [],
                     created_at_unix := 5, updated_at_unix := 5\<rparr>], ''4'')]"

definition sample_json1 :: "app_def list codec" where
  "sample_json1 = table_codec
     [([\<lparr>def_name = ''?'', def_url = [], def_icon = None, def_compose = None, def_health = None\<rparr>], ''v1'')]"

text \<open>A disk holding the registry \<open>[a]\<close>, with the given script of failures.\<close>

definition sample_world :: "fault list \<Rightarrow> world" where
  "sample_world fs =
     \<lparr>files = [registry_v2_path_for_root [] \<mapsto> ''1''], dirs = {}, locked = {}, clock_secs = Some 5,
      clock_nanos = 7, entropy = [], faults = fs\<rparr>"

definition sample_v1_world :: world where
  "sample_v1_world = (sample_world [])\<lparr>files := [primary_v1_path_for_root [] \<mapsto> ''v1'']\<rparr>"

lemma sample_json_ok: "codec_ok sample_json"
  unfolding sample_json_def by (rule table_codec_ok) simp

lemma sample_loads: "loads sample_json [] (sample_world fs) (registry_new [sample_app ''a''])"
  unfolding loads_iff by (rule exI [of _ "''1''"], intro conjI) code_simp+

section \<open>Properties\<close>

text \<open>
  Claim C3. \<^verbatim>\<open>atomic_write\<close> (\<^verbatim>\<open>storage.rs\<close>) never tears its target: whichever step fails or dies,
  the file holds its old bytes, the new bytes, or is absent; it holds the new bytes when the call
  returns Ok; and no other file changes but the write's own temporary files.
\<close>

theorem atomic_write_never_torn:
  assumes "atomic_write p b w = (r, w')"
  shows "files w' p \<in> {files w p, Some b, None} \<and> (r = Done () \<longrightarrow> files w' p = Some b)
    \<and> (\<forall>q. q \<noteq> p \<and> q \<notin> temps p \<longrightarrow> files w' q = files w q)"
  using atomic.never_torn [OF assms] atomic.on_done [of p b w "()" w'] atomic.others_kept [OF assms] assms
  by blast

theorem atomic_write_never_torn_witness:
  "let p = registry_v2_path_for_root []; w = sample_world [Fine, Fine, Dies_torn 1]
   in fst (atomic_write p ''23'' w) = Crashed
      \<and> files (snd (atomic_write p ''23'' w)) p \<in> {files w p, Some ''23'', None}"
proof -
  let ?p = "registry_v2_path_for_root []" and ?w = "sample_world [Fine, Fine, Dies_torn 1]"
  have "fst (atomic_write ?p ''23'' ?w) = Crashed" by code_simp
  with atomic_write_never_torn [of ?p "''23''" ?w, OF prod.collapse [symmetric]] show ?thesis
    by (simp add: Let_def)
qed

text \<open>
  Claim C1. A registry save that fails or dies at any file-system step leaves a registry that loads:
  the one before or the one saved, and after Ok the one saved. \<^verbatim>\<open>save_registry_v2_at\<close> writes the
  recovery copy first and \<^verbatim>\<open>load_registry_v2_at\<close> falls back to it.
\<close>

theorem save_survives_any_fault:
  assumes "codec_ok json" "loads json root w old" "validate_registry new = Ok ()"
    and "save_registry_v2_at json root new w = (r, w')"
  shows "(loads json root w' old \<or> loads json root w' new) \<and> (r = Done () \<longrightarrow> loads json root w' new)"
  using save_registry_loads [OF assms] by blast

theorem save_survives_any_fault_witness:
  "let w = sample_world (replicate 11 Fine @ [Dies]); new = registry_new [sample_app ''a'', sample_app ''b''];
       run = save_registry_v2_at sample_json [] new w
   in fst run = Crashed \<and> files (snd run) (registry_v2_path_for_root []) = None
      \<and> (loads sample_json [] (snd run) (registry_new [sample_app ''a''])
          \<or> loads sample_json [] (snd run) new)"
proof -
  let ?w = "sample_world (replicate 11 Fine @ [Dies])"
  let ?new = "registry_new [sample_app ''a'', sample_app ''b'']"
  have v: "validate_registry ?new = Ok ()" by code_simp
  have "fst (save_registry_v2_at sample_json [] ?new ?w) = Crashed
      \<and> files (snd (save_registry_v2_at sample_json [] ?new ?w)) (registry_v2_path_for_root []) = None"
    by code_simp
  with save_survives_any_fault [OF sample_json_ok sample_loads v prod.collapse [symmetric]]
  show ?thesis by (simp add: Let_def)
qed

text \<open>
  Claim C2. Installing an app (\<^verbatim>\<open>insert_installed_app\<close>) appends exactly it, once: the registry a later
  start loads is the old one or the old one with the app at its end, whatever failed on the way, and
  the latter when the call returned Ok; an app whose id is taken changes nothing.
\<close>

theorem insert_is_atomic:
  assumes ok: "codec_ok json" and old: "loads json root w old" and a: "app_ok app"
    and run: "insert_installed_app json json1 root app w = (r, w')"
  shows "(loads json root w' old
          \<or> app_id app \<notin> app_id ` set (apps old) \<and> loads json root w' (old\<lparr>apps := apps old @ [app]\<rparr>))
    \<and> (r = Done () \<longrightarrow> app_id app \<notin> app_id ` set (apps old)
          \<and> loads json root w' (old\<lparr>apps := apps old @ [app]\<rparr>))"
proof -
  have v: "validate_registry old = Ok ()" using old by (auto simp: loads_iff)
  have run': "io_bind (lock_registry_at root) (\<lambda>_. io_bind (load_or_migrate_registry_at json json1 root) (\<lambda>r.
      io_bind (io_lift (insert_app app r)) (\<lambda>x.
      io_bind (save_registry_v2_at json root x) (\<lambda>_. io_return ())))) w = (r, w')"
    using run by (simp add: insert_installed_app_def io_bind_return_unit)
  have new: "insert_app app old = Ok x \<longleftrightarrow> app_id app \<notin> app_id ` set (apps old)
      \<and> x = old\<lparr>apps := apps old @ [app]\<rparr>" for x
    by (auto simp: insert_app_def list_ex_iff image_iff) (metis)
  show ?thesis
    using mutation_atomic(1) [OF ok old insert_app_valid [OF v _ a] run']
      mutation_atomic(2) [OF ok old insert_app_valid [OF v _ a] run', of "()"]
    unfolding new by blast
qed

theorem insert_is_atomic_witness:
  "let w = sample_world []; run = insert_installed_app sample_json sample_json1 [] (sample_app ''b'') w
   in fst run = Done ()
      \<and> loads sample_json [] (snd run) (registry_new [sample_app ''a'', sample_app ''b''])"
proof -
  let ?run = "insert_installed_app sample_json sample_json1 [] (sample_app ''b'') (sample_world [])"
  have a: "app_ok (sample_app ''b'')" by code_simp
  have d: "fst ?run = Done ()" by code_simp
  have e: "(registry_new [sample_app ''a''])\<lparr>apps := apps (registry_new [sample_app ''a'']) @ [sample_app ''b'']\<rparr>
      = registry_new [sample_app ''a'', sample_app ''b'']" by (simp add: registry_new_def)
  show ?thesis
    using insert_is_atomic [OF sample_json_ok sample_loads a prod.collapse [symmetric], of sample_json1 "[]"] d
    unfolding e by (simp add: Let_def)
qed

text \<open>
  Removing an app (\<^verbatim>\<open>remove_installed_app\<close>) removes exactly the entry with that id and
  returns it; whatever fails on the way, the registry a later start loads is the old one or that one.
\<close>

theorem remove_is_atomic:
  assumes ok: "codec_ok json" and old: "loads json root w old"
    and run: "remove_installed_app json json1 root i w = (r, w')"
  shows "(loads json root w' old
          \<or> loads json root w' (old\<lparr>apps := filter (\<lambda>a. app_id a \<noteq> i) (apps old)\<rparr>))
    \<and> (r = Done a \<longrightarrow> a \<in> set (apps old) \<and> app_id a = i
          \<and> loads json root w' (old\<lparr>apps := filter (\<lambda>a. app_id a \<noteq> i) (apps old)\<rparr>))"
proof -
  have v: "validate_registry old = Ok ()" using old by (auto simp: loads_iff)
  have run': "io_bind (lock_registry_at root) (\<lambda>_. io_bind (load_or_migrate_registry_at json json1 root) (\<lambda>r.
      io_bind (io_lift (remove_app i r)) (\<lambda>x.
      io_bind (save_registry_v2_at json root (fst x)) (\<lambda>_. io_return (snd x))))) w = (r, w')"
    using run by (simp add: remove_installed_app_def)
  have valid: "validate_registry (fst x) = Ok ()" if "remove_app i old = Ok x" for x
    using remove_app_valid [OF v, of i "fst x" "snd x"] that by simp
  have new: "fst x = old\<lparr>apps := filter (\<lambda>a. app_id a \<noteq> i) (apps old)\<rparr>
      \<and> snd x \<in> set (apps old) \<and> app_id (snd x) = i" if "remove_app i old = Ok x" for x
    using that v by (auto simp: remove_app_def validate_registry_iff remove_at_filter
        dest!: position_Some split: option.splits)
  show ?thesis
    using mutation_atomic(1) [OF ok old valid run'] mutation_atomic(2) [OF ok old valid run', of a] new
    by metis
qed

theorem remove_is_atomic_witness:
  "let w = sample_world [Fine, Fine, Fine, Fine, Dies]; run = remove_installed_app sample_json sample_json1 [] ''a'' w
   in fst run = Crashed
      \<and> (loads sample_json [] (snd run) (registry_new [sample_app ''a'']) \<or> loads sample_json [] (snd run) (registry_new []))"
proof -
  let ?run = "remove_installed_app sample_json sample_json1 [] ''a'' (sample_world [Fine, Fine, Fine, Fine, Dies])"
  have d: "fst ?run = Crashed" by code_simp
  have e: "(registry_new [sample_app ''a''])\<lparr>apps := filter (\<lambda>a. app_id a \<noteq> ''a'') (apps (registry_new [sample_app ''a'']))\<rparr>
      = registry_new []" by (simp add: registry_new_def sample_app_def)
  show ?thesis
    using remove_is_atomic [OF sample_json_ok sample_loads [of "[Fine, Fine, Fine, Fine, Dies]"]
        prod.collapse [symmetric], of sample_json1 "''a''"] d
    unfolding e by (simp add: Let_def)
qed

text \<open>
  Updating an app (\<^verbatim>\<open>update_installed_app\<close>) replaces the entry with its id, in place, and no
  other; whatever fails on the way, the registry a later start loads is the old one or that one.
\<close>

theorem update_is_atomic:
  assumes ok: "codec_ok json" and old: "loads json root w old" and a: "app_ok app"
    and run: "update_installed_app json json1 root app w = (r, w')"
  shows "(loads json root w' old
          \<or> loads json root w' (old\<lparr>apps := map (\<lambda>b. if app_id b = app_id app then app else b) (apps old)\<rparr>))
    \<and> (r = Done () \<longrightarrow> app_id app \<in> app_id ` set (apps old)
          \<and> loads json root w' (old\<lparr>apps := map (\<lambda>b. if app_id b = app_id app then app else b) (apps old)\<rparr>))"
proof -
  have v: "validate_registry old = Ok ()" using old by (auto simp: loads_iff)
  have run': "io_bind (lock_registry_at root) (\<lambda>_. io_bind (load_or_migrate_registry_at json json1 root) (\<lambda>r.
      io_bind (io_lift (update_app app r)) (\<lambda>x.
      io_bind (save_registry_v2_at json root x) (\<lambda>_. io_return ())))) w = (r, w')"
    using run by (simp add: update_installed_app_def io_bind_return_unit)
  have new: "x = old\<lparr>apps := map (\<lambda>b. if app_id b = app_id app then app else b) (apps old)\<rparr>
      \<and> app_id app \<in> app_id ` set (apps old)" if "update_app app old = Ok x" for x
  proof -
    from that obtain k where k: "position (\<lambda>saved. app_id saved = app_id app) (apps old) = Some k"
      and x: "x = old\<lparr>apps := (apps old)[k := app]\<rparr>"
      by (auto simp: update_app_def split: option.splits)
    have "distinct (map app_id (apps old))" using v by (simp add: validate_registry_iff)
    then have "(apps old)[k := app] = map (\<lambda>b. if app_id b = app_id app then app else b) (apps old)"
      by (rule update_at_map [OF _ k])
    moreover from position_Some [OF k] have "app_id app \<in> app_id ` set (apps old)"
      using nth_mem [of k "apps old"] by (metis image_eqI)
    ultimately show ?thesis using x by simp
  qed
  let ?new = "old\<lparr>apps := map (\<lambda>b. if app_id b = app_id app then app else b) (apps old)\<rparr>"
  have new: "\<exists>x. update_app app old = Ok x \<and> loads json root w' x
      \<Longrightarrow> app_id app \<in> app_id ` set (apps old) \<and> loads json root w' ?new"
    using new by auto
  show ?thesis
    using mutation_atomic(1) [OF ok old update_app_valid [OF v _ a] run']
      mutation_atomic(2) [OF ok old update_app_valid [OF v _ a] run', of "()"] new
    by (simp only: simp_thms) blast
qed

theorem update_is_atomic_witness:
  "let w = sample_world []; run = update_installed_app sample_json sample_json1 [] (sample_app ''a'') w
   in fst run = Done () \<and> loads sample_json [] (snd run) (registry_new [sample_app ''a''])"
proof -
  let ?run = "update_installed_app sample_json sample_json1 [] (sample_app ''a'') (sample_world [])"
  have a: "app_ok (sample_app ''a'')" by code_simp
  have d: "fst ?run = Done ()" by code_simp
  have e: "(registry_new [sample_app ''a''])\<lparr>apps := map (\<lambda>b. if app_id b = app_id (sample_app ''a'')
        then sample_app ''a'' else b) (apps (registry_new [sample_app ''a'']))\<rparr>
      = registry_new [sample_app ''a'']" by (simp add: registry_new_def)
  show ?thesis
    using update_is_atomic [OF sample_json_ok sample_loads a prod.collapse [symmetric], of sample_json1 "[]"] d
    unfolding e by (simp add: Let_def)
qed

text \<open>
  The import of the previous format (\<^verbatim>\<open>convert_legacy_apps\<close>) gives every app a valid
  identifier, all different, and keeps the apps and their order; it cannot hit the \<^verbatim>\<open>expect\<close> on the
  identifier of \<^verbatim>\<open>convert_legacy_app\<close> on any list that fits in memory.
\<close>

theorem import_ids:
  assumes "length legacy < 2 ^ 63"
  shows "convert_legacy_apps legacy t \<noteq> Err (SMigrationRefused SlugNotAnId)
    \<and> (\<forall>as. convert_legacy_apps legacy t = Ok as \<longrightarrow>
         distinct (map app_id as) \<and> list_all (\<lambda>a. is_valid_installed_app_id (app_id a)) as
         \<and> map display_name as = map def_name legacy)"
  using convert_from_never_panics [of "{}" legacy t] convert_from_ok [of "{}" legacy t] assms
  by (auto simp: convert_legacy_apps_def list_all_iff)

theorem import_ids_witness:
  "let d = \<lparr>def_name = ''Pg Admin!'', def_url = ''u'', def_icon = None, def_compose = None, def_health = None\<rparr>
   in ascii_slug (def_name d) = ''pg-admin''
      \<and> convert_legacy_apps [d, d] 3 \<noteq> Err (SMigrationRefused SlugNotAnId)"
proof -
  have "ascii_slug ''Pg Admin!'' = ''pg-admin''" by code_simp
  then show ?thesis using import_ids [of "[_, _]" 3] by (simp add: Let_def)
qed

text \<open>
  \<^verbatim>\<open>migrate_v1_registry_at\<close> never touches what it imports: the files of the previous
  versions keep their bytes whatever fails, and a backup once written is never written again.
\<close>

theorem import_keeps_sources:
  assumes "migrate_v1_registry_at json json1 root t w = (r, w')"
  shows "files w' (primary_v1_path_for_root root) = files w (primary_v1_path_for_root root)
    \<and> files w' (legacy_v1_path_for_root root) = files w (legacy_v1_path_for_root root)
    \<and> (\<forall>b. files w (migration_v1_backup_path_for_root root) = Some b
         \<longrightarrow> files w' (migration_v1_backup_path_for_root root) = Some b)"
proof -
  note k = migrate_keeps [OF assms]
  show ?thesis
    using k [of "primary_v1_path_for_root root"] k [of "legacy_v1_path_for_root root"]
      k [of "migration_v1_backup_path_for_root root"]
    by (auto simp: registry_v2_path_for_root_def registry_v2_previous_path_for_root_def
        migration_v1_backup_path_for_root_def primary_v1_path_for_root_def legacy_v1_path_for_root_def
        CONFIG_SLUG_def LEGACY_CONFIG_SLUG_def path_join_def path_file_name_def)
qed

theorem import_keeps_sources_witness:
  "let w = sample_v1_world\<lparr>faults := replicate 8 Fine @ [Dies_torn 1]\<rparr>;
       run = migrate_v1_registry_at sample_json sample_json1 [] 5 w
   in fst run = Crashed \<and> files (snd run) (primary_v1_path_for_root []) = Some ''v1''"
proof -
  let ?w = "sample_v1_world\<lparr>faults := replicate 8 Fine @ [Dies_torn 1]\<rparr>"
  have "fst (migrate_v1_registry_at sample_json sample_json1 [] 5 ?w) = Crashed"
    "files ?w (primary_v1_path_for_root []) = Some ''v1''" by code_simp+
  with import_keeps_sources [OF prod.collapse [symmetric], of sample_json sample_json1 "[]" 5 ?w]
  show ?thesis by (simp add: Let_def)
qed

text \<open>
  When every imported app has a name and an address and no \<^verbatim>\<open>..\<close> in its compose path, the
  registry the import writes passes the validation that loading it will apply.
\<close>

theorem import_loads:
  assumes "list_all importable legacy" "convert_legacy_apps legacy t = Ok as"
  shows "validate_registry (registry_new as) = Ok ()"
  using convert_from_ok [of "{}" legacy t as] assms
  by (auto simp: convert_legacy_apps_def validate_registry_iff registry_new_def)

theorem import_loads_witness:
  "\<exists>as. convert_legacy_apps [\<lparr>def_name = ''Db'', def_url = ''u'', def_icon = None, def_compose = None,
        def_health = None\<rparr>] 3 = Ok as \<and> validate_registry (registry_new as) = Ok ()"
proof -
  let ?l = "[\<lparr>def_name = ''Db'', def_url = ''u'', def_icon = None, def_compose = None, def_health = None\<rparr>]"
  have i: "list_all importable ?l" by code_simp
  have s: "ascii_slug ''Db'' = ''db''" "is_valid_installed_app_id ''db''" by code_simp+
  have "\<exists>as. convert_legacy_apps ?l 3 = Ok as"
    by (simp add: convert_legacy_apps_def convert_legacy_app_def s next_available_installed_app_id_def)
  with import_loads [OF i, of 3] show ?thesis by blast
qed

text \<open>
  Without that the import returns Ok and leaves a registry that no later start can load:
  \<^verbatim>\<open>migrate_v1_registry_at\<close> saves what it converted without validating it. The instance is an app
  with an empty address.
\<close>

theorem import_may_not_load:
  "let run = migrate_v1_registry_at sample_json sample_json1 [] 5 sample_v1_world
   in fst run = Done ()
      \<and> fst (load_or_migrate_registry_at sample_json sample_json1 [] (snd run))
          = Failed (SMigrationRefused EmptyEssentialField)"
  by code_simp

end
