(* ===== verification/Decimal.thy ===== *)
theory Decimal
  imports Rust_Str
begin

text \<open>
  Code equations for decimal printing and parsing over binary integers, so that numbers of several
  digits evaluate quickly.
\<close>


function show_int :: "int \<Rightarrow> string" where
  "show_int n =
     (if n < 10 then [char_of (48 + nat n)] else show_int (n div 10) @ [char_of (48 + nat (n mod 10))])"
  by pat_completeness auto
termination
  by (relation "measure nat") auto

declare show_int.simps [simp del]

lemma show_int: "show_int (int n) = show_nat n"
proof (induction n rule: show_nat.induct)
  case (1 n)
  show ?case
  proof (cases "n < 10")
    case False
    have "int n div 10 = int (n div 10)" "nat (int n mod 10) = n mod 10"
      by (simp add: zdiv_int, metis nat_int of_nat_mod of_nat_numeral)
    then have "show_int (int n) = show_int (int (n div 10)) @ [char_of (48 + n mod 10)]"
      using False by (subst show_int.simps) simp
    with 1 [OF False] False show ?thesis by (subst show_nat.simps) simp
  qed (simp add: show_int.simps show_nat.simps)
qed

lemma show_nat_unat [code_unfold]: "show_nat (unat w) = show_int (uint w)"
  by (simp only: uint_nat show_int)

fun digits_int :: "int \<Rightarrow> string \<Rightarrow> int" where
  "digits_int acc [] = acc"
| "digits_int acc (c # cs) = digits_int (acc * 10 + int (digit_val c)) cs"

lemma digits_int: "digits_int (int a) s = int (digits_val a s)"
proof (induction s arbitrary: a)
  case (Cons c cs)
  have "int a * 10 + int (digit_val c) = int (a * 10 + digit_val c)" by simp
  then show ?case by (simp only: digits_int.simps digits_val.simps Cons)
qed simp

lemma digits_int_0: "int (digits_val 0 s) = digits_int 0 s"
  using digits_int [of 0 s] by simp

lemma parse_u16_code [code]:
  "parse_u16 s =
     (let d = (case s of c # cs \<Rightarrow> if c = CHR ''+'' then cs else s | [] \<Rightarrow> []); v = digits_int 0 d
      in if d \<noteq> [] \<and> list_all is_digit d \<and> v < 65536 then Some (word_of_int v) else None)"
proof -
  have "n < 2 ^ 16 \<longleftrightarrow> int n < 65536" "(of_nat n :: u16) = word_of_int (int n)" for n :: nat
    by simp_all
  then show ?thesis
    unfolding parse_u16_def parse_unsigned_def Let_def digits_int_0 [symmetric]
    by (simp only: if_distrib [of "map_option of_nat"] option.map)
qed

lemma parse_i64_code [code]:
  "parse_i64 s =
     (let neg = (case s of c # _ \<Rightarrow> c = CHR ''-'' | [] \<Rightarrow> False);
          d = (case s of c # cs \<Rightarrow> if c = CHR ''-'' \<or> c = CHR ''+'' then cs else s | [] \<Rightarrow> []);
          v = (if neg then - digits_int 0 d else digits_int 0 d)
      in if d \<noteq> [] \<and> list_all is_digit d \<and> - (2 ^ 63) \<le> v \<and> v < 2 ^ 63 then Some v else None)"
  unfolding parse_i64_def digits_int_0 ..

lemma checked_add_code [code]: "checked_add a b = (let c = a + b in if a \<le> c then Some c else None)"
  by (simp add: checked_add_def Let_def no_olen_add_nat)

end
