(* ===== verification/Plan_Args.thy ===== *)
theory Plan_Args
  imports App_Model Decimal
begin

text \<open>
  The leaves of a deployment plan (\<^verbatim>\<open>src/plan.rs\<close>): its errors, plain names, YAML scalars, argument
  lists and mounts.
\<close>

section \<open>Errors\<close>

text \<open>One constructor per message of \<^verbatim>\<open>plan.rs\<close> and \<^verbatim>\<open>plan/healthcheck.rs\<close>, with what it interpolates.
  \<open>SlicePanic\<close> is the panic of a slice that is not on a character boundary.\<close>

datatype field_fault =
    FieldEmpty | TooManyArguments | ArgumentTooLong | ControlCharacters

datatype override_fault =
    MemoryLimitTooSmall | CpuLimitZero | PidLimitZero | NotASignal string | NotAHostname string

datatype health_fault =
    VariableExpansion | BadDuration | BadRetries | UnsupportedProperty | TestNotText | TestMode
  | TestType | ConflictingTest

datatype service_fault =
    ServiceNameNotPlain string | ImageNotPinned string | ImageFloatingTag string | ImageHasWhitespace
  | NotADigest string | EnvironmentKey string | EnvironmentControl string
  | MountTarget string | MountSource string | HostSource string | SlicePanic

datatype network_fault =
    NetworkNotPlain string | NetworkDeclaredTwice string | NetworkUndeclared string string
  | NetworkJoinedTwice string string | PublishesOffDefault string | NetworkUnused string

datatype address_fault =
    PublishedCount nat | PublishedHostLow | TooManyCompanions nat | ContainerPublishedTwice string u16
  | CompanionPortInvalid string | HostPublishedTwice u16 | NoFreePort u16

datatype graph_fault =
    CompletionUndeclared | WaitsForBoth string string | JobPublishes string
  | JobNotAwaited string string | HealthUndeclared | HealthTargetDisabled | DependsOnItself string
  | DependsOnUnknown string string | UndeclaredVolume string | DependencyCycle

datatype plan_error =
    Field string field_fault | Override override_fault | Health health_fault
  | Service service_fault | Network network_fault | Address address_fault | Graph graph_fault
  | PlanIdInvalid | NoServices | DuplicateServiceNames | VolumeNotPlain string | VolumeNeverMounted string
  | Projection string

section \<open>Names and scalars\<close>

definition is_plain_name :: "string \<Rightarrow> bool" where
  "is_plain_name v =
     (v \<noteq> [] \<and> list_all (\<lambda>c. is_lower c \<or> is_digit c \<or> c = CHR ''-'') v
      \<and> \<not> starts_with ''-'' v \<and> \<not> ends_with ''-'' v)"

text \<open>Quote a value only when leaving it bare would change its YAML type.\<close>

definition yaml_words :: "string list" where
  "yaml_words = [''true'', ''false'', ''null'', ''yes'', ''no'', ''on'', ''off'', ''~'']"

definition is_bare_char :: "char \<Rightarrow> bool" where
  "is_bare_char c = (is_alnum c \<or> c \<in> set ''-_./'')"

definition bare_is_a_string :: "string \<Rightarrow> bool" where
  "bare_is_a_string v =
     (v \<noteq> [] \<and> parse_i64 v = None \<and> \<not> parses_f64 v \<and> lowercase v \<notin> set yaml_words
      \<and> list_all is_bare_char v \<and> \<not> starts_with ''-'' v)"

definition scalar :: "string \<Rightarrow> string" where
  "scalar v =
     (if bare_is_a_string v then v
      else dquote # replace [dquote] [backslash, dquote] (replace [backslash] [backslash, backslash] v)
             @ [dquote])"

section \<open>Arguments\<close>

datatype plan_args = Shell string | Exec "string list"

definition args_parts :: "plan_args \<Rightarrow> string list" where
  "args_parts a = (case a of Shell l \<Rightarrow> [l] | Exec ps \<Rightarrow> ps)"

definition args_validate :: "string \<Rightarrow> plan_args \<Rightarrow> plan_error check" where
  "args_validate field a =
     (let parts = args_parts a
      in if parts = [] \<or> list_all (\<lambda>p. trim p = []) parts then Err (Field field FieldEmpty)
         else if 64 < length parts then Err (Field field TooManyArguments)
         else each (\<lambda>p. if 4096 < length p then Err (Field field ArgumentTooLong)
                        else if has_control p then Err (Field field ControlCharacters)
                        else Ok ()) parts)"

definition args_render :: "string \<Rightarrow> plan_args \<Rightarrow> string" where
  "args_render field a =
     (case a of
        Shell l \<Rightarrow> ''    '' @ field @ '': '' @ scalar l @ [newline]
      | Exec ps \<Rightarrow> ''    '' @ field @ '':'' @ [newline]
                   @ concat (map (\<lambda>p. ''      - '' @ scalar p @ [newline]) ps))"

section \<open>Mounts\<close>

datatype plan_mount =
    Directory (mount_source: string) (mount_target: string) (mount_read_only: bool)
  | Volume (mount_volume: string) (mount_target: string) (mount_read_only: bool)
  | Host (mount_source: string) (mount_target: string) (mount_read_only: bool)

definition directory_mount :: "string \<Rightarrow> string \<Rightarrow> plan_mount" where
  "directory_mount source target = Directory source target False"

definition mount_rendered :: "plan_mount \<Rightarrow> string" where
  "mount_rendered m =
     (let suffix = (if mount_read_only m then '':ro'' else [])
      in case m of
           Directory source target _ \<Rightarrow> ''./'' @ source @ '':'' @ target @ suffix
         | Volume name target _ \<Rightarrow> name @ '':'' @ target @ suffix
         | Host source target _ \<Rightarrow> source @ '':'' @ target @ suffix)"

text \<open>\<^verbatim>\<open>&source[1..3]\<close> panics when byte 3 is inside a character.\<close>

definition is_resolved_host_path :: "string \<Rightarrow> bool outcome" where
  "is_resolved_host_path source =
     (let rest = (\<lambda>absolute. absolute \<and> \<not> contains ''..'' source
            \<and> \<not> (has_control source \<or> dquote \<in> set source \<or> squote \<in> set source))
      in if starts_with ''/'' source then Returns (rest True)
         else if 2 < length source \<and> is_alpha (source ! 0) then
           (if is_char_boundary source 3 then Returns (rest (take 2 (drop 1 source) = [CHR '':'', backslash]))
            else Panics)
         else Returns (rest False))"

definition is_placeholder :: "string \<Rightarrow> bool" where
  "is_placeholder source =
     (starts_with ''${'' source \<and> ends_with ''}'' source
      \<and> (let inner = take (length source - 3) (drop 2 source)
         in CHR ''$'' \<notin> set inner \<and> CHR ''{'' \<notin> set inner \<and> CHR ''}'' \<notin> set inner))"

definition mount_validate :: "plan_mount \<Rightarrow> plan_error check" where
  "mount_validate m =
     (let target = mount_target m
      in if \<not> starts_with ''/'' target \<or> contains ''..'' target \<or> backslash \<in> set target
         then Err (Service (MountTarget target))
         else (case m of
             Directory source _ _ \<Rightarrow>
               if source = [] \<or> starts_with ''/'' source \<or> contains ''..'' source
                  \<or> backslash \<in> set source \<or> CHR '':'' \<in> set source
               then Err (Service (MountSource source)) else Ok ()
           | Host source _ _ \<Rightarrow>
               if is_placeholder source then Ok ()
               else (case is_resolved_host_path source of
                       Panics \<Rightarrow> Err (Service SlicePanic)
                     | Returns ok \<Rightarrow> if ok then Ok () else Err (Service (HostSource source)))
           | Volume _ _ _ \<Rightarrow> Ok ()))"

section \<open>Lemmas\<close>

lemma replace_Nil [simp]: "replace p r [] = []"
  by (simp add: replace.simps)

lemma replace_one: "replace [p] r (c # cs) = (if c = p then r else [c]) @ replace [p] r cs"
  by (subst replace.simps) (auto simp: replace.simps)

text \<open>How a YAML reader undoes a double-quoted scalar.\<close>

fun unescape :: "string \<Rightarrow> string" where
  "unescape (a # b # s) = (if a = backslash then b # unescape s else a # unescape (b # s))"
| "unescape s = s"

lemma unescape_replace:
  "unescape (replace [dquote] [backslash, dquote] (replace [backslash] [backslash, backslash] v)) = v"
proof (induction v)
  case (Cons c cs)
  have step: "unescape (c # replace [dquote] [backslash, dquote]
      (replace [backslash] [backslash, backslash] cs)) = c # cs" if "c \<noteq> backslash"
    using Cons that
    by (cases "replace [dquote] [backslash, dquote] (replace [backslash] [backslash, backslash] cs)") auto
  show ?case using Cons step by (auto simp: replace_one)
qed simp

definition read_scalar :: "string \<Rightarrow> string" where
  "read_scalar s = (if starts_with [dquote] s then unescape (butlast (tl s)) else s)"

lemma bare_not_quoted: "bare_is_a_string v \<Longrightarrow> \<not> starts_with [dquote] v"
  by (cases v) (auto simp: bare_is_a_string_def is_bare_char_def char_class_defs)

lemma read_scalar_scalar: "read_scalar (scalar v) = v"
  by (auto simp: read_scalar_def scalar_def bare_not_quoted unescape_replace)

lemma replace_one_set: "set (replace [p] r s) \<subseteq> set s \<union> set r"
  by (induction s) (auto simp: replace_one)

lemma scalar_set: "set (scalar v) \<subseteq> set v \<union> {dquote, backslash}"
  using replace_one_set [of dquote "[backslash, dquote]" "replace [backslash] [backslash, backslash] v"]
    replace_one_set [of backslash "[backslash, backslash]" v]
  by (auto simp: scalar_def)

lemma scalar_nonempty [simp]: "scalar v \<noteq> []"
  by (auto simp: scalar_def bare_is_a_string_def)

end
