(* ===== verification/Json.thy ===== *)
theory Json
  imports Rust_Str
begin

text \<open>
  Values of \<^verbatim>\<open>serde_json\<close>, as its documentation describes them: an object lists its members in the order
  of its \<^verbatim>\<open>BTreeMap\<close>, a number is unsigned, negative or a float, and a float is given by the text the
  library prints for it.
\<close>

datatype json_number = PosInt nat | NegInt int | Float string

datatype json =
    JNull
  | JBool bool
  | JNumber json_number
  | JString string
  | JArray "json list"
  | JObject "(string \<times> json) list"

definition json_str :: "json \<Rightarrow> string option" where
  "json_str j = (case j of JString s \<Rightarrow> Some s | _ \<Rightarrow> None)"

definition json_array :: "json \<Rightarrow> json list option" where
  "json_array j = (case j of JArray xs \<Rightarrow> Some xs | _ \<Rightarrow> None)"

definition json_object :: "json \<Rightarrow> (string \<times> json) list option" where
  "json_object j = (case j of JObject kvs \<Rightarrow> Some kvs | _ \<Rightarrow> None)"

text \<open>\<^verbatim>\<open>Map::get\<close> and \<^verbatim>\<open>Value::get\<close>, which finds nothing outside an object.\<close>

abbreviation member_of :: "(string \<times> json) list \<Rightarrow> string \<Rightarrow> json option" where
  "member_of kvs k \<equiv> map_of kvs k"

definition json_get :: "json \<Rightarrow> string \<Rightarrow> json option" where
  "json_get j k = Option.bind (json_object j) (\<lambda>kvs. member_of kvs k)"

definition json_u64 :: "json \<Rightarrow> nat option" where
  "json_u64 j = (case j of JNumber (PosInt n) \<Rightarrow> Some n | _ \<Rightarrow> None)"

definition json_bool :: "json \<Rightarrow> bool option" where
  "json_bool j = (case j of JBool b \<Rightarrow> Some b | _ \<Rightarrow> None)"

definition json_i64 :: "json \<Rightarrow> int option" where
  "json_i64 j =
     (case j of
        JNumber (PosInt n) \<Rightarrow> if int n < 9223372036854775808 then Some (int n) else None
      | JNumber (NegInt i) \<Rightarrow> Some i
      | _ \<Rightarrow> None)"

text \<open>\<^verbatim>\<open>get(k).and_then(Value::as_str)\<close> and its kin.\<close>

definition get_str :: "json \<Rightarrow> string \<Rightarrow> string option" where
  "get_str j k = Option.bind (json_get j k) json_str"

definition get_list :: "json \<Rightarrow> string \<Rightarrow> json list" where
  "get_list j k = (case Option.bind (json_get j k) json_array of Some xs \<Rightarrow> xs | None \<Rightarrow> [])"

definition text_or :: "string \<Rightarrow> string option \<Rightarrow> string" where
  "text_or d v = (case v of Some t \<Rightarrow> t | None \<Rightarrow> d)"

definition show_i64 :: "int \<Rightarrow> string" where
  "show_i64 n = (if n < 0 then ''-'' @ show_nat (nat (- n)) else show_nat (nat n))"

definition number_text :: "json_number \<Rightarrow> string" where
  "number_text n = (case n of PosInt k \<Rightarrow> show_nat k | NegInt i \<Rightarrow> show_i64 i | Float t \<Rightarrow> t)"

definition bool_text :: "bool \<Rightarrow> string" where
  "bool_text b = (if b then ''true'' else ''false'')"

text \<open>\<^verbatim>\<open>BTreeSet::insert\<close> into a set in iteration order.\<close>

definition bs_insert :: "'a::linorder \<Rightarrow> 'a list \<Rightarrow> 'a list" where
  "bs_insert x xs = (if x \<in> set xs then xs else insort x xs)"

lemma set_bs_insert [simp]: "set (bs_insert x xs) = insert x (set xs)"
  by (auto simp: bs_insert_def set_insort_key)

end
