(* ===== verification/Health_Check.thy ===== *)
theory Health_Check
  imports Plan_Args Json
begin

text \<open>
  Container health checks, \<^verbatim>\<open>src/plan/healthcheck.rs\<close>: reading Compose's object, validation and
  rendering. The deserialisation of the object into its fields is the JSON library's; its outcome
  is the argument of \<open>health_from_compose\<close>.
\<close>

datatype health_test = Disabled | Test_exec "string list" | Test_shell string

record plan_healthcheck =
  test :: "health_test option"
  interval :: "string option"
  timeout :: "string option"
  start_period :: "string option"
  start_interval :: "string option"
  retries :: "u32 option"

definition health_default :: plan_healthcheck where
  "health_default = \<lparr>test = None, interval = None, timeout = None, start_period = None,
                     start_interval = None, retries = None\<rparr>"

section \<open>Validation\<close>

text \<open>Every \<^verbatim>\<open>$\<close> is the first of a pair \<^verbatim>\<open>$$\<close>.\<close>

function dollars_escaped :: "string \<Rightarrow> bool" where
  "dollars_escaped rest =
     (case find_str ''$'' rest of
        None \<Rightarrow> True
      | Some at \<Rightarrow>
          (case strip_prefix ''$$'' (drop at rest) of
             Some after \<Rightarrow> dollars_escaped after
           | None \<Rightarrow> False))"
  by pat_completeness auto
termination
  by (relation "measure length") (auto simp: strip_prefix_def dest: starts_with_length split: if_splits)

declare dollars_escaped.simps [simp del]

text \<open>
  The pattern \<^verbatim>\<open>^(?:[0-9]{1,6}(?:\.[0-9]{1,6})?(?:ns|us|ms|s|m|h)){1,8}$\<close>: each function gives the
  possible rests of the text after one part of it.
\<close>

definition after_digits :: "string \<Rightarrow> string list" where
  "after_digits s = map (\<lambda>n. drop n s) (filter (\<lambda>n. n \<le> length s \<and> list_all is_digit (take n s)) [1..<7])"

definition after_fraction :: "string \<Rightarrow> string list" where
  "after_fraction s =
     s # (case strip_prefix ''.'' s of None \<Rightarrow> [] | Some r \<Rightarrow> after_digits r)"

definition duration_units :: "string list" where
  "duration_units = [''ns'', ''us'', ''ms'', ''s'', ''m'', ''h'']"

definition after_unit :: "string \<Rightarrow> string list" where
  "after_unit s = concat (map (\<lambda>u. case strip_prefix u s of None \<Rightarrow> [] | Some r \<Rightarrow> [r]) duration_units)"

definition after_part :: "string \<Rightarrow> string list" where
  "after_part s =
     concat (map (\<lambda>a. concat (map after_unit (after_fraction a))) (after_digits s))"

fun duration_parts :: "nat \<Rightarrow> string \<Rightarrow> bool" where
  "duration_parts 0 s = False"
| "duration_parts (Suc n) s = list_ex (\<lambda>r. r = [] \<or> duration_parts n r) (after_part s)"

definition is_duration :: "string \<Rightarrow> bool" where
  "is_duration s = duration_parts 8 s"

definition health_parts :: "plan_healthcheck \<Rightarrow> string list" where
  "health_parts h =
     (case test h of
        Some (Test_exec ps) \<Rightarrow> ps
      | Some (Test_shell c) \<Rightarrow> [c]
      | _ \<Rightarrow> [])"

definition health_args_validate :: "plan_healthcheck \<Rightarrow> plan_error check" where
  "health_args_validate h =
     (case test h of
        Some (Test_exec ps) \<Rightarrow> args_validate ''healthcheck'' (Exec ps)
      | Some (Test_shell c) \<Rightarrow> args_validate ''healthcheck'' (Shell c)
      | _ \<Rightarrow> Ok ())"

definition health_durations :: "plan_healthcheck \<Rightarrow> string list" where
  "health_durations h =
     concat (map (\<lambda>d. case d of None \<Rightarrow> [] | Some v \<Rightarrow> [v])
              [interval h, timeout h, start_period h, start_interval h])"

definition health_validate :: "plan_healthcheck \<Rightarrow> plan_error check" where
  "health_validate h =
     and_then (health_args_validate h) (\<lambda>_.
     and_then (each (\<lambda>part.
         if contains ''$$cap_'' part then Err (Health VariableExpansion)
         else if \<not> dollars_escaped part then Err (Health VariableExpansion)
         else Ok ()) (health_parts h)) (\<lambda>_.
     and_then (each (\<lambda>v.
         if 128 < length v \<or> \<not> is_duration v then Err (Health BadDuration) else Ok ())
         (health_durations h)) (\<lambda>_.
       case retries h of
         None \<Rightarrow> Ok ()
       | Some v \<Rightarrow> if v = 0 \<or> 1000 < v then Err (Health BadRetries) else Ok ())))"

section \<open>Reading Compose's object\<close>

text \<open>The object's fields, as the derived deserializer fills them.\<close>

record raw_health =
  raw_test :: "json option"
  raw_disable :: "bool option"
  raw_interval :: "string option"
  raw_timeout :: "string option"
  raw_start_period :: "string option"
  raw_start_interval :: "string option"
  raw_retries :: "u32 option"

definition health_test_of :: "json option \<Rightarrow> (plan_error, health_test option) result" where
  "health_test_of v =
     (case v of
        None \<Rightarrow> Ok None
      | Some (JString command) \<Rightarrow> Ok (Some (Test_shell command))
      | Some (JArray parts) \<Rightarrow>
          and_then (map_ok (\<lambda>p. ok_or (json_str p) (Health TestNotText)) parts) (\<lambda>ps.
            (case ps of
               [] \<Rightarrow> Err (Health TestMode)
             | mode # rest \<Rightarrow>
                 if mode = ''NONE'' \<and> length ps = 1 then Ok (Some Disabled)
                 else if mode = ''CMD'' \<and> 1 < length ps then Ok (Some (Test_exec rest))
                 else if mode = ''CMD-SHELL'' \<and> length ps = 2 then Ok (Some (Test_shell (ps ! 1)))
                 else Err (Health TestMode)))
      | Some _ \<Rightarrow> Err (Health TestType))"

definition health_from_compose :: "raw_health option \<Rightarrow> (plan_error, plan_healthcheck) result" where
  "health_from_compose value =
     and_then (ok_or value (Health UnsupportedProperty)) (\<lambda>raw.
     and_then (health_test_of (raw_test raw)) (\<lambda>t.
       if raw_disable raw = Some True \<and> t \<noteq> None then Err (Health ConflictingTest)
       else
         (let check = \<lparr>test = (if raw_disable raw = Some True then Some Disabled else t),
                       interval = raw_interval raw, timeout = raw_timeout raw,
                       start_period = raw_start_period raw, start_interval = raw_start_interval raw,
                       retries = raw_retries raw\<rparr>
          in and_then (health_validate check) (\<lambda>_. Ok check))))"

section \<open>Rendering\<close>

definition health_field_render :: "string \<times> string option \<Rightarrow> string" where
  "health_field_render kv =
     (case snd kv of
        None \<Rightarrow> []
      | Some v \<Rightarrow> ''      '' @ fst kv @ '': '' @ scalar v @ [newline])"

definition health_test_render :: "health_test option \<Rightarrow> string" where
  "health_test_render t =
     (case t of
        Some Disabled \<Rightarrow> ''      disable: true'' @ [newline]
      | Some (Test_shell c) \<Rightarrow>
          ''      test: ['' @ [dquote] @ ''CMD-SHELL'' @ [dquote] @ '', '' @ scalar c @ '']'' @ [newline]
      | Some (Test_exec ps) \<Rightarrow>
          ''      test:'' @ [newline] @ ''        - '' @ [dquote] @ ''CMD'' @ [dquote] @ [newline]
          @ concat (map (\<lambda>p. ''        - '' @ scalar p @ [newline]) ps)
      | None \<Rightarrow> [])"

definition health_render :: "plan_healthcheck \<Rightarrow> string" where
  "health_render h =
     ''    healthcheck:'' @ [newline]
     @ health_test_render (test h)
     @ concat (map health_field_render
         [(''interval'', interval h), (''timeout'', timeout h),
          (''start_period'', start_period h), (''start_interval'', start_interval h)])
     @ (case retries h of None \<Rightarrow> [] | Some r \<Rightarrow> ''      retries: '' @ show_nat (unat r) @ [newline])
     @ (if h = health_default then ''      disable: false'' @ [newline] else [])"

section \<open>Lemmas\<close>

lemma dollars_escaped_Nil [simp]: "dollars_escaped []"
  by (simp add: dollars_escaped.simps)

lemma dollars_escaped_other: "c \<noteq> CHR ''$'' \<Longrightarrow> dollars_escaped (c # s) = dollars_escaped s"
  by (subst (1 2) dollars_escaped.simps) (auto split: option.splits)

lemma dollars_escaped_pair: "dollars_escaped (CHR ''$'' # CHR ''$'' # s) = dollars_escaped s"
  by (subst dollars_escaped.simps) (simp add: strip_prefix_def)

lemma dollars_escaped_single: "s = [] \<or> hd s \<noteq> CHR ''$'' \<Longrightarrow> \<not> dollars_escaped (CHR ''$'' # s)"
  by (subst dollars_escaped.simps) (cases s; simp add: strip_prefix_def)

text \<open>What Compose's own interpolation leaves of a string: a pair is one literal dollar, anything else
  after a dollar is a substitution.\<close>

datatype piece = Literal char | Substitution

fun compose_pieces :: "string \<Rightarrow> piece list" where
  "compose_pieces [] = []"
| "compose_pieces [c] = (if c = CHR ''$'' then [Substitution] else [Literal c])"
| "compose_pieces (c # d # s) =
     (if c = CHR ''$'' then
        (if d = CHR ''$'' then Literal c # compose_pieces s else Substitution # compose_pieces (d # s))
      else Literal c # compose_pieces (d # s))"

lemma dollars_escaped_iff: "dollars_escaped s \<longleftrightarrow> Substitution \<notin> set (compose_pieces s)"
  by (induction s rule: compose_pieces.induct)
    (auto simp: dollars_escaped_other dollars_escaped_pair dollars_escaped_single)

end
