(* ===== verification/Plan.thy ===== *)
theory Plan
  imports Health_Check
begin

text \<open>
  The deployment plan, \<^verbatim>\<open>src/plan.rs\<close>: overrides, services, the plan's accessors and setters, and its
  validation, check by check in the order of the code.
\<close>

section \<open>Overrides\<close>

text \<open>The \<^verbatim>\<open>BTreeSet\<close> fields are given in iteration order.\<close>

record plan_overrides =
  healthy_dependencies :: "string list"
  completed_dependencies :: "string list"
  healthcheck :: "plan_healthcheck option"
  command :: "plan_args option"
  entrypoint :: "plan_args option"
  hostname :: "string option"
  stop_signal :: "string option"
  memory_limit_bytes :: "u64 option"
  cpu_limit_millicores :: "u32 option"
  pids_limit :: "u32 option"

definition overrides_default :: plan_overrides where
  "overrides_default = \<lparr>healthy_dependencies = [], completed_dependencies = [], healthcheck = None,
     command = None, entrypoint = None, hostname = None, stop_signal = None,
     memory_limit_bytes = None, cpu_limit_millicores = None, pids_limit = None\<rparr>"

definition is_signal :: "string \<Rightarrow> bool" where
  "is_signal signal =
     ((case strip_prefix ''SIG'' signal of
         None \<Rightarrow> False
       | Some rest \<Rightarrow> rest \<noteq> [] \<and> list_all (\<lambda>c. is_upper c \<or> is_digit c) rest)
      \<or> (signal \<noteq> [] \<and> length signal \<le> 2 \<and> list_all is_digit signal))"

definition is_hostname :: "string \<Rightarrow> bool" where
  "is_hostname h =
     (\<not> (h = [] \<or> 63 < length h \<or> \<not> list_all (\<lambda>c. is_lower c \<or> is_digit c \<or> c = CHR ''-'') h
         \<or> starts_with ''-'' h \<or> ends_with ''-'' h))"

text \<open>\<^verbatim>\<open>if let Some(x) = v { f(x)? }\<close>.\<close>

definition check_some :: "('a \<Rightarrow> 'e check) \<Rightarrow> 'a option \<Rightarrow> 'e check" where
  "check_some f v = (case v of None \<Rightarrow> Ok () | Some x \<Rightarrow> f x)"

definition overrides_validate :: "plan_overrides \<Rightarrow> plan_error check" where
  "overrides_validate v =
     (if (case memory_limit_bytes v of None \<Rightarrow> False | Some b \<Rightarrow> b < 6 * 1024 * 1024)
      then Err (Override MemoryLimitTooSmall)
      else if cpu_limit_millicores v = Some 0 then Err (Override CpuLimitZero)
      else if pids_limit v = Some 0 then Err (Override PidLimitZero)
      else
        and_then (check_some health_validate (healthcheck v)) (\<lambda>_.
        and_then (check_some (args_validate ''command'') (command v)) (\<lambda>_.
        and_then (check_some (args_validate ''entrypoint'') (entrypoint v)) (\<lambda>_.
        and_then (check_some (\<lambda>s. ensure (is_signal s) (Override (NotASignal s))) (stop_signal v)) (\<lambda>_.
          check_some (\<lambda>h. ensure (is_hostname h) (Override (NotAHostname h))) (hostname v))))))"

section \<open>Services\<close>

record published_port =
  host :: u16
  container :: u16

definition MAX_COMPANION_PORTS :: nat where
  "MAX_COMPANION_PORTS = 2"

record plan_service =
  service_name :: string
  service_image :: string
  digest :: "string option"
  environment :: "(string \<times> string) list"
  service_companion :: "published_port option"
  networks :: "string list"
  service_published :: "published_port option"
  mounts :: "plan_mount list"
  depends_on :: "string list"
  overrides :: plan_overrides

definition floating_tags :: "string list" where
  "floating_tags = [''latest'', ''stable'', ''main'', ''edge'']"

definition image_validate :: "string \<Rightarrow> plan_error check" where
  "image_validate img =
     (case rsplit_once (CHR '':'') img of
        None \<Rightarrow> Err (Service (ImageNotPinned img))
      | Some (_, tag) \<Rightarrow>
          if tag \<in> set floating_tags \<or> tag = [] then Err (Service (ImageFloatingTag img))
          else if has_whitespace img \<or> has_control img then Err (Service ImageHasWhitespace)
          else Ok ())"

definition is_digest :: "string \<Rightarrow> bool" where
  "is_digest d =
     (let hex = (case strip_prefix ''sha256:'' d of None \<Rightarrow> [] | Some h \<Rightarrow> h)
      in length hex = 64 \<and> list_all is_hex_lower hex)"

definition is_environment_key :: "string \<Rightarrow> bool" where
  "is_environment_key key =
     ((case key of [] \<Rightarrow> False | c # _ \<Rightarrow> is_alpha c \<or> c = CHR ''_'')
      \<and> list_all (\<lambda>c. is_alnum c \<or> c = CHR ''_'' \<or> c = CHR ''.'') key)"

definition environment_validate :: "string \<times> string \<Rightarrow> plan_error check" where
  "environment_validate kv =
     (if \<not> is_environment_key (fst kv) then Err (Service (EnvironmentKey (fst kv)))
      else if has_control (snd kv) then Err (Service (EnvironmentControl (fst kv)))
      else Ok ())"

definition service_validate :: "plan_service \<Rightarrow> plan_error check" where
  "service_validate s =
     and_then (overrides_validate (overrides s)) (\<lambda>_.
     and_then (ensure (is_plain_name (service_name s)) (Service (ServiceNameNotPlain (service_name s)))) (\<lambda>_.
     and_then (image_validate (service_image s)) (\<lambda>_.
     and_then (check_some (\<lambda>d. ensure (is_digest d) (Service (NotADigest d))) (digest s)) (\<lambda>_.
     and_then (each environment_validate (environment s)) (\<lambda>_.
       each mount_validate (mounts s))))))"

section \<open>The plan\<close>

record deployment_plan =
  plan_id :: string
  services :: "plan_service list"
  named_volumes :: "string list"
  internal_networks :: "string list"

definition container_name :: "deployment_plan \<Rightarrow> plan_service \<Rightarrow> string" where
  "container_name p s =
     (if service_name s = plan_id p then ''local-store-'' @ plan_id p
      else ''local-store-'' @ plan_id p @ ''-'' @ service_name s)"

fun find_map :: "('a \<Rightarrow> 'b option) \<Rightarrow> 'a list \<Rightarrow> 'b option" where
  "find_map f [] = None"
| "find_map f (x # xs) = (case f x of Some y \<Rightarrow> Some y | None \<Rightarrow> find_map f xs)"

definition published :: "deployment_plan \<Rightarrow> (plan_service \<times> published_port) option" where
  "published p = find_map (\<lambda>s. map_option (Pair s) (service_published s)) (services p)"

fun move_first_published :: "u16 \<Rightarrow> plan_service list \<Rightarrow> plan_service list" where
  "move_first_published h [] = []"
| "move_first_published h (s # ss) =
     (case service_published s of
        Some port \<Rightarrow> s\<lparr>service_published := Some (port\<lparr>host := h\<rparr>)\<rparr> # ss
      | None \<Rightarrow> s # move_first_published h ss)"

definition set_published_host :: "u16 \<Rightarrow> deployment_plan \<Rightarrow> deployment_plan" where
  "set_published_host h p = p\<lparr>services := move_first_published h (services p)\<rparr>"

definition companions_of :: "plan_service list \<Rightarrow> (plan_service \<times> published_port) list" where
  "companions_of ss =
     concat (map (\<lambda>s. case service_companion s of None \<Rightarrow> [] | Some port \<Rightarrow> [(s, port)]) ss)"

definition companions :: "deployment_plan \<Rightarrow> (plan_service \<times> published_port) list" where
  "companions p = companions_of (services p)"

fun move_companion :: "string \<Rightarrow> u16 \<Rightarrow> plan_service list \<Rightarrow> plan_service list" where
  "move_companion n h [] = []"
| "move_companion n h (s # ss) =
     (if service_name s = n
      then s\<lparr>service_companion := map_option (\<lambda>port. port\<lparr>host := h\<rparr>) (service_companion s)\<rparr> # ss
      else s # move_companion n h ss)"

definition set_companion_host :: "string \<Rightarrow> u16 \<Rightarrow> deployment_plan \<Rightarrow> deployment_plan" where
  "set_companion_host n h p = p\<lparr>services := move_companion n h (services p)\<rparr>"

definition is_job :: "deployment_plan \<Rightarrow> string \<Rightarrow> bool" where
  "is_job p n = list_ex (\<lambda>s. n \<in> set (completed_dependencies (overrides s))) (services p)"

definition directories_of :: "plan_mount list \<Rightarrow> string list" where
  "directories_of ms = concat (map (\<lambda>m. case m of Directory source _ _ \<Rightarrow> [source] | _ \<Rightarrow> []) ms)"

definition data_directories :: "deployment_plan \<Rightarrow> string list" where
  "data_directories p =
     remdups_adj (sort (concat (map (\<lambda>s. directories_of (mounts s)) (services p))))"

section \<open>Validation of a plan\<close>

fun check_companions :: "u16 list \<Rightarrow> (plan_service \<times> published_port) list \<Rightarrow> plan_error check" where
  "check_companions hosts [] = Ok ()"
| "check_companions hosts ((s, port) # rest) =
     (if (case service_published s of None \<Rightarrow> False | Some main \<Rightarrow> container main = container port)
      then Err (Address (ContainerPublishedTwice (service_name s) (container port)))
      else if host port < 1024 \<or> container port = 0
      then Err (Address (CompanionPortInvalid (service_name s)))
      else if host port \<in> set hosts then Err (Address (HostPublishedTwice (host port)))
      else check_companions (hosts @ [host port]) rest)"

definition addresses_validate :: "deployment_plan \<Rightarrow> plan_error check" where
  "addresses_validate p =
     (let ports = concat (map (\<lambda>s. case service_published s of None \<Rightarrow> [] | Some q \<Rightarrow> [q]) (services p))
      in if length ports \<noteq> 1 then Err (Address (PublishedCount (length ports)))
         else if host (hd ports) < 1024 then Err (Address PublishedHostLow)
         else if MAX_COMPANION_PORTS < length (companions p)
         then Err (Address (TooManyCompanions (length (companions p))))
         else check_companions [host (hd ports)] (companions p))"

definition find_service :: "deployment_plan \<Rightarrow> string \<Rightarrow> plan_service option" where
  "find_service p n = find (\<lambda>s. service_name s = n) (services p)"

definition completed_validate :: "plan_service \<Rightarrow> plan_error check" where
  "completed_validate s =
     each (\<lambda>d. if d \<notin> set (depends_on s) then Err (Graph CompletionUndeclared)
               else if d \<in> set (healthy_dependencies (overrides s))
               then Err (Graph (WaitsForBoth (service_name s) d))
               else Ok ()) (completed_dependencies (overrides s))"

definition job_validate :: "deployment_plan \<Rightarrow> plan_service \<Rightarrow> plan_error check" where
  "job_validate p s =
     (if \<not> is_job p (service_name s) then Ok ()
      else if service_published s \<noteq> None \<or> service_companion s \<noteq> None
      then Err (Graph (JobPublishes (service_name s)))
      else (case find (\<lambda>other. service_name s \<in> set (depends_on other)
                          \<and> service_name s \<notin> set (completed_dependencies (overrides other)))
                   (services p) of
              Some other \<Rightarrow> Err (Graph (JobNotAwaited (service_name other) (service_name s)))
            | None \<Rightarrow> Ok ()))"

definition health_disabled :: "plan_service \<Rightarrow> bool" where
  "health_disabled s =
     (case healthcheck (overrides s) of None \<Rightarrow> False | Some h \<Rightarrow> test h = Some Disabled)"

definition healthy_validate :: "deployment_plan \<Rightarrow> plan_service \<Rightarrow> plan_error check" where
  "healthy_validate p s =
     each (\<lambda>d. if d \<notin> set (depends_on s) then Err (Graph HealthUndeclared)
               else (case find_service p d of
                       Some t \<Rightarrow> if health_disabled t then Err (Graph HealthTargetDisabled) else Ok ()
                     | None \<Rightarrow> Ok ()))
       (healthy_dependencies (overrides s))"

definition dependencies_validate :: "deployment_plan \<Rightarrow> plan_service \<Rightarrow> plan_error check" where
  "dependencies_validate p s =
     each (\<lambda>d. if d = service_name s then Err (Graph (DependsOnItself (service_name s)))
               else if \<not> list_ex (\<lambda>other. service_name other = d) (services p)
               then Err (Graph (DependsOnUnknown (service_name s) d))
               else Ok ()) (depends_on s)"

fun use_volumes :: "string list \<Rightarrow> bool list \<Rightarrow> plan_mount list \<Rightarrow> (plan_error, bool list) result" where
  "use_volumes vols used [] = Ok used"
| "use_volumes vols used (m # ms) =
     (case m of
        Volume n _ _ \<Rightarrow>
          (case position (\<lambda>v. v = n) vols of
             Some i \<Rightarrow> use_volumes vols (used[i := True]) ms
           | None \<Rightarrow> Err (Graph (UndeclaredVolume n)))
      | _ \<Rightarrow> use_volumes vols used ms)"

definition service_checks :: "deployment_plan \<Rightarrow> plan_service \<Rightarrow> plan_error check" where
  "service_checks p s =
     and_then (service_validate s) (\<lambda>_.
     and_then (completed_validate s) (\<lambda>_.
     and_then (job_validate p s) (\<lambda>_.
     and_then (healthy_validate p s) (\<lambda>_.
       dependencies_validate p s))))"

fun services_validate ::
  "deployment_plan \<Rightarrow> bool list \<Rightarrow> plan_service list \<Rightarrow> (plan_error, bool list) result" where
  "services_validate p used [] = Ok used"
| "services_validate p used (s # ss) =
     and_then (service_checks p s) (\<lambda>_.
     and_then (use_volumes (named_volumes p) used (mounts s)) (\<lambda>used'.
       services_validate p used' ss))"

text \<open>A \<^verbatim>\<open>BTreeSet\<close> of names as a list without repetition.\<close>

definition note_name :: "string \<Rightarrow> string list \<Rightarrow> string list" where
  "note_name x xs = (if x \<in> set xs then xs else x # xs)"

fun order_pass :: "plan_service list \<Rightarrow> string list \<Rightarrow> string list" where
  "order_pass [] ordered = ordered"
| "order_pass (s # ss) ordered =
     order_pass ss
       (if list_all (\<lambda>n. n \<in> set ordered) (depends_on s) then note_name (service_name s) ordered
        else ordered)"

lemma order_pass_grows:
  "set ordered \<subseteq> set (order_pass ss ordered)
   \<and> set (order_pass ss ordered) \<subseteq> set ordered \<union> set (map service_name ss)
   \<and> length ordered \<le> length (order_pass ss ordered)
   \<and> (set (order_pass ss ordered) \<subseteq> set ordered \<longrightarrow> length (order_pass ss ordered) = length ordered)"
proof (induction ss arbitrary: ordered)
  case (Cons s ss)
  show ?case
    using Cons [of ordered] Cons [of "note_name (service_name s) ordered"]
    by (auto simp: note_name_def split: if_splits)
qed simp

function order_loop :: "plan_service list \<Rightarrow> string list \<Rightarrow> plan_error check" where
  "order_loop ss ordered =
     (let ordered' = order_pass ss ordered
      in if length ordered' = length ss then Ok ()
         else if length ordered' = length ordered then Err (Graph DependencyCycle)
         else order_loop ss ordered')"
  by pat_completeness auto
termination
proof (relation "measure (\<lambda>(ss, ordered). card (set (map service_name ss) - set ordered))")
  fix ss ordered x
  assume x: "x = order_pass ss ordered" and "length x \<noteq> length ordered"
  then have "\<not> set x \<subseteq> set ordered" "set ordered \<subseteq> set x" "set x \<subseteq> set ordered \<union> set (map service_name ss)"
    using order_pass_grows [of ordered ss] by auto
  then have "set (map service_name ss) - set x \<subset> set (map service_name ss) - set ordered" by blast
  then show "((ss, x), ss, ordered) \<in> measure (\<lambda>(ss, ordered). card (set (map service_name ss) - set ordered))"
    by (simp add: psubset_card_mono)
qed simp

declare order_loop.simps [simp del]

fun networks_declare :: "string list \<Rightarrow> string list \<Rightarrow> (plan_error, string list) result" where
  "networks_declare declared [] = Ok declared"
| "networks_declare declared (n # ns) =
     (if \<not> is_plain_name n \<or> n = ''default'' then Err (Network (NetworkNotPlain n))
      else if n \<in> set declared then Err (Network (NetworkDeclaredTwice n))
      else networks_declare (n # declared) ns)"

fun networks_join :: "string list \<Rightarrow> string \<Rightarrow> string list \<Rightarrow> string list \<Rightarrow> plan_error check" where
  "networks_join declared service seen [] = Ok ()"
| "networks_join declared service seen (n # ns) =
     (if n \<noteq> ''default'' \<and> n \<notin> set declared then Err (Network (NetworkUndeclared service n))
      else if n \<in> set seen then Err (Network (NetworkJoinedTwice service n))
      else networks_join declared service (n # seen) ns)"

definition on_default :: "plan_service \<Rightarrow> bool" where
  "on_default s = (networks s = [] \<or> list_ex (\<lambda>n. n = ''default'') (networks s))"

definition networks_service :: "string list \<Rightarrow> plan_service \<Rightarrow> plan_error check" where
  "networks_service declared s =
     and_then (networks_join declared (service_name s) [] (networks s)) (\<lambda>_.
       if \<not> on_default s \<and> (service_published s \<noteq> None \<or> service_companion s \<noteq> None)
       then Err (Network (PublishesOffDefault (service_name s)))
       else Ok ())"

definition validate_networks :: "deployment_plan \<Rightarrow> plan_error check" where
  "validate_networks p =
     and_then (networks_declare [] (internal_networks p)) (\<lambda>declared.
     and_then (each (networks_service declared) (services p)) (\<lambda>_.
       (case find (\<lambda>n. \<not> list_ex (\<lambda>s. n \<in> set (networks s)) (services p)) (sort declared) of
          Some unused \<Rightarrow> Err (Network (NetworkUnused unused))
        | None \<Rightarrow> Ok ())))"

definition validate :: "deployment_plan \<Rightarrow> plan_error check" where
  "validate p =
     (if \<not> is_valid_installed_app_id (plan_id p) then Err PlanIdInvalid
      else if services p = [] then Err NoServices
      else (let names = sort (map service_name (services p))
            in if length (remdups_adj names) \<noteq> length names then Err DuplicateServiceNames
               else
                 and_then (addresses_validate p) (\<lambda>_.
                 and_then (each (\<lambda>v. ensure (is_plain_name v) (VolumeNotPlain v)) (named_volumes p)) (\<lambda>_.
                 and_then (services_validate p (replicate (length (named_volumes p)) False) (services p))
                   (\<lambda>used.
                 and_then (order_loop (services p) []) (\<lambda>_.
                   (case position (\<lambda>u. \<not> u) used of
                      Some i \<Rightarrow> Err (VolumeNeverMounted (named_volumes p ! i))
                    | None \<Rightarrow> validate_networks p)))))))"

end
