(* ===== verification/Plan_Render.thy ===== *)
theory Plan_Render
  imports Plan
begin

text \<open>
  The Compose file of a plan and what is read back from one, \<^verbatim>\<open>src/plan.rs\<close>: \<^verbatim>\<open>to_compose\<close>,
  \<^verbatim>\<open>choose_free_port\<close>, \<^verbatim>\<open>published_host_port\<close>, \<^verbatim>\<open>companion_host_ports\<close> and \<^verbatim>\<open>plan_for_recipe\<close>.
\<close>

section \<open>Rendering\<close>

definition line :: "string \<Rightarrow> string" where
  "line l = l @ [newline]"

definition show_word :: "'w::len word \<Rightarrow> string" where
  "show_word w = show_nat (unat w)"

lemma show_word_code [code]: "show_word w = show_int (uint w)"
  by (simp add: show_word_def show_nat_unat)

text \<open>\<^verbatim>\<open>{:03}\<close>.\<close>

definition pad3 :: "string \<Rightarrow> string" where
  "pad3 s = replicate (3 - length s) (CHR ''0'') @ s"

definition render_some :: "('a \<Rightarrow> string) \<Rightarrow> 'a option \<Rightarrow> string" where
  "render_some f v = (case v of None \<Rightarrow> [] | Some x \<Rightarrow> f x)"

definition overrides_render :: "plan_overrides \<Rightarrow> string" where
  "overrides_render v =
     render_some (\<lambda>b. line (''    mem_limit: '' @ show_word b)) (memory_limit_bytes v)
     @ render_some (\<lambda>m. line (''    cpus: '' @ [dquote] @ show_word (m div 1000) @ ''.''
                              @ pad3 (show_word (m mod 1000)) @ [dquote])) (cpu_limit_millicores v)
     @ render_some (\<lambda>n. line (''    pids_limit: '' @ show_word n)) (pids_limit v)
     @ render_some health_render (healthcheck v)
     @ render_some (\<lambda>h. line (''    hostname: '' @ scalar h)) (hostname v)
     @ render_some (\<lambda>s. line (''    stop_signal: '' @ s)) (stop_signal v)
     @ render_some (args_render ''entrypoint'') (entrypoint v)
     @ render_some (args_render ''command'') (command v)"

definition image_render :: "plan_service \<Rightarrow> string" where
  "image_render s =
     (case digest s of
        Some d \<Rightarrow> line (''    image: '' @ service_image s @ ''@'' @ d)
      | None \<Rightarrow> line (''    image: '' @ service_image s))"

definition published_render :: "published_port \<Rightarrow> string" where
  "published_render q =
     line (''      - '' @ [dquote] @ ''127.0.0.1:'' @ show_word (host q) @ '':'' @ show_word (container q) @ [dquote])"

definition companion_render :: "published_port \<Rightarrow> string" where
  "companion_render q =
     line (''      - target: '' @ show_word (container q))
     @ line (''        published: '' @ [dquote] @ show_word (host q) @ [dquote])
     @ line ''        host_ip: 127.0.0.1''"

definition ports_render :: "plan_service \<Rightarrow> string" where
  "ports_render s =
     (if service_published s = None \<and> service_companion s = None then []
      else line ''    ports:'' @ render_some published_render (service_published s)
           @ render_some companion_render (service_companion s))"

definition environment_render :: "plan_service \<Rightarrow> string" where
  "environment_render s =
     (if environment s = [] then []
      else line ''    environment:''
           @ concat (map (\<lambda>kv. line (''      '' @ fst kv @ '': '' @ scalar (snd kv))) (environment s)))"

fun mounts_render :: "(plan_mount \<Rightarrow> ('e, string) result) \<Rightarrow> plan_mount list \<Rightarrow> ('e, string) result" where
  "mounts_render f [] = Ok []"
| "mounts_render f (m # ms) = and_then (f m) (\<lambda>t. and_then (mounts_render f ms) (\<lambda>ts. Ok (t @ ts)))"

definition dependency_condition :: "plan_service \<Rightarrow> string \<Rightarrow> string" where
  "dependency_condition s d =
     (if d \<in> set (healthy_dependencies (overrides s)) then ''service_healthy''
      else if d \<in> set (completed_dependencies (overrides s)) then ''service_completed_successfully''
      else ''service_started'')"

definition depends_render :: "plan_service \<Rightarrow> string" where
  "depends_render s =
     (let conditional = (healthy_dependencies (overrides s) \<noteq> [] \<or> completed_dependencies (overrides s) \<noteq> [])
      in if depends_on s = [] then []
         else line ''    depends_on:''
              @ concat (map (\<lambda>d.
                  if \<not> conditional then line (''      - '' @ d)
                  else line (''      '' @ d @ '':'') @ line (''        condition: '' @ dependency_condition s d))
                  (depends_on s)))"

definition section_render :: "string \<Rightarrow> (string \<Rightarrow> string) \<Rightarrow> string list \<Rightarrow> string" where
  "section_render title f xs = (if xs = [] then [] else line title @ concat (map f xs))"

definition service_head :: "deployment_plan \<Rightarrow> plan_service \<Rightarrow> string" where
  "service_head p s =
     line (''  '' @ service_name s @ '':'') @ image_render s
     @ line (''    container_name: '' @ container_name p s)
     @ (if is_job p (service_name s) then line (''    restart: '' @ [dquote] @ ''no'' @ [dquote])
        else line ''    restart: unless-stopped'')
     @ ports_render s @ environment_render s"

definition service_tail :: "plan_service \<Rightarrow> string" where
  "service_tail s =
     depends_render s @ section_render ''    networks:'' (\<lambda>n. line (''      - '' @ n)) (networks s)
     @ overrides_render (overrides s)"

definition service_render ::
  "(plan_mount \<Rightarrow> (plan_error, string) result) \<Rightarrow> deployment_plan \<Rightarrow> plan_service \<Rightarrow> (plan_error, string) result" where
  "service_render f p s =
     and_then (if mounts s = [] then Ok []
               else and_then (mounts_render f (mounts s)) (\<lambda>ms. Ok (line ''    volumes:'' @ ms)))
       (\<lambda>ms. Ok (service_head p s @ ms @ service_tail s))"

definition to_compose_with_mounts ::
  "(plan_mount \<Rightarrow> (plan_error, string) result) \<Rightarrow> deployment_plan \<Rightarrow> (plan_error, string) result" where
  "to_compose_with_mounts f p =
     and_then (validate p) (\<lambda>_.
     and_then (map_ok (service_render f p) (services p)) (\<lambda>ss.
       Ok (line ''services:'' @ concat ss
           @ section_render ''volumes:'' (\<lambda>v. line (''  '' @ v @ '':'')) (named_volumes p)
           @ section_render ''networks:''
               (\<lambda>n. line (''  '' @ n @ '':'') @ line ''    internal: true'') (internal_networks p))))"

definition to_compose :: "deployment_plan \<Rightarrow> (plan_error, string) result" where
  "to_compose p = to_compose_with_mounts (\<lambda>m. Ok (line (''      - '' @ mount_rendered m))) p"

section \<open>Ports\<close>

text \<open>The probe is a callback: whether nothing listens on a port.\<close>

fun scan_ports :: "(u16 \<Rightarrow> bool) \<Rightarrow> u16 \<Rightarrow> nat \<Rightarrow> nat \<Rightarrow> u16 option" where
  "scan_ports available start offset 0 = None"
| "scan_ports available start offset (Suc left) =
     (case checked_add start (of_nat offset) of
        Some port \<Rightarrow>
          if 1024 \<le> port \<and> available port then Some port
          else scan_ports available start (Suc offset) left
      | None \<Rightarrow> scan_ports available start (Suc offset) left)"

definition choose_free_port :: "(u16 \<Rightarrow> bool) \<Rightarrow> u16 \<Rightarrow> u16 \<Rightarrow> (plan_error, u16) result" where
  "choose_free_port available preferred attempts =
     (if 1024 \<le> preferred \<and> available preferred then Ok preferred
      else (case scan_ports available (max preferred 1024) 1 (unat attempts) of
              Some port \<Rightarrow> Ok port
            | None \<Rightarrow> Err (Address (NoFreePort preferred))))"

definition port_of_line :: "string \<Rightarrow> u16 option" where
  "port_of_line l =
     (case strip_prefix (''- '' @ [dquote] @ ''127.0.0.1:'') l of
        None \<Rightarrow> None
      | Some rest \<Rightarrow>
          (case strip_suffix [dquote] rest of
             None \<Rightarrow> None
           | Some v \<Rightarrow>
               (case split_once '':'' v of
                  None \<Rightarrow> None
                | Some (port, _) \<Rightarrow> parse_u16 port)))"

definition published_host_port :: "string \<Rightarrow> u16 option" where
  "published_host_port compose = find_map port_of_line (map trim (lines compose))"

definition service_of_line :: "string \<Rightarrow> string option" where
  "service_of_line l =
     (case strip_prefix ''  '' l of
        None \<Rightarrow> None
      | Some rest \<Rightarrow> if starts_with '' '' rest then None else strip_suffix '':'' rest)"

definition companion_of_line :: "string \<Rightarrow> u16 option" where
  "companion_of_line l =
     (case strip_prefix (''published: '' @ [dquote]) (trim l) of
        None \<Rightarrow> None
      | Some rest \<Rightarrow>
          (case strip_suffix [dquote] rest of None \<Rightarrow> None | Some port \<Rightarrow> parse_u16 port))"

fun companion_scan :: "(string, u16) btree \<Rightarrow> string option \<Rightarrow> string list \<Rightarrow> (string, u16) btree" where
  "companion_scan found service [] = found"
| "companion_scan found service (l # ls) =
     (case service_of_line l of
        Some n \<Rightarrow> companion_scan found (Some n) ls
      | None \<Rightarrow>
          if \<not> starts_with '' '' l then companion_scan found None ls
          else (case service of
                  None \<Rightarrow> companion_scan found service ls
                | Some current \<Rightarrow>
                    (case companion_of_line l of
                       Some port \<Rightarrow> companion_scan (bt_insert current port found) service ls
                     | None \<Rightarrow> companion_scan found service ls)))"

definition companion_host_ports :: "string \<Rightarrow> (string, u16) btree" where
  "companion_host_ports compose = companion_scan [] None (lines compose)"

section \<open>Reviewed recipes\<close>

record resource_limit =
  memory_bytes :: u64
  cpu_millicores :: u32
  pids :: u32

text \<open>The fields of a recipe that the bridge reads.\<close>

record recipe =
  recipe_id :: string
  recipe_image :: string
  index_digest :: string
  recipe_host_port :: u16
  recipe_container_port :: u16
  recipe_compose :: string
  resource_limits :: "resource_limit list"

text \<open>\<^verbatim>\<open>trim_matches(c)\<close>, \<^verbatim>\<open>trim_end_matches(c)\<close> and \<^verbatim>\<open>trim_start_matches(p)\<close>.\<close>

definition trim_end_matches :: "char \<Rightarrow> string \<Rightarrow> string" where
  "trim_end_matches c s = rev (dropWhile (\<lambda>d. d = c) (rev s))"

definition trim_matches :: "char \<Rightarrow> string \<Rightarrow> string" where
  "trim_matches c s = trim_end_matches c (dropWhile (\<lambda>d. d = c) s)"

function trim_start_matches :: "string \<Rightarrow> string \<Rightarrow> string" where
  "trim_start_matches p s =
     (if p = [] \<or> \<not> starts_with p s then s else trim_start_matches p (drop (length p) s))"
  by pat_completeness auto
termination
  by (relation "measure (\<lambda>(p, s). length s)") (auto simp: starts_with_iff)

declare trim_start_matches.simps [simp del]

definition volumes_of_compose :: "string \<Rightarrow> string list" where
  "volumes_of_compose c =
     (case split_once ([newline] @ ''volumes:'' @ [newline]) c of
        None \<Rightarrow> []
      | Some (_, tail) \<Rightarrow>
          map (\<lambda>l. trim_end_matches (CHR '':'') (trim l))
            (takeWhile (\<lambda>l. starts_with ''  '' l \<and> ends_with '':'' (trim_end l)) (lines tail)))"

fun environment_lines :: "string list \<Rightarrow> (string \<times> string) list" where
  "environment_lines [] = []"
| "environment_lines (l # ls) =
     (case strip_prefix ''      '' l of
        None \<Rightarrow> []
      | Some rest \<Rightarrow>
          (case split_once '': '' rest of
             None \<Rightarrow> []
           | Some (key, v) \<Rightarrow> (trim key, trim_matches dquote (trim v)) # environment_lines ls))"

definition environment_of_compose :: "string \<Rightarrow> (string \<times> string) list" where
  "environment_of_compose c =
     (case split_once (line ''    environment:'') c of
        None \<Rightarrow> []
      | Some (_, tail) \<Rightarrow> environment_lines (lines tail))"

definition mount_of_line :: "string \<Rightarrow> plan_mount option" where
  "mount_of_line l =
     (case split_once '':'' (trim_start_matches ''      - '' l) of
        None \<Rightarrow> None
      | Some (source, full) \<Rightarrow>
          (let ro = (strip_suffix '':ro'' full \<noteq> None);
               target = (case strip_suffix '':ro'' full of Some t \<Rightarrow> t | None \<Rightarrow> full)
           in case strip_prefix ''./'' source of
                Some d \<Rightarrow> Some (Directory d target ro)
              | None \<Rightarrow> Some (Volume source target ro)))"

definition mounts_of_compose :: "string \<Rightarrow> plan_mount list" where
  "mounts_of_compose c =
     (case split_once (line ''    volumes:'') c of
        None \<Rightarrow> []
      | Some (_, tail) \<Rightarrow>
          concat (map (\<lambda>l. case mount_of_line l of None \<Rightarrow> [] | Some m \<Rightarrow> [m])
            (takeWhile (starts_with ''      - '') (lines tail))))"

definition plan_for_recipe :: "recipe \<Rightarrow> (plan_error, deployment_plan) result" where
  "plan_for_recipe r =
     (let c = recipe_compose r;
          ov = (case resource_limits r of
                  [] \<Rightarrow> overrides_default
                | limit # _ \<Rightarrow> overrides_default\<lparr>memory_limit_bytes := Some (memory_bytes limit),
                    cpu_limit_millicores := Some (cpu_millicores limit), pids_limit := Some (pids limit)\<rparr>);
          p = \<lparr>plan_id = recipe_id r,
               services = [\<lparr>service_name = recipe_id r, service_image = recipe_image r,
                 digest = Some (index_digest r), environment = environment_of_compose c,
                 service_companion = None, networks = [],
                 service_published = Some \<lparr>host = recipe_host_port r, container = recipe_container_port r\<rparr>,
                 mounts = mounts_of_compose c, depends_on = [], overrides = ov\<rparr>],
               named_volumes = volumes_of_compose c, internal_networks = []\<rparr>
      in and_then (validate p) (\<lambda>_. Ok p))"

end
