(* ===== verification/Plan_Props.thy ===== *)
theory Plan_Props
  imports Plan_Render
begin

text \<open>
  What the validation of a plan guarantees (\<^verbatim>\<open>src/plan.rs\<close>): one published address, unique names and
  host ports, an acyclic dependency graph, declared and used volumes and networks, jobs that are
  awaited.
\<close>

section \<open>The dependency order\<close>

text \<open>A rank that falls along every dependency: the graph has no cycle.\<close>

definition ranked :: "plan_service list \<Rightarrow> (string \<Rightarrow> nat) \<Rightarrow> bool" where
  "ranked ss rank = (\<forall>s \<in> set ss. \<forall>d \<in> set (depends_on s). rank d < rank (service_name s))"

text \<open>Latest first, every name after all its dependencies.\<close>

fun well_ordered :: "plan_service list \<Rightarrow> string list \<Rightarrow> bool" where
  "well_ordered ss [] = True"
| "well_ordered ss (x # xs) =
     ((\<forall>s \<in> set ss. service_name s = x \<longrightarrow> set (depends_on s) \<subseteq> set xs) \<and> well_ordered ss xs)"

lemma order_pass_distinct: "distinct ordered \<Longrightarrow> distinct (order_pass ss ordered)"
  by (induction ss arbitrary: ordered) (auto simp: note_name_def)

lemma order_pass_well_ordered:
  assumes "distinct (map service_name all)"
  shows "set ss \<subseteq> set all \<Longrightarrow> well_ordered all ordered \<Longrightarrow> well_ordered all (order_pass ss ordered)"
proof (induction ss arbitrary: ordered)
  case (Cons s ss)
  have one: "t = s" if "t \<in> set all" "service_name t = service_name s" for t
    using that Cons.prems(1) assms by (auto simp: distinct_map inj_on_def)
  show ?case
    using Cons.prems by (auto simp: note_name_def list_all_iff intro!: Cons.IH dest!: one)
qed simp

lemma order_pass_takes:
  "s \<in> set ss \<Longrightarrow> set (depends_on s) \<subseteq> set ordered \<Longrightarrow> service_name s \<in> set (order_pass ss ordered)"
proof (induction ss arbitrary: ordered)
  case (Cons t ss)
  have step: "set ordered \<subseteq> set (if list_all (\<lambda>n. n \<in> set ordered) (depends_on t)
      then note_name (service_name t) ordered else ordered)" by (auto simp: note_name_def)
  show ?case
  proof (cases "s = t")
    case True
    with Cons.prems have "service_name s \<in> set (note_name (service_name t) ordered)"
      and "list_all (\<lambda>n. n \<in> set ordered) (depends_on t)"
      by (auto simp: note_name_def list_all_iff)
    with order_pass_grows [of "note_name (service_name t) ordered" ss] show ?thesis by auto
  next
    case False
    with Cons.prems step show ?thesis by (auto intro!: Cons.IH)
  qed
qed simp

lemma full_order:
  assumes "distinct (map service_name ss)" "distinct ordered" "set ordered \<subseteq> set (map service_name ss)"
  shows "length ordered = length ss \<longleftrightarrow> set ordered = set (map service_name ss)"
  using assms distinct_card [OF assms(1)] distinct_card [OF assms(2)]
  by (metis card_subset_eq finite_set length_map)

lemma order_loop_sound:
  "order_loop ss ordered = Ok () \<Longrightarrow> distinct (map service_name ss) \<Longrightarrow> distinct ordered
   \<Longrightarrow> set ordered \<subseteq> set (map service_name ss) \<Longrightarrow> well_ordered ss ordered
   \<Longrightarrow> \<exists>xs. distinct xs \<and> set xs = set (map service_name ss) \<and> well_ordered ss xs"
proof (induction ss ordered rule: order_loop.induct)
  case (1 ss ordered)
  let ?x = "order_pass ss ordered"
  have x: "distinct ?x" "set ?x \<subseteq> set (map service_name ss)" "well_ordered ss ?x"
    using 1(4,5,6) order_pass_grows [of ordered ss] order_pass_distinct
      order_pass_well_ordered [OF 1(3) subset_refl] by auto
  show ?case
  proof (cases "length ?x = length ss")
    case True
    with full_order [OF 1(3) x(1,2)] x show ?thesis by blast
  next
    case False
    with 1(2) have "length ?x \<noteq> length ordered" "order_loop ss ?x = Ok ()"
      by (auto simp: order_loop.simps [of ss ordered] Let_def split: if_splits)
    with 1(1) [OF refl False] 1(3) x show ?thesis by blast
  qed
qed

lemma order_loop_complete:
  "ranked ss rank \<Longrightarrow> distinct (map service_name ss) \<Longrightarrow> distinct ordered
   \<Longrightarrow> set ordered \<subseteq> set (map service_name ss)
   \<Longrightarrow> \<forall>s \<in> set ss. set (depends_on s) \<subseteq> set (map service_name ss)
   \<Longrightarrow> order_loop ss ordered = Ok ()"
proof (induction ss ordered rule: order_loop.induct)
  case (1 ss ordered)
  let ?x = "order_pass ss ordered"
  have x: "distinct ?x" "set ?x \<subseteq> set (map service_name ss)"
    using 1(4,5) order_pass_grows [of ordered ss] order_pass_distinct by auto
  have stuck: "length ?x = length ss" if "length ?x = length ordered"
  proof (rule ccontr)
    assume "length ?x \<noteq> length ss"
    have same: "set ?x = set ordered"
      using that order_pass_grows [of ordered ss] distinct_card [OF x(1)] distinct_card [OF 1(4)]
      by (metis card_subset_eq finite_set)
    define left where "left = {s \<in> set ss. service_name s \<notin> set ?x}"
    have "left \<noteq> {}" using full_order [OF 1(3) x] \<open>length ?x \<noteq> length ss\<close> x(2) by (auto simp: left_def)
    then obtain s where s: "s \<in> left" "\<And>t. t \<in> left \<Longrightarrow> rank (service_name s) \<le> rank (service_name t)"
      using ex_has_least_nat [of "\<lambda>s. s \<in> left" _ "\<lambda>s. rank (service_name s)"] by blast
    have "set (depends_on s) \<subseteq> set ordered"
    proof
      fix d assume d: "d \<in> set (depends_on s)"
      then obtain t where t: "t \<in> set ss" "service_name t = d" using 1(6) s(1) by (auto simp: left_def)
      have "rank d < rank (service_name s)" using 1(2) d s(1) by (auto simp: ranked_def left_def)
      with s(2) [of t] t have "t \<notin> left" by auto
      with t same show "d \<in> set ordered" by (auto simp: left_def)
    qed
    then have "service_name s \<in> set ?x" using order_pass_takes s(1) by (auto simp: left_def)
    with s(1) show False by (simp add: left_def)
  qed
  show ?case
    using 1(1) [OF refl _ _ 1(2,3) x 1(6)] stuck by (subst order_loop.simps) (auto simp: Let_def)
qed

lemma well_ordered_rank:
  assumes "well_ordered ss xs" "distinct xs" "s \<in> set ss" "service_name s \<in> set xs" "d \<in> set (depends_on s)"
  shows "d \<in> set xs \<and> length (dropWhile (\<lambda>n. n \<noteq> d) xs) < length (dropWhile (\<lambda>n. n \<noteq> service_name s) xs)"
  using assms
proof (induction xs)
  case (Cons x xs)
  show ?case
  proof (cases "service_name s = x")
    case True
    with Cons.prems have "d \<in> set xs" "d \<noteq> x" by auto
    then show ?thesis using True length_dropWhile_le [of "\<lambda>n. n \<noteq> d" xs] by auto
  next
    case False
    then have "service_name s \<in> set xs" using Cons.prems by auto
    then have "d \<in> set xs" "length (dropWhile (\<lambda>n. n \<noteq> d) xs) < length (dropWhile (\<lambda>n. n \<noteq> service_name s) xs)"
      using Cons by auto
    then show ?thesis using False Cons.prems(2) by auto
  qed
qed simp

lemma order_loop_iff:
  assumes "distinct (map service_name ss)"
    and "\<forall>s \<in> set ss. set (depends_on s) \<subseteq> set (map service_name ss)"
  shows "order_loop ss [] = Ok () \<longleftrightarrow> (\<exists>rank. ranked ss rank)"
proof
  assume "order_loop ss [] = Ok ()"
  then obtain xs where xs: "distinct xs" "set xs = set (map service_name ss)" "well_ordered ss xs"
    using order_loop_sound [of ss "[]"] assms(1) by auto
  have "ranked ss (\<lambda>n. length (dropWhile (\<lambda>m. m \<noteq> n) xs))"
    using well_ordered_rank [OF xs(3,1)] xs(2) by (auto simp: ranked_def)
  then show "\<exists>rank. ranked ss rank" by blast
qed (use order_loop_complete [OF _ assms(1) _ _ assms(2), of _ "[]"] in auto)

section \<open>What the checks establish\<close>

lemma check_some_Ok_iff [result_simps]: "check_some f v = Ok u \<longleftrightarrow> (\<forall>x. v = Some x \<longrightarrow> f x = Ok ())"
  by (cases v) (auto simp: check_some_def)

lemma sorted_distinct_adj: "sorted xs \<Longrightarrow> distinct_adj xs \<Longrightarrow> sorted_wrt (<) xs"
  for xs :: "'a::linorder list"
proof (induction xs)
  case (Cons x xs)
  then show ?case by (cases xs) (auto simp: order.strict_iff_order)
qed simp

lemma distinct_sort_dedup: "length (remdups_adj (sort xs)) = length (sort xs) \<longleftrightarrow> distinct xs"
  for xs :: "'a::linorder list"
proof
  assume "length (remdups_adj (sort xs)) = length (sort xs)"
  then have "distinct_adj (sort xs)" by (simp only: distinct_adj_conv_length_remdups_adj)
  then show "distinct xs"
    using sorted_distinct_adj [of "sort xs"] strict_sorted_iff [of "sort xs"] by simp
qed (simp add: remdups_adj_distinct)

lemma sorted_dedup: "sorted_wrt (<) (remdups_adj (sort xs))"
  for xs :: "'a::linorder list"
  by (rule sorted_distinct_adj) (simp_all add: sorted_remdups_adj distinct_adj_remdups_adj)

lemma check_companions_iff:
  "check_companions hosts cs = Ok () \<longleftrightarrow>
     list_all (\<lambda>(s, q). 1024 \<le> host q \<and> container q \<noteq> 0
        \<and> (\<forall>m. service_published s = Some m \<longrightarrow> container m \<noteq> container q)) cs
     \<and> distinct (map (\<lambda>c. host (snd c)) cs) \<and> set (map (\<lambda>c. host (snd c)) cs) \<inter> set hosts = {}"
proof (induction hosts cs rule: check_companions.induct)
  case (2 hosts s port rest)
  show ?case
    using 2 by (cases "service_published s") (auto simp: not_less)
qed simp

definition host_ports :: "deployment_plan \<Rightarrow> u16 list" where
  "host_ports p =
     concat (map (\<lambda>s. case service_published s of None \<Rightarrow> [] | Some q \<Rightarrow> [host q]) (services p))
     @ map (\<lambda>c. host (snd c)) (companions p)"

lemma one_published:
  "concat (map (\<lambda>s. case service_published s of None \<Rightarrow> [] | Some q \<Rightarrow> [q]) ss) = [port]
   \<Longrightarrow> \<exists>pre s post. ss = pre @ s # post \<and> service_published s = Some port
         \<and> (\<forall>t \<in> set (pre @ post). service_published t = None)"
proof (induction ss)
  case (Cons s ss)
  show ?case
  proof (cases "service_published s")
    case None
    with Cons obtain pre t post where "ss = pre @ t # post" "service_published t = Some port"
      "\<forall>t \<in> set (pre @ post). service_published t = None" by auto
    with None show ?thesis by (intro exI [of _ "s # pre"] exI [of _ t] exI [of _ post]) auto
  next
    case (Some q)
    with Cons.prems have "q = port" "\<forall>t \<in> set ss. service_published t = None"
      by (auto split: option.splits)
    with Some show ?thesis by (intro exI [of _ "[]"] exI [of _ s] exI [of _ ss]) auto
  qed
qed simp

lemma addresses_facts:
  assumes "addresses_validate p = Ok ()"
  obtains pre s post port where "services p = pre @ s # post" "service_published s = Some port"
    "\<forall>t \<in> set (pre @ post). service_published t = None" "1024 \<le> host port"
    "length (companions p) \<le> 2" "check_companions [host port] (companions p) = Ok ()"
proof -
  let ?ports = "concat (map (\<lambda>s. case service_published s of None \<Rightarrow> [] | Some q \<Rightarrow> [q]) (services p))"
  have "length ?ports = 1" and rest: "1024 \<le> host (hd ?ports)" "length (companions p) \<le> 2"
      "check_companions [host (hd ?ports)] (companions p) = Ok ()"
    using assms by (auto simp: addresses_validate_def Let_def MAX_COMPANION_PORTS_def not_less split: if_splits)
  then obtain port where "?ports = [port]" by (metis One_nat_def length_Suc_conv length_0_conv)
  with one_published [OF this] rest that show thesis by auto
qed

lemma validate_facts:
  assumes "validate p = Ok ()"
  shows "is_valid_installed_app_id (plan_id p)" "distinct (map service_name (services p))"
    "addresses_validate p = Ok ()" "\<forall>v \<in> set (named_volumes p). is_plain_name v"
    "\<exists>used. services_validate p (replicate (length (named_volumes p)) False) (services p) = Ok used
       \<and> list_all (\<lambda>u. u) used"
    "order_loop (services p) [] = Ok ()" "validate_networks p = Ok ()"
  using assms distinct_sort_dedup [of "map service_name (services p)"]
  by (auto simp: validate_def Let_def and_then_Ok_iff each_Ok_iff position_None_iff list_all_iff
      split: if_splits option.splits)

lemma use_volumes_length: "use_volumes vols used ms = Ok used' \<Longrightarrow> length used' = length used"
  by (induction vols used ms rule: use_volumes.induct) (auto split: plan_mount.splits option.splits)

lemma use_volumes_declared: "use_volumes vols used ms = Ok used' \<Longrightarrow> Volume n t r \<in> set ms \<Longrightarrow> n \<in> set vols"
proof (induction vols used ms rule: use_volumes.induct)
  case (2 vols used m ms)
  then show ?case
    using position_Some [of "\<lambda>v. v = n" vols] by (auto split: plan_mount.splits option.splits)
qed simp

definition marks :: "string list \<Rightarrow> plan_mount list \<Rightarrow> nat \<Rightarrow> bool" where
  "marks vols ms i = (\<exists>n t r. Volume n t r \<in> set ms \<and> position (\<lambda>v. v = n) vols = Some i)"

lemma marks_Cons:
  "marks vols (m # ms) i \<longleftrightarrow> marks vols ms i \<or> (\<exists>n t r. m = Volume n t r \<and> position (\<lambda>v. v = n) vols = Some i)"
  by (auto simp: marks_def)

lemma use_volumes_used:
  "use_volumes vols used ms = Ok used' \<Longrightarrow> i < length used \<Longrightarrow> used' ! i \<Longrightarrow> used ! i \<or> marks vols ms i"
proof (induction vols used ms rule: use_volumes.induct)
  case (2 vols used m ms)
  show ?case
  proof (cases m)
    case (Directory a b c)
    then show ?thesis using 2(1) [OF Directory] 2(4-) by (auto simp: marks_Cons)
  next
    case (Volume n t r)
    then obtain j where j: "position (\<lambda>v. v = n) vols = Some j"
      and u: "use_volumes vols (used[j := True]) ms = Ok used'"
      using 2(4) by (auto split: option.splits)
    from 2(2) [OF Volume j u] 2(5,6) have "used[j := True] ! i \<or> marks vols ms i" by simp
    then show ?thesis using Volume j 2(5) by (cases "i = j") (auto simp: marks_Cons)
  next
    case (Host a b c)
    then show ?thesis using 2(3) [OF Host] 2(4-) by (auto simp: marks_Cons)
  qed
qed simp

lemma use_volumes_facts:
  assumes "use_volumes vols used ms = Ok used'" "length used = length vols"
  shows "length used' = length vols \<and> (\<forall>n t r. Volume n t r \<in> set ms \<longrightarrow> n \<in> set vols)
    \<and> (\<forall>i < length vols. used' ! i \<longrightarrow> used ! i
         \<or> (\<exists>n t r. Volume n t r \<in> set ms \<and> position (\<lambda>v. v = n) vols = Some i))"
  using assms use_volumes_length [OF assms(1)] use_volumes_declared [OF assms(1)] use_volumes_used [OF assms(1)]
  unfolding marks_def by metis

lemma services_validate_facts:
  assumes "services_validate p used ss = Ok used'" "length used = length (named_volumes p)"
  shows "length used' = length (named_volumes p) \<and> (\<forall>s \<in> set ss. service_checks p s = Ok ())
    \<and> (\<forall>s \<in> set ss. \<forall>n t r. Volume n t r \<in> set (mounts s) \<longrightarrow> n \<in> set (named_volumes p))
    \<and> (\<forall>i < length (named_volumes p). used' ! i \<longrightarrow> used ! i
         \<or> (\<exists>s \<in> set ss. \<exists>n t r. Volume n t r \<in> set (mounts s) \<and> position (\<lambda>v. v = n) (named_volumes p) = Some i))"
  using assms
proof (induction ss arbitrary: used)
  case (Cons s ss)
  then obtain u where c: "service_checks p s = Ok ()" and u: "use_volumes (named_volumes p) used (mounts s) = Ok u"
    and r: "services_validate p u ss = Ok used'" by (auto simp: and_then_Ok_iff)
  note f = use_volumes_facts [OF u Cons.prems(2)]
  from Cons.IH [OF r] f have ih:
    "length used' = length (named_volumes p)" "\<forall>s \<in> set ss. service_checks p s = Ok ()"
    "\<forall>s \<in> set ss. \<forall>n t r. Volume n t r \<in> set (mounts s) \<longrightarrow> n \<in> set (named_volumes p)"
    "\<forall>i < length (named_volumes p). used' ! i \<longrightarrow> u ! i
         \<or> (\<exists>s \<in> set ss. \<exists>n t r. Volume n t r \<in> set (mounts s) \<and> position (\<lambda>v. v = n) (named_volumes p) = Some i)"
    by simp_all
  from f have f': "\<And>n t r. Volume n t r \<in> set (mounts s) \<Longrightarrow> n \<in> set (named_volumes p)"
    "\<forall>i < length (named_volumes p). u ! i \<longrightarrow> used ! i
         \<or> (\<exists>n t r. Volume n t r \<in> set (mounts s) \<and> position (\<lambda>v. v = n) (named_volumes p) = Some i)"
    by blast+
  show ?case
  proof (intro conjI allI impI)
    fix i assume i: "i < length (named_volumes p)" "used' ! i"
    then show "used ! i \<or> (\<exists>s \<in> set (s # ss). \<exists>n t r. Volume n t r \<in> set (mounts s)
        \<and> position (\<lambda>v. v = n) (named_volumes p) = Some i)"
      using ih(4) f'(2) by (meson list.set_intros)
  qed (use ih c f'(1) in auto)
qed simp

lemma position_eq_distinct:
  "(\<forall>i < length xs. position (\<lambda>v. v = xs ! i) xs = Some i) \<Longrightarrow> distinct xs"
  by (auto simp: distinct_conv_nth) (metis option.inject)

text \<open>What every service of a validated plan has passed.\<close>

lemma validate_services:
  assumes "validate p = Ok ()"
  shows "s \<in> set (services p) \<Longrightarrow> service_checks p s = Ok ()"
    and "s \<in> set (services p) \<Longrightarrow> Volume n t r \<in> set (mounts s) \<Longrightarrow> n \<in> set (named_volumes p)"
    and "distinct (named_volumes p)"
    and "v \<in> set (named_volumes p) \<Longrightarrow> \<exists>s \<in> set (services p). \<exists>t r. Volume v t r \<in> set (mounts s)"
proof -
  let ?vols = "named_volumes p"
  obtain used where u: "services_validate p (replicate (length ?vols) False) (services p) = Ok used"
    and all: "list_all (\<lambda>u. u) used" using validate_facts(5) [OF assms] by blast
  note f = services_validate_facts [OF u, simplified]
  have some: "\<exists>s \<in> set (services p). \<exists>n t r. Volume n t r \<in> set (mounts s) \<and> position (\<lambda>v. v = n) ?vols = Some i"
    if "i < length ?vols" for i
    using f that all by (auto simp: list_all_length)
  have each: "\<exists>s \<in> set (services p). \<exists>t r. Volume (?vols ! i) t r \<in> set (mounts s)
      \<and> position (\<lambda>v. v = ?vols ! i) ?vols = Some i" if lt: "i < length ?vols" for i
  proof -
    obtain s n t r where s: "s \<in> set (services p)" "Volume n t r \<in> set (mounts s)"
      and i: "position (\<lambda>v. v = n) ?vols = Some i" using some [OF lt] by blast
    from position_Some [OF i] have "?vols ! i = n" by simp
    with s i show ?thesis by blast
  qed
  show "s \<in> set (services p) \<Longrightarrow> service_checks p s = Ok ()" using f by blast
  show "s \<in> set (services p) \<Longrightarrow> Volume n t r \<in> set (mounts s) \<Longrightarrow> n \<in> set ?vols" using f by blast
  show "distinct ?vols" using each by (intro position_eq_distinct) blast
  show "v \<in> set ?vols \<Longrightarrow> \<exists>s \<in> set (services p). \<exists>t r. Volume v t r \<in> set (mounts s)"
    using each by (metis in_set_conv_nth)
qed

lemma service_checks_facts:
  assumes "service_checks p s = Ok ()"
  shows "service_validate s = Ok ()"
    "d \<in> set (completed_dependencies (overrides s)) \<Longrightarrow>
       d \<in> set (depends_on s) \<and> d \<notin> set (healthy_dependencies (overrides s))"
    "job_validate p s = Ok ()"
    "d \<in> set (healthy_dependencies (overrides s)) \<Longrightarrow> d \<in> set (depends_on s)
       \<and> (\<forall>t. find_service p d = Some t \<longrightarrow> \<not> health_disabled t)"
    "d \<in> set (depends_on s) \<Longrightarrow> d \<noteq> service_name s \<and> d \<in> set (map service_name (services p))"
  using assms
  by (auto simp: service_checks_def completed_validate_def healthy_validate_def dependencies_validate_def
      and_then_Ok_iff each_Ok_iff list_ex_iff split: if_splits option.splits)

lemma service_validate_facts:
  assumes "service_validate s = Ok ()"
  shows "overrides_validate (overrides s) = Ok ()" "is_plain_name (service_name s)"
    "image_validate (service_image s) = Ok ()" "\<forall>d. digest s = Some d \<longrightarrow> is_digest d"
    "\<forall>kv \<in> set (environment s). is_environment_key (fst kv) \<and> \<not> has_control (snd kv)"
    "\<forall>m \<in> set (mounts s). mount_validate m = Ok ()"
  using assms
  by (auto simp: service_validate_def and_then_Ok_iff each_Ok_iff check_some_Ok_iff environment_validate_def
      split: if_splits)

section \<open>A concrete plan\<close>

text \<open>A web app with a database it waits for, a one-shot job and a second address.\<close>

definition sample_service :: "string \<Rightarrow> plan_service" where
  "sample_service n = \<lparr>service_name = n, service_image = ''img:1'', digest = None, environment = [],
     service_companion = None, networks = [], service_published = None, mounts = [], depends_on = [],
     overrides = overrides_default\<rparr>"

definition sample_plan :: deployment_plan where
  "sample_plan = \<lparr>plan_id = ''app'',
     services =
       [(sample_service ''app'')\<lparr>service_published := Some \<lparr>host = 5230, container = 80\<rparr>,
          environment := [(''MODE'', ''true'')], mounts := [Directory ''data'' ''/data'' False],
          depends_on := [''db'', ''migrate''],
          overrides := overrides_default\<lparr>healthy_dependencies := [''db''],
            completed_dependencies := [''migrate'']\<rparr>\<rparr>,
        (sample_service ''db'')\<lparr>mounts := [Volume ''pg'' ''/var/lib/pg'' False],
          service_companion := Some \<lparr>host = 9000, container = 9000\<rparr>,
          overrides := overrides_default\<lparr>healthcheck := Some (health_default\<lparr>test := Some (Test_shell ''pg_isready''),
            interval := Some ''1m30s''\<rparr>)\<rparr>\<rparr>,
        (sample_service ''migrate'')\<lparr>depends_on := [''db'']\<rparr>],
     named_volumes = [''pg''], internal_networks = []\<rparr>"

lemma sample_plan_valid: "validate sample_plan = Ok ()"
  by code_simp

section \<open>Properties\<close>

text \<open>
  Claim C7. A validated plan publishes exactly one address, \<^verbatim>\<open>published\<close> finds it, it has at most two
  second addresses, all host ports are different and at least 1024, and service names are unique.
\<close>

theorem plan_one_address:
  assumes "validate p = Ok ()"
  shows "\<exists>s port. published p = Some (s, port) \<and> s \<in> set (services p)
    \<and> (\<forall>t \<in> set (services p). service_published t \<noteq> None \<longrightarrow> t = s)
    \<and> (\<forall>h \<in> set (host_ports p). 1024 \<le> h) \<and> distinct (host_ports p)
    \<and> length (companions p) \<le> 2 \<and> distinct (map service_name (services p))"
proof -
  obtain pre s post port where a: "services p = pre @ s # post" "service_published s = Some port"
      "\<forall>t \<in> set (pre @ post). service_published t = None" "1024 \<le> host port"
      "length (companions p) \<le> 2" "check_companions [host port] (companions p) = Ok ()"
    using addresses_facts [OF validate_facts(3) [OF assms]] .
  have pub: "find_map (\<lambda>s. map_option (Pair s) (service_published s)) (us @ s # post) = Some (s, port)"
    if "\<forall>t \<in> set us. service_published t = None" for us
    using that a(2) by (induction us) auto
  have quiet: "concat (map (\<lambda>s. case service_published s of None \<Rightarrow> [] | Some q \<Rightarrow> [host q]) us) = []"
    if "\<forall>t \<in> set us. service_published t = None" for us
    using that by (induction us) auto
  have "host_ports p = host port # map (\<lambda>c. host (snd c)) (companions p)"
    using a(1,2,3) by (simp add: host_ports_def quiet del: concat_eq_Nil_conv)
  then have "distinct (host_ports p)" "\<forall>h \<in> set (host_ports p). 1024 \<le> h"
    using a(4,6) by (auto simp: check_companions_iff list_all_iff)
  with pub [of pre] a validate_facts(2) [OF assms] show ?thesis
    by (intro exI [of _ s] exI [of _ port]) (auto simp: published_def)
qed

theorem plan_one_address_witness:
  "\<exists>s port. published sample_plan = Some (s, port) \<and> host port = 5230 \<and> host_ports sample_plan = [5230, 9000]
     \<and> distinct (host_ports sample_plan)"
proof -
  have "map_option (\<lambda>x. host (snd x)) (published sample_plan) = Some 5230" "host_ports sample_plan = [5230, 9000]"
    by code_simp+
  with plan_one_address [OF sample_plan_valid] show ?thesis by auto
qed

text \<open>
  Claim C8. The ordering loop of \<^verbatim>\<open>validate\<close> terminates on every list of services and, where names are
  unique and every dependency is a service, accepts exactly the graphs without a cycle: those with a
  rank that falls along every dependency.
\<close>

theorem order_loop_exact:
  assumes "distinct (map service_name ss)"
    and "\<forall>s \<in> set ss. set (depends_on s) \<subseteq> set (map service_name ss)"
  shows "order_loop ss [] = (if \<exists>rank. ranked ss rank then Ok () else Err (Graph DependencyCycle))"
proof -
  have "order_loop ss xs = Ok () \<or> order_loop ss xs = Err (Graph DependencyCycle)" for xs
    by (induction ss xs rule: order_loop.induct) (subst (1 2) order_loop.simps, simp add: Let_def)
  with order_loop_iff [OF assms] show ?thesis by auto
qed

theorem order_loop_exact_witness:
  "order_loop [(sample_service ''a'')\<lparr>depends_on := [''b'']\<rparr>, (sample_service ''b'')\<lparr>depends_on := [''a'']\<rparr>] []
     = Err (Graph DependencyCycle)"
proof -
  let ?ss = "[(sample_service ''a'')\<lparr>depends_on := [''b'']\<rparr>, (sample_service ''b'')\<lparr>depends_on := [''a'']\<rparr>]"
  have "\<not> ranked ?ss rank" for rank
    by (auto simp: ranked_def sample_service_def)
  then show ?thesis
    using order_loop_exact [of ?ss] by (simp add: sample_service_def)
qed

text \<open>
  The services of a validated plan can be started in some order: every dependency is a
  service of the plan and the dependency graph has no cycle.
\<close>

theorem plan_startable:
  assumes "validate p = Ok ()"
  shows "(\<exists>rank. ranked (services p) rank)
    \<and> list_all (\<lambda>s. set (depends_on s) \<subseteq> set (map service_name (services p))) (services p)"
proof -
  have d: "\<forall>s \<in> set (services p). set (depends_on s) \<subseteq> set (map service_name (services p))"
    using service_checks_facts(5) validate_services(1) [OF assms] by (meson subsetI)
  with order_loop_iff [OF validate_facts(2) [OF assms] d] validate_facts(6) [OF assms]
  show ?thesis by (auto simp: list_all_iff)
qed

theorem plan_startable_witness: "\<exists>rank. ranked (services sample_plan) rank"
  using plan_startable [OF sample_plan_valid] by blast

text \<open>
  In a validated plan named volumes are unique plain names, every volume a service mounts is
  declared, and every declared volume is mounted by some service.
\<close>

theorem plan_volumes:
  assumes "validate p = Ok ()"
  shows "distinct (named_volumes p) \<and> list_all is_plain_name (named_volumes p)
    \<and> (\<forall>v. v \<in> set (named_volumes p) \<longleftrightarrow>
          (\<exists>s \<in> set (services p). \<exists>t r. Volume v t r \<in> set (mounts s)))"
  using validate_services(2-4) [OF assms] validate_facts(4) [OF assms] by (auto simp: list_all_iff)

theorem plan_volumes_witness:
  "distinct (named_volumes sample_plan)
   \<and> (\<exists>s \<in> set (services sample_plan). \<exists>t r. Volume ''pg'' t r \<in> set (mounts s))"
proof -
  have "''pg'' \<in> set (named_volumes sample_plan)" by (simp add: sample_plan_def)
  with plan_volumes [OF sample_plan_valid] show ?thesis by blast
qed

lemma contains_parent: "ParentDir \<in> set (parse_path s) \<Longrightarrow> contains ''..'' s"
proof -
  assume "ParentDir \<in> set (parse_path s)"
  then have "''..'' \<in> set (split_char (CHR ''/'') s)"
    by (auto simp: parse_path_def Let_def piece_component_def split: if_splits)
  then obtain pre post where "split_char (CHR ''/'') s = pre @ ''..'' # post" by (meson split_list)
  then have "s = join ''/'' (pre @ ''..'' # post)" by (metis join_split_char)
  moreover have "\<exists>a b. join ''/'' (us @ ''..'' # vs) = a @ ''..'' @ b" for us vs
  proof (induction us)
    case Nil
    then show ?case by (cases vs) (auto intro: exI [of _ "[]"])
  next
    case (Cons u us)
    then obtain a b where ab: "join ''/'' (us @ ''..'' # vs) = a @ ''..'' @ b" by blast
    have "join ''/'' ((u # us) @ ''..'' # vs) = u @ ''/'' @ join ''/'' (us @ ''..'' # vs)"
      by (cases us) simp_all
    then show ?case unfolding ab by (intro exI [of _ "u @ ''/'' @ a"] exI [of _ b]) simp
  qed
  ultimately show ?thesis by (auto simp: contains_iff)
qed

lemma plain_not_absolute: "\<not> starts_with ''/'' s \<Longrightarrow> \<not> is_absolute (parse_path s)"
  by (auto simp: is_absolute_def parse_path_def Let_def piece_component_def split: list.splits component.splits if_splits)

text \<open>
  Every mount of a validated plan stays where it is allowed: its target is an absolute path
  without \<^verbatim>\<open>..\<close>, and the source of a directory mount is a relative path without \<^verbatim>\<open>..\<close>, so that it
  names something inside the project directory.
\<close>

theorem plan_mounts_confined:
  assumes "validate p = Ok ()"
  shows "\<forall>s \<in> set (services p). \<forall>m \<in> set (mounts s).
      is_absolute (parse_path (mount_target m)) \<and> \<not> has_parent_dir (parse_path (mount_target m))
      \<and> (case m of Directory source _ _ \<Rightarrow>
            source \<noteq> [] \<and> \<not> is_absolute (parse_path source) \<and> \<not> has_parent_dir (parse_path source)
          | _ \<Rightarrow> True)"
proof (intro ballI)
  fix s m assume s: "s \<in> set (services p)" and m: "m \<in> set (mounts s)"
  have "mount_validate m = Ok ()"
    using service_validate_facts(6) [OF service_checks_facts(1) [OF validate_services(1) [OF assms s]]] m by blast
  then show "is_absolute (parse_path (mount_target m)) \<and> \<not> has_parent_dir (parse_path (mount_target m))
      \<and> (case m of Directory source _ _ \<Rightarrow>
            source \<noteq> [] \<and> \<not> is_absolute (parse_path source) \<and> \<not> has_parent_dir (parse_path source)
          | _ \<Rightarrow> True)"
    using contains_parent plain_not_absolute
    by (cases m) (auto simp: mount_validate_def Let_def has_parent_dir_def list_ex_iff is_absolute_def
        parse_path_def split: if_splits)
qed

theorem plan_mounts_confined_witness:
  "\<not> has_parent_dir (parse_path (mount_source (hd (mounts (hd (services sample_plan))))))"
  using plan_mounts_confined [OF sample_plan_valid] by (simp add: sample_plan_def)

text \<open>
  A one-shot job of a validated plan publishes no address, and every service that depends on
  it waits for it to finish; what a service waits for to be healthy has its health check enabled.
\<close>

theorem plan_jobs_awaited:
  assumes "validate p = Ok ()" "s \<in> set (services p)"
  shows "(is_job p (service_name s) \<longrightarrow> service_published s = None \<and> service_companion s = None
      \<and> (\<forall>t \<in> set (services p). service_name s \<in> set (depends_on t)
           \<longrightarrow> service_name s \<in> set (completed_dependencies (overrides t))))
    \<and> (\<forall>d \<in> set (healthy_dependencies (overrides s)). \<exists>t \<in> set (services p). service_name t = d \<and> \<not> health_disabled t)"
proof -
  note c = validate_services(1) [OF assms]
  have job: "is_job p (service_name s) \<Longrightarrow> service_published s = None \<and> service_companion s = None
      \<and> (\<forall>t \<in> set (services p). service_name s \<in> set (depends_on t)
           \<longrightarrow> service_name s \<in> set (completed_dependencies (overrides t)))"
    using service_checks_facts(3) [OF c]
    by (auto simp: job_validate_def find_None_iff split: if_splits option.splits)
  have healthy: "\<exists>t \<in> set (services p). service_name t = d \<and> \<not> health_disabled t"
    if "d \<in> set (healthy_dependencies (overrides s))" for d
  proof -
    note h = service_checks_facts(4) [OF c that]
    then have "d \<in> set (map service_name (services p))" using service_checks_facts(5) [OF c] by blast
    then obtain t where "find_service p d = Some t"
      by (cases "find_service p d") (auto simp: find_service_def find_None_iff)
    moreover from this have "t \<in> set (services p)" "service_name t = d"
      by (auto simp: find_service_def find_Some_iff)
    ultimately show ?thesis using h by blast
  qed
  from job healthy show ?thesis by blast
qed

theorem plan_jobs_awaited_witness:
  "is_job sample_plan ''migrate'' \<and> service_published (services sample_plan ! 2) = None"
proof -
  have j: "is_job sample_plan ''migrate''" "service_name (services sample_plan ! 2) = ''migrate''"
    "services sample_plan ! 2 \<in> set (services sample_plan)"
    by (simp_all add: sample_plan_def is_job_def sample_service_def)
  with plan_jobs_awaited [OF sample_plan_valid j(3)] show ?thesis by simp
qed

end
