(* ===== verification/Compose_Lines.thy ===== *)
theory Compose_Lines
  imports Plan_Props
begin

text \<open>
  The Compose file as a list of lines: the renderer of \<^verbatim>\<open>src/plan.rs\<close> refines it, and the readers of
  a retained file (\<^verbatim>\<open>published_host_port\<close>, \<^verbatim>\<open>companion_host_ports\<close>) find in it what was rendered.
\<close>

section \<open>The lines of a rendered plan\<close>

definition text_of :: "string list \<Rightarrow> string" where
  "text_of ls = concat (map line ls)"

definition lines_some :: "('a \<Rightarrow> string list) \<Rightarrow> 'a option \<Rightarrow> string list" where
  "lines_some f v = (case v of None \<Rightarrow> [] | Some x \<Rightarrow> f x)"

definition args_lines :: "string \<Rightarrow> plan_args \<Rightarrow> string list" where
  "args_lines field a =
     (case a of
        Shell l \<Rightarrow> [''    '' @ field @ '': '' @ scalar l]
      | Exec ps \<Rightarrow> (''    '' @ field @ '':'') # map (\<lambda>p. ''      - '' @ scalar p) ps)"

definition health_test_lines :: "health_test \<Rightarrow> string list" where
  "health_test_lines t =
     (case t of
        Disabled \<Rightarrow> [''      disable: true'']
      | Test_shell c \<Rightarrow> [''      test: ['' @ [dquote] @ ''CMD-SHELL'' @ [dquote] @ '', '' @ scalar c @ '']'']
      | Test_exec ps \<Rightarrow> [''      test:'', ''        - '' @ [dquote] @ ''CMD'' @ [dquote]]
                        @ map (\<lambda>p. ''        - '' @ scalar p) ps)"

definition health_field_lines :: "string \<times> string option \<Rightarrow> string list" where
  "health_field_lines kv = lines_some (\<lambda>v. [''      '' @ fst kv @ '': '' @ scalar v]) (snd kv)"

definition health_lines :: "plan_healthcheck \<Rightarrow> string list" where
  "health_lines h =
     ''    healthcheck:'' # lines_some health_test_lines (test h)
     @ concat (map health_field_lines
         [(''interval'', interval h), (''timeout'', timeout h),
          (''start_period'', start_period h), (''start_interval'', start_interval h)])
     @ lines_some (\<lambda>r. [''      retries: '' @ show_word r]) (retries h)
     @ (if h = health_default then [''      disable: false''] else [])"

definition overrides_lines :: "plan_overrides \<Rightarrow> string list" where
  "overrides_lines v =
     lines_some (\<lambda>b. [''    mem_limit: '' @ show_word b]) (memory_limit_bytes v)
     @ lines_some (\<lambda>m. [''    cpus: '' @ [dquote] @ show_word (m div 1000) @ ''.''
                         @ pad3 (show_word (m mod 1000)) @ [dquote]]) (cpu_limit_millicores v)
     @ lines_some (\<lambda>n. [''    pids_limit: '' @ show_word n]) (pids_limit v)
     @ lines_some health_lines (healthcheck v)
     @ lines_some (\<lambda>h. [''    hostname: '' @ scalar h]) (hostname v)
     @ lines_some (\<lambda>s. [''    stop_signal: '' @ s]) (stop_signal v)
     @ lines_some (args_lines ''entrypoint'') (entrypoint v)
     @ lines_some (args_lines ''command'') (command v)"

definition image_line :: "plan_service \<Rightarrow> string" where
  "image_line s =
     ''    image: '' @ service_image s @ (case digest s of Some d \<Rightarrow> ''@'' @ d | None \<Rightarrow> [])"

definition published_line :: "published_port \<Rightarrow> string" where
  "published_line q =
     ''      - '' @ [dquote] @ ''127.0.0.1:'' @ show_word (host q) @ '':'' @ show_word (container q) @ [dquote]"

definition companion_lines :: "published_port \<Rightarrow> string list" where
  "companion_lines q =
     [''      - target: '' @ show_word (container q),
      ''        published: '' @ [dquote] @ show_word (host q) @ [dquote],
      ''        host_ip: 127.0.0.1'']"

definition ports_lines :: "plan_service \<Rightarrow> string list" where
  "ports_lines s =
     (if service_published s = None \<and> service_companion s = None then []
      else ''    ports:'' # lines_some (\<lambda>q. [published_line q]) (service_published s)
           @ lines_some companion_lines (service_companion s))"

definition titled :: "string \<Rightarrow> string list \<Rightarrow> string list" where
  "titled t ls = (if ls = [] then [] else t # ls)"

definition environment_lines_of :: "plan_service \<Rightarrow> string list" where
  "environment_lines_of s =
     titled ''    environment:'' (map (\<lambda>kv. ''      '' @ fst kv @ '': '' @ scalar (snd kv)) (environment s))"

definition mount_lines :: "plan_service \<Rightarrow> string list" where
  "mount_lines s = titled ''    volumes:'' (map (\<lambda>m. ''      - '' @ mount_rendered m) (mounts s))"

definition depends_lines :: "plan_service \<Rightarrow> string list" where
  "depends_lines s =
     titled ''    depends_on:''
       (if healthy_dependencies (overrides s) = [] \<and> completed_dependencies (overrides s) = []
        then map (\<lambda>d. ''      - '' @ d) (depends_on s)
        else concat (map (\<lambda>d. [''      '' @ d @ '':'', ''        condition: '' @ dependency_condition s d])
               (depends_on s)))"

definition head_lines :: "deployment_plan \<Rightarrow> plan_service \<Rightarrow> string list" where
  "head_lines p s =
     [''  '' @ service_name s @ '':'', image_line s, ''    container_name: '' @ container_name p s,
      (if is_job p (service_name s) then ''    restart: '' @ [dquote] @ ''no'' @ [dquote]
       else ''    restart: unless-stopped'')]"

definition body_lines :: "plan_service \<Rightarrow> string list" where
  "body_lines s =
     environment_lines_of s @ mount_lines s @ depends_lines s
     @ titled ''    networks:'' (map (\<lambda>n. ''      - '' @ n) (networks s)) @ overrides_lines (overrides s)"

definition service_lines :: "deployment_plan \<Rightarrow> plan_service \<Rightarrow> string list" where
  "service_lines p s = head_lines p s @ ports_lines s @ body_lines s"

definition compose_lines :: "deployment_plan \<Rightarrow> string list" where
  "compose_lines p =
     ''services:'' # concat (map (service_lines p) (services p))
     @ titled ''volumes:'' (map (\<lambda>v. ''  '' @ v @ '':'') (named_volumes p))
     @ titled ''networks:''
         (concat (map (\<lambda>n. [''  '' @ n @ '':'', ''    internal: true'']) (internal_networks p)))"

section \<open>The renderer writes those lines\<close>

named_theorems text_simps \<open>the text of each part is its lines\<close>

lemma text_of_simps [text_simps]:
  "text_of [] = []" "text_of (l # ls) = line l @ text_of ls" "text_of (a @ b) = text_of a @ text_of b"
  "text_of (concat lss) = concat (map text_of lss)"
  by (simp_all add: text_of_def) (induction lss; simp add: text_of_def)

lemma text_of_map [text_simps]: "text_of (map f xs) = concat (map (\<lambda>x. line (f x)) xs)"
  by (induction xs) (auto simp: text_of_def)

lemma text_of_some [text_simps]: "text_of (lines_some f v) = render_some (\<lambda>x. text_of (f x)) v"
  by (cases v) (auto simp: lines_some_def render_some_def text_of_def)

lemma text_of_titled [text_simps]: "text_of (titled t ls) = (if ls = [] then [] else line t @ text_of ls)"
  by (simp add: titled_def text_of_def)

lemma args_text [text_simps]: "args_render f a = text_of (args_lines f a)"
  by (cases a) (auto simp: args_render_def args_lines_def text_of_def line_def o_def)

lemma health_field_text: "health_field_render kv = text_of (health_field_lines kv)"
  by (cases "snd kv")
    (simp_all add: health_field_render_def health_field_lines_def lines_some_def text_of_def line_def)

lemma health_test_text: "health_test_render v = text_of (lines_some health_test_lines v)"
  by (cases v) (auto simp: health_test_render_def health_test_lines_def lines_some_def text_of_def line_def o_def
      split: health_test.split)

lemma health_text [text_simps]: "health_render h = text_of (health_lines h)"
proof -
  have f: "health_field_render = (\<lambda>kv. text_of (health_field_lines kv))"
    by (simp add: fun_eq_iff health_field_text)
  have r: "(case v of None \<Rightarrow> [] | Some r \<Rightarrow> ''      retries: '' @ show_nat (unat r) @ [newline])
      = text_of (lines_some (\<lambda>r. [''      retries: '' @ show_word r]) v)" for v :: "u32 option"
    by (cases v) (simp_all add: lines_some_def text_of_def line_def show_word_def)
  have d: "(if c then ''      disable: false'' @ [newline] else []) = text_of (if c then [''      disable: false''] else [])" for c
    by (simp add: text_of_def line_def)
  have t: "''    healthcheck:'' @ [newline] @ z = line ''    healthcheck:'' @ z" for z
    by (simp add: line_def)
  show ?thesis
    unfolding health_render_def health_lines_def f health_test_text r d t text_of_simps
    by (simp only: list.map concat.simps append_assoc append_Nil2 text_of_simps append.simps)
qed

lemma overrides_text [text_simps]: "overrides_render v = text_of (overrides_lines v)"
proof -
  have "health_render = (\<lambda>h. text_of (health_lines h))" "args_render f = (\<lambda>a. text_of (args_lines f a))" for f
    by (simp_all add: fun_eq_iff args_text health_text)
  then show ?thesis
    by (simp add: overrides_render_def overrides_lines_def text_of_simps text_of_some)
qed

lemma image_text [text_simps]: "image_render s = line (image_line s)"
  by (simp add: image_render_def image_line_def split: option.splits)

lemma ports_text [text_simps]: "ports_render s = text_of (ports_lines s)"
proof -
  have "published_render = (\<lambda>q. text_of [published_line q])" "companion_render = (\<lambda>q. text_of (companion_lines q))"
    by (simp_all add: fun_eq_iff text_of_simps published_render_def published_line_def companion_render_def
        companion_lines_def)
  then show ?thesis by (simp add: ports_render_def ports_lines_def text_of_simps text_of_some)
qed

lemma environment_text [text_simps]: "environment_render s = text_of (environment_lines_of s)"
  by (simp add: environment_render_def environment_lines_of_def text_simps)

lemma depends_text [text_simps]: "depends_render s = text_of (depends_lines s)"
  by (cases "depends_on s")
    (auto simp: depends_render_def depends_lines_def text_simps titled_def Let_def o_def)

lemma section_text [text_simps]: "section_render t (\<lambda>x. text_of (f x)) xs = text_of (titled t (concat (map f xs)))"
  if "\<And>x. f x \<noteq> []"
  using that by (cases xs) (auto simp: section_render_def titled_def text_of_simps o_def)

lemma section_line [text_simps]: "section_render t (\<lambda>x. line (f x)) xs = text_of (titled t (map f xs))"
  by (cases xs) (auto simp: section_render_def titled_def text_simps)

lemma head_tail_text:
  "service_head p s @ (if mounts s = [] then [] else line ''    volumes:'' @ concat (map (\<lambda>m. line (''      - '' @ mount_rendered m)) (mounts s)))
     @ service_tail s = text_of (service_lines p s)"
  by (auto simp: service_head_def service_tail_def service_lines_def head_lines_def body_lines_def
      mount_lines_def text_simps)

lemma mounts_render_text: "mounts_render (\<lambda>m. Ok (f m)) ms = Ok (concat (map f ms))"
  by (induction ms) auto

lemma service_render_text:
  "service_render (\<lambda>m. Ok (line (''      - '' @ mount_rendered m))) p s = Ok (text_of (service_lines p s))"
  unfolding service_render_def mounts_render_text
  using head_tail_text [of p s] by (cases "mounts s = []") auto

lemma map_ok_total: "(\<And>x. f x = Ok (g x)) \<Longrightarrow> map_ok f xs = Ok (map g xs)"
  by (induction xs) auto

lemma to_compose_text:
  "to_compose p = and_then (validate p) (\<lambda>_. Ok (text_of (compose_lines p)))"
proof -
  have i: "section_render ''networks:'' (\<lambda>n. line (''  '' @ n @ '':'') @ line ''    internal: true'') xs
      = text_of (titled ''networks:'' (concat (map (\<lambda>n. [''  '' @ n @ '':'', ''    internal: true'']) xs)))" for xs
    using section_text [of "\<lambda>n. [''  '' @ n @ '':'', ''    internal: true'']" "''networks:''" xs]
    by (simp add: text_of_def)
  have l: "section_render ''volumes:'' (\<lambda>v. line (''  '' @ v @ '':'')) xs
      = text_of (titled ''volumes:'' (map (\<lambda>v. ''  '' @ v @ '':'') xs))" for xs
    by (rule section_line)
  show ?thesis
    unfolding to_compose_def to_compose_with_mounts_def compose_lines_def text_of_simps i l
      map_ok_total [of "service_render _ p", OF service_render_text] and_then_simps map_map o_def ..
qed

section \<open>No value breaks its line\<close>

definition clean :: "string \<Rightarrow> bool" where
  "clean s = (newline \<notin> set s \<and> CHR 0x0D \<notin> set s)"

named_theorems clean_intros \<open>values that stay on one line\<close>

lemma clean_simps [simp]:
  "clean []" "clean (c # s) \<longleftrightarrow> c \<noteq> newline \<and> c \<noteq> CHR 0x0D \<and> clean s" "clean (a @ b) \<longleftrightarrow> clean a \<and> clean b"
  by (auto simp: clean_def)

lemma clean_set: "(\<And>c. c \<in> set s \<Longrightarrow> c \<noteq> newline \<and> c \<noteq> CHR 0x0D) \<Longrightarrow> clean s"
  by (auto simp: clean_def)

lemma lines_text_of: "list_all clean ls \<Longrightarrow> lines (text_of ls) = ls"
proof (induction ls)
  case (Cons l ls)
  then have "newline \<notin> set l" "CHR 0x0D \<notin> set l" by (auto simp: clean_def)
  moreover from this have "l = [] \<or> last l \<noteq> CHR 0x0D" by (metis last_in_set)
  ultimately
  have "lines (l @ newline # text_of ls) = l # lines (text_of ls)" by (intro lines_line)
  with Cons show ?case by (simp add: text_of_def line_def lines_line)
qed (simp add: text_of_def)

lemma no_control_clean [clean_intros]: "\<not> has_control s \<Longrightarrow> clean s"
  by (simp add: clean_def no_control_newline no_control_cr)

lemma scalar_clean [clean_intros]: "clean v \<Longrightarrow> clean (scalar v)"
  using scalar_set [of v] by (auto simp: clean_def)

lemma show_word_clean [simp]: "clean (show_word w)"
  by (auto simp: show_word_def clean_def show_nat_no_char is_digit_def)

lemma pad3_clean [clean_intros]: "clean s \<Longrightarrow> clean (pad3 s)"
  by (auto simp: pad3_def clean_def)

lemma class_clean: "list_all P s \<Longrightarrow> \<not> P newline \<Longrightarrow> \<not> P (CHR 0x0D) \<Longrightarrow> clean s"
  by (auto simp: clean_def list_all_iff)

lemma plain_name_clean [clean_intros]: "is_plain_name v \<Longrightarrow> clean v"
  by (auto simp: is_plain_name_def char_class_defs intro: class_clean)

lemma hostname_clean [clean_intros]: "is_hostname v \<Longrightarrow> clean v"
  by (auto simp: is_hostname_def char_class_defs intro: class_clean)

lemma signal_clean [clean_intros]: "is_signal v \<Longrightarrow> clean v"
proof -
  assume "is_signal v"
  then consider r where "v = ''SIG'' @ r" "list_all (\<lambda>c. is_upper c \<or> is_digit c) r" | "list_all is_digit v"
    by (auto simp: is_signal_def strip_prefix_Some_iff split: option.splits)
  then show ?thesis
  proof cases
    case (1 r)
    then have "clean r" by (auto simp: char_class_defs intro: class_clean)
    with 1 show ?thesis by simp
  qed (auto simp: char_class_defs intro: class_clean)
qed

lemma digest_clean [clean_intros]: "is_digest v \<Longrightarrow> clean v"
proof -
  assume "is_digest v"
  then obtain h where "v = ''sha256:'' @ h" "list_all is_hex_lower h"
    by (auto simp: is_digest_def Let_def strip_prefix_Some_iff split: option.splits)
  moreover from this(2) have "clean h" by (rule class_clean) (simp_all add: char_class_defs)
  ultimately show ?thesis by simp
qed

lemma key_clean [clean_intros]: "is_environment_key v \<Longrightarrow> clean v"
  by (auto simp: is_environment_key_def char_class_defs intro: class_clean)

lemma image_validate_clean [clean_intros]: "image_validate v = Ok () \<Longrightarrow> clean v"
  by (auto simp: image_validate_def intro: no_control_clean split: option.splits if_splits)

lemma id_clean: "is_valid_installed_app_id v \<Longrightarrow> clean v"
  by (auto simp: is_valid_id_iff is_id_byte_def char_class_defs intro: class_clean)

lemma after_digits_clean: "r \<in> set (after_digits s) \<Longrightarrow> clean r \<Longrightarrow> clean s"
proof -
  assume "r \<in> set (after_digits s)" "clean r"
  then obtain n where n: "list_all is_digit (take n s)" "clean (drop n s)" by (auto simp: after_digits_def)
  from n(1) have "clean (take n s)" by (auto simp: char_class_defs intro: class_clean)
  with n(2) show "clean s" using clean_simps(3) [of "take n s" "drop n s"] by simp
qed

lemma after_fraction_clean: "r \<in> set (after_fraction s) \<Longrightarrow> clean r \<Longrightarrow> clean s"
proof -
  assume r: "r \<in> set (after_fraction s)" "clean r"
  show "clean s"
  proof (cases "r = s")
    case False
    with r(1) obtain t where "strip_prefix ''.'' s = Some t" "r \<in> set (after_digits t)"
      by (cases "strip_prefix ''.'' s") (auto simp: after_fraction_def)
    with after_digits_clean [OF this(2) r(2)] show ?thesis by (simp add: strip_prefix_Some_iff)
  qed (use r in simp)
qed

lemma after_unit_clean: "r \<in> set (after_unit s) \<Longrightarrow> clean r \<Longrightarrow> clean s"
proof -
  assume r: "r \<in> set (after_unit s)" "clean r"
  then obtain u where u: "u \<in> set duration_units" "strip_prefix u s = Some r"
    by (auto simp: after_unit_def split: option.splits)
  from u(1) have "clean u" by (auto simp: duration_units_def)
  with u(2) r(2) show "clean s" by (simp add: strip_prefix_Some_iff)
qed

lemma after_part_clean: "r \<in> set (after_part s) \<Longrightarrow> clean r \<Longrightarrow> clean s"
  unfolding after_part_def using after_digits_clean after_fraction_clean after_unit_clean by fastforce

lemma duration_clean [clean_intros]: "duration_parts n s \<Longrightarrow> clean s"
  by (induction n s rule: duration_parts.induct)
    (auto simp: list_ex_iff intro: after_part_clean)

lemma args_parts_clean:
  assumes "args_validate field a = Ok ()" "q \<in> set (args_parts a)"
  shows "clean q"
  using assms by (auto simp: args_validate_def Let_def each_Ok_iff intro: no_control_clean split: if_splits)

lemma args_lines_clean: "args_validate field a = Ok () \<Longrightarrow> clean f \<Longrightarrow> list_all clean (args_lines f a)"
  using args_parts_clean [of field a]
  by (cases a) (auto simp: args_lines_def args_parts_def list_all_iff intro: scalar_clean)

lemma health_clean: "health_validate h = Ok () \<Longrightarrow> list_all clean (health_lines h)"
proof -
  assume v: "health_validate h = Ok ()"
  then have a: "health_args_validate h = Ok ()" by (auto simp: health_validate_def and_then_Ok_iff)
  have "list_all clean (health_test_lines t)" if "test h = Some t" for t
    using a that args_parts_clean [of "''healthcheck''"]
    by (cases t) (auto simp: health_args_validate_def health_test_lines_def list_all_iff args_parts_def
        intro: scalar_clean)
  then have "list_all clean (lines_some health_test_lines (test h))"
    by (auto simp: lines_some_def split: option.splits)
  moreover have d: "clean v" if "v \<in> set (health_durations h)" for v
    using v that
    by (auto simp: health_validate_def and_then_Ok_iff each_Ok_iff is_duration_def
        intro: duration_clean split: if_splits)
  then have f: "list_all clean (health_field_lines (k, v))" if "clean k" "set_option v \<subseteq> set (health_durations h)" for k v
    using that by (auto simp: health_field_lines_def lines_some_def split: option.splits intro!: scalar_clean dest: d)
  have "list_all clean (concat (map health_field_lines
         [(''interval'', interval h), (''timeout'', timeout h),
          (''start_period'', start_period h), (''start_interval'', start_interval h)]))"
    unfolding list.map concat.simps list_all_append
    by (intro conjI f) (auto simp: health_durations_def split: option.splits)
  ultimately show ?thesis by (auto simp: health_lines_def lines_some_def split: option.splits)
qed

lemma lines_some_clean: "(\<And>x. v = Some x \<Longrightarrow> list_all clean (f x)) \<Longrightarrow> list_all clean (lines_some f v)"
  by (cases v) (auto simp: lines_some_def)

lemma titled_clean: "clean t \<Longrightarrow> list_all clean ls \<Longrightarrow> list_all clean (titled t ls)"
  by (simp add: titled_def)

lemma overrides_clean: "overrides_validate v = Ok () \<Longrightarrow> list_all clean (overrides_lines v)"
  unfolding overrides_lines_def list_all_append
  by (intro conjI lines_some_clean)
    (auto simp: overrides_validate_def and_then_Ok_iff check_some_Ok_iff
      intro: health_clean args_lines_clean clean_intros split: if_splits)

section \<open>Networks\<close>

lemma networks_declare_Cons:
  "networks_declare acc (n # ns) = Ok d \<longleftrightarrow>
     is_plain_name n \<and> n \<noteq> ''default'' \<and> n \<notin> set acc \<and> networks_declare (n # acc) ns = Ok d"
  by simp

lemma networks_declare_facts:
  "networks_declare acc ns = Ok d \<Longrightarrow> set d = set acc \<union> set ns
   \<and> (\<forall>n \<in> set ns. is_plain_name n \<and> n \<noteq> ''default'') \<and> distinct ns \<and> set ns \<inter> set acc = {}"
proof (induction ns arbitrary: acc)
  case (Cons n ns)
  from Cons.prems have c: "is_plain_name n" "n \<noteq> ''default''" "n \<notin> set acc" "networks_declare (n # acc) ns = Ok d"
    unfolding networks_declare_Cons by blast+
  from Cons.IH [OF c(4)] c(1-3) show ?case by auto
qed simp

lemma networks_join_facts:
  "networks_join declared s seen ns = Ok () \<Longrightarrow>
   distinct ns \<and> set ns \<inter> set seen = {} \<and> (\<forall>n \<in> set ns. n = ''default'' \<or> n \<in> set declared)"
  by (induction declared s seen ns rule: networks_join.induct) (auto split: if_splits)

lemma validate_networks_facts:
  assumes "validate_networks p = Ok ()"
  shows "\<forall>n \<in> set (internal_networks p). is_plain_name n \<and> n \<noteq> ''default''" "distinct (internal_networks p)"
    "\<forall>s \<in> set (services p). distinct (networks s) \<and> set (networks s) \<subseteq> insert ''default'' (set (internal_networks p))
       \<and> (on_default s \<or> service_published s = None \<and> service_companion s = None)"
    "\<forall>n \<in> set (internal_networks p). \<exists>s \<in> set (services p). n \<in> set (networks s)"
proof -
  obtain d where d: "networks_declare [] (internal_networks p) = Ok d"
    and e': "each (networks_service d) (services p) = Ok ()"
    and f: "find (\<lambda>n. \<not> list_ex (\<lambda>s. n \<in> set (networks s)) (services p)) (sort d) = None"
    using assms unfolding validate_networks_def and_then_Ok_iff by (auto split: option.splits)
  from e' have e: "\<forall>s \<in> set (services p). networks_service d s = Ok ()" by (simp add: each_Ok_iff)
  note g = networks_declare_facts [OF d]
  show "\<forall>n \<in> set (internal_networks p). is_plain_name n \<and> n \<noteq> ''default''" "distinct (internal_networks p)"
    using g by auto
  show "\<forall>n \<in> set (internal_networks p). \<exists>s \<in> set (services p). n \<in> set (networks s)"
  proof
    fix n assume "n \<in> set (internal_networks p)"
    then have "n \<in> set (sort d)" using g by simp
    with f have "list_ex (\<lambda>s. n \<in> set (networks s)) (services p)" unfolding find_None_iff by blast
    then show "\<exists>s \<in> set (services p). n \<in> set (networks s)" by (simp add: list_ex_iff)
  qed
  show "\<forall>s \<in> set (services p). distinct (networks s) \<and> set (networks s) \<subseteq> insert ''default'' (set (internal_networks p))
       \<and> (on_default s \<or> service_published s = None \<and> service_companion s = None)"
  proof
    fix s assume "s \<in> set (services p)"
    then have j: "networks_join d (service_name s) [] (networks s) = Ok ()"
      and o: "on_default s \<or> service_published s = None \<and> service_companion s = None"
      using e by (auto simp: networks_service_def and_then_Ok_iff split: if_splits)
    from networks_join_facts [OF j] g o
    show "distinct (networks s) \<and> set (networks s) \<subseteq> insert ''default'' (set (internal_networks p))
       \<and> (on_default s \<or> service_published s = None \<and> service_companion s = None)" by auto
  qed
qed

section \<open>The file of a validated plan\<close>

definition one_line_mounts :: "deployment_plan \<Rightarrow> bool" where
  "one_line_mounts p = list_all (\<lambda>s. list_all (\<lambda>m. clean (mount_rendered m)) (mounts s)) (services p)"

lemma default_clean: "n = ''default'' \<Longrightarrow> clean n"
  by simp

lemma service_lines_clean:
  assumes v: "validate p = Ok ()" and s: "s \<in> set (services p)" and m: "one_line_mounts p"
  shows "list_all clean (service_lines p s)"
proof -
  note sc = validate_services(1) [OF v s]
  note sv = service_validate_facts [OF service_checks_facts(1) [OF sc]]
  have name: "clean (service_name t)" if "t \<in> set (services p)" for t
    using service_validate_facts(2) [OF service_checks_facts(1) [OF validate_services(1) [OF v that]]]
    by (rule plain_name_clean)
  have deps: "clean d" if "d \<in> set (depends_on s)" for d
    using service_checks_facts(5) [OF sc that] name by auto
  have nets: "clean n" if "n \<in> set (networks s)" for n
  proof -
    note f = validate_networks_facts [OF validate_facts(7) [OF v]]
    have "n = ''default'' \<or> n \<in> set (internal_networks p)" using f(3) s that by blast
    then show ?thesis using f(1) plain_name_clean default_clean by blast
  qed
  have h: "list_all clean (head_lines p s)"
    using name [OF s] id_clean [OF validate_facts(1) [OF v]] image_validate_clean [OF sv(3)] sv(4)
    by (auto simp: head_lines_def image_line_def container_name_def intro: digest_clean split: option.splits)
  have po: "list_all clean (ports_lines s)"
    by (auto simp: ports_lines_def published_line_def companion_lines_def lines_some_def split: option.splits)
  have en: "list_all clean (environment_lines_of s)"
    unfolding environment_lines_of_def
    by (rule titled_clean) (use sv(5) in \<open>auto simp: list_all_iff intro: clean_intros\<close>)
  have mo: "list_all clean (mount_lines s)"
    unfolding mount_lines_def
    by (rule titled_clean) (use m s in \<open>auto simp: list_all_iff one_line_mounts_def\<close>)
  have de: "list_all clean (depends_lines s)"
    unfolding depends_lines_def
    by (rule titled_clean) (auto simp: list_all_iff dependency_condition_def deps)
  have ne: "list_all clean (titled ''    networks:'' (map (\<lambda>n. ''      - '' @ n) (networks s)))"
    by (rule titled_clean) (auto simp: list_all_iff nets)
  show ?thesis
    unfolding service_lines_def body_lines_def list_all_append
    using h po en mo de ne overrides_clean [OF sv(1)] by blast
qed

lemma compose_lines_clean:
  assumes v: "validate p = Ok ()" and m: "one_line_mounts p"
  shows "list_all clean (compose_lines p)"
proof -
  have "list_all clean (concat (map (service_lines p) (services p)))"
    using service_lines_clean [OF v _ m] by (auto simp: list_all_iff)
  moreover have "list_all clean (titled ''volumes:'' (map (\<lambda>v. ''  '' @ v @ '':'') (named_volumes p)))"
    by (rule titled_clean) (use validate_facts(4) [OF v] in \<open>auto simp: list_all_iff intro: plain_name_clean\<close>)
  moreover have "list_all clean (titled ''networks:''
      (concat (map (\<lambda>n. [''  '' @ n @ '':'', ''    internal: true'']) (internal_networks p))))"
    by (rule titled_clean)
      (use validate_networks_facts(1) [OF validate_facts(7) [OF v]] in \<open>auto simp: list_all_iff intro: plain_name_clean\<close>)
  ultimately show ?thesis by (simp add: compose_lines_def)
qed

lemma compose_lines_exact:
  assumes "validate p = Ok ()" "one_line_mounts p"
  shows "\<exists>text. to_compose p = Ok text \<and> lines text = compose_lines p"
  using assms by (simp add: to_compose_text lines_text_of compose_lines_clean)

end
