(* ===== verification/Compose_Readback.thy ===== *)
theory Compose_Readback
  imports Compose_Lines
begin

text \<open>
  A retained Compose file read back (\<^verbatim>\<open>published_host_port\<close>, \<^verbatim>\<open>companion_host_ports\<close> of
  \<^verbatim>\<open>src/plan.rs\<close>): the ports found in it are the ports of the plan that was rendered.
\<close>

section \<open>Indented lines\<close>

lemma trim_rev_suffix: "\<exists>t. s = t @ trim_rev s"
proof (induction s rule: trim_rev.induct)
  case (1 s)
  show ?case
  proof (cases "ws_len_rev s = 0")
    case False
    from 1 [OF False] obtain t where "drop (ws_len_rev s) s = t @ trim_rev (drop (ws_len_rev s) s)" by blast
    then have "s = (take (ws_len_rev s) s @ t) @ trim_rev s"
      using False append_take_drop_id [of "ws_len_rev s" s] by (simp add: trim_rev.simps [of s])
    then show ?thesis by blast
  qed (simp add: trim_rev_no_ws)
qed

lemma trim_end_prefix: "\<exists>t. s = trim_end s @ t"
proof -
  obtain t where "rev s = t @ trim_rev (rev s)" using trim_rev_suffix by blast
  then have "s = rev (trim_rev (rev s)) @ rev t" by (metis rev_append rev_rev_ident)
  then show ?thesis by (auto simp: trim_end_def)
qed

text \<open>\<open>at k l\<close>: a line with \<open>k\<close> spaces before its content.\<close>

definition at :: "nat \<Rightarrow> string \<Rightarrow> string" where
  "at k c = replicate k (CHR '' '') @ c"

lemma trim_at: "is_graph c \<Longrightarrow> trim (at k (c # r)) = trim_end (c # r)"
  by (simp add: at_def trim_def trim_start_spaces trim_start_no_ws ws_len_graph)

lemma trim_at_starts: "is_graph c \<Longrightarrow> starts_with q (trim (at k (c # r))) \<Longrightarrow> starts_with q (c # r)"
  using trim_end_prefix [of "c # r"] by (auto simp: trim_at starts_with_iff)

lemma trim_at_graph: "is_graph a \<Longrightarrow> is_graph b \<Longrightarrow> trim (at k (a # s @ [b])) = a # s @ [b]"
  using trim_end_graph [of b "a # s"] by (simp add: trim_at)

abbreviation published_key :: string where
  "published_key \<equiv> ''published: '' @ [dquote]"

text \<open>A line inside a service that no reader looks for.\<close>

definition inner :: "string \<Rightarrow> bool" where
  "inner l = (\<exists>k c r. 3 \<le> k \<and> l = at k (c # r) \<and> is_graph c \<and> \<not> starts_with published_key (c # r))"

definition quiet :: "string \<Rightarrow> bool" where
  "quiet l = (\<exists>k c r. l = at k (c # r) \<and> is_graph c \<and> c \<noteq> CHR ''-'')"

lemma quiet_port: "quiet l \<Longrightarrow> port_of_line (trim l) = None"
proof -
  assume "quiet l"
  then obtain k c r where l: "l = at k (c # r)" "is_graph c" "c \<noteq> CHR ''-''" by (auto simp: quiet_def)
  then have "\<not> starts_with (''- '' @ [dquote] @ ''127.0.0.1:'') (trim l)"
    using trim_at_starts [OF l(2), of "''- '' @ [dquote] @ ''127.0.0.1:''" k r] by auto
  then show ?thesis by (simp add: port_of_line_def strip_prefix_def)
qed

lemma inner_lines:
  assumes "inner l"
  shows "service_of_line l = None" "starts_with '' '' l" "companion_of_line l = None"
proof -
  obtain k c r where l: "3 \<le> k" "l = at k (c # r)" "is_graph c" "\<not> starts_with published_key (c # r)"
    using assms by (auto simp: inner_def)
  obtain j where k: "k = Suc (Suc (Suc j))" using l(1) by (metis Suc_le_D Suc_le_mono numeral_3_eq_3)
  show "service_of_line l = None" "starts_with '' '' l"
    by (simp_all add: l(2) k at_def service_of_line_def strip_prefix_def)
  show "companion_of_line l = None"
    using trim_at_starts [OF l(3), of published_key k r] l by (auto simp: companion_of_line_def strip_prefix_def)
qed

lemma innerI:
  assumes "3 \<le> k" "is_graph c" "c \<noteq> CHR ''p''"
  shows "inner (at k (c # r))"
  unfolding inner_def using assms by (intro exI [of _ k] exI [of _ c] exI [of _ r]) simp

lemma at_literal:
  "CHR '' '' # CHR '' '' # CHR '' '' # CHR '' '' # s = at 4 s"
  "CHR '' '' # CHR '' '' # CHR '' '' # CHR '' '' # CHR '' '' # CHR '' '' # s = at 6 s"
  "CHR '' '' # CHR '' '' # CHR '' '' # CHR '' '' # CHR '' '' # CHR '' '' # CHR '' '' # CHR '' '' # s = at 8 s"
  by (simp_all add: at_def numeral_eq_Suc)

lemma inner4: "is_graph c \<Longrightarrow> c \<noteq> CHR ''p'' \<Longrightarrow> inner (''    '' @ c # r)"
  and inner6: "is_graph c \<Longrightarrow> c \<noteq> CHR ''p'' \<Longrightarrow> inner (''      '' @ c # r)"
  and inner8: "is_graph c \<Longrightarrow> c \<noteq> CHR ''p'' \<Longrightarrow> inner (''        '' @ c # r)"
  using innerI [of 4 c r] innerI [of 6 c r] innerI [of 8 c r]
  by (simp_all add: at_def numeral_eq_Suc)

lemma inner_p: "3 \<le> k \<Longrightarrow> \<not> starts_with published_key (CHR ''p'' # r) \<Longrightarrow> inner (at k (CHR ''p'' # r))"
  unfolding inner_def by (intro exI [of _ k] exI [of _ "CHR ''p''"] exI [of _ r]) (simp add: is_graph_def)

lemmas inner_rules = inner4 [simplified] inner6 [simplified] inner8 [simplified]

section \<open>Every line of a service but its name and its second address is an inner line\<close>

lemma lines_some_inner: "(\<And>x. v = Some x \<Longrightarrow> list_all inner (f x)) \<Longrightarrow> list_all inner (lines_some f v)"
  by (cases v) (auto simp: lines_some_def)

lemma titled_inner: "inner t \<Longrightarrow> list_all inner ls \<Longrightarrow> list_all inner (titled t ls)"
  by (simp add: titled_def)

lemma args_inner:
  "list_all inner (args_lines ''command'' a)" "list_all inner (args_lines ''entrypoint'' a)"
  by (cases a; auto simp: args_lines_def list_all_iff is_graph_def intro!: inner_rules)+

lemma health_inner: "list_all inner (health_lines h)"
proof -
  have t: "list_all inner (health_test_lines t)" for t
    by (cases t) (auto simp: health_test_lines_def list_all_iff is_graph_def intro!: inner_rules)
  show ?thesis
    unfolding health_lines_def health_field_lines_def
    by (auto simp: is_graph_def intro!: inner_rules lines_some_inner t)
qed

lemma overrides_inner: "list_all inner (overrides_lines v)"
proof -
  have p: "inner (''    pids_limit: '' @ w)" for w
    using inner_p [of 4 "''ids_limit: '' @ w"] by (simp add: at_def numeral_eq_Suc)
  show ?thesis
    unfolding overrides_lines_def list_all_append
    by (intro conjI lines_some_inner)
      (use p in \<open>auto simp: is_graph_def intro!: inner_rules args_inner health_inner\<close>)
qed

lemma colon_split: "a @ CHR '':'' # x = b @ CHR '':'' # y \<Longrightarrow> CHR '':'' \<notin> set a \<Longrightarrow> CHR '':'' \<notin> set b \<Longrightarrow> a = b \<and> x = y"
  by (induction a arbitrary: b) (auto simp: Cons_eq_append_conv append_eq_Cons_conv)

lemma keyed_inner:
  assumes "3 \<le> k" "key \<noteq> []" "is_graph (hd key)" "CHR '':'' \<notin> set key" "key \<noteq> ''published'' \<or> x = []"
  shows "inner (at k (key @ CHR '':'' # x))"
proof -
  obtain c r where key: "key = c # r" using assms(2) by (cases key) auto
  have "\<not> starts_with published_key (key @ CHR '':'' # x)"
  proof
    assume "starts_with published_key (key @ CHR '':'' # x)"
    then obtain t where "key @ CHR '':'' # x = ''published'' @ CHR '':'' # CHR '' '' # dquote # t"
      by (auto simp: starts_with_iff)
    from colon_split [OF this assms(4)] assms(5) show False by simp
  qed
  then show ?thesis
    unfolding inner_def using assms key by (intro exI [of _ k] exI [of _ c] exI [of _ "r @ CHR '':'' # x"]) simp
qed

lemma environment_inner:
  assumes "\<forall>kv \<in> set (environment s). is_environment_key (fst kv)" "''published'' \<notin> fst ` set (environment s)"
  shows "list_all inner (environment_lines_of s)"
  unfolding environment_lines_of_def
proof (rule titled_inner)
  show "inner ''    environment:''" using inner4 [of "CHR ''e''"] by (simp add: is_graph_def)
  show "list_all inner (map (\<lambda>kv. ''      '' @ fst kv @ '': '' @ scalar (snd kv)) (environment s))"
    unfolding list_all_iff
  proof
    fix l assume "l \<in> set (map (\<lambda>kv. ''      '' @ fst kv @ '': '' @ scalar (snd kv)) (environment s))"
    then obtain kv where kv: "kv \<in> set (environment s)" "l = ''      '' @ fst kv @ '': '' @ scalar (snd kv)" by auto
    have k: "is_environment_key (fst kv)" "fst kv \<noteq> ''published''"
      using assms kv(1) by (auto simp: image_iff)
    then have "fst kv \<noteq> []" "is_graph (hd (fst kv))" "CHR '':'' \<notin> set (fst kv)"
      by (auto simp: is_environment_key_def char_class_defs is_graph_def list_all_iff split: list.splits)
    then have "inner (at 6 (fst kv @ CHR '':'' # CHR '' '' # scalar (snd kv)))"
      using k(2) by (intro keyed_inner) auto
    then show "inner l" by (simp add: kv(2) at_def numeral_eq_Suc)
  qed
qed

lemma plain_name_hd: "is_plain_name d \<Longrightarrow> d \<noteq> [] \<and> is_graph (hd d) \<and> hd d \<noteq> CHR ''-'' \<and> CHR '':'' \<notin> set d"
  by (cases d) (auto simp: is_plain_name_def char_class_defs is_graph_def list_all_iff)

lemma depends_inner:
  assumes "\<forall>d \<in> set (depends_on s). is_plain_name d"
  shows "list_all inner (depends_lines s)"
proof -
  have d: "inner (''      '' @ d @ '':'')" if "d \<in> set (depends_on s)" for d
    using keyed_inner [of 6 d "[]"] plain_name_hd [of d] assms that by (simp add: at_def numeral_eq_Suc)
  have c: "inner (''        condition: '' @ w)" for w
    using inner8 [of "CHR ''c''"] by (simp add: is_graph_def)
  show ?thesis
    unfolding depends_lines_def
    by (rule titled_inner) (use d c in \<open>auto simp: list_all_iff is_graph_def intro!: inner_rules\<close>)
qed

lemma body_inner:
  assumes "\<forall>kv \<in> set (environment s). is_environment_key (fst kv)" "''published'' \<notin> fst ` set (environment s)"
    and "\<forall>d \<in> set (depends_on s). is_plain_name d"
  shows "list_all inner (body_lines s)"
proof -
  have m: "list_all inner (mount_lines s)"
    unfolding mount_lines_def
    by (rule titled_inner) (auto simp: list_all_iff is_graph_def intro!: inner_rules)
  have n: "list_all inner (titled ''    networks:'' (map (\<lambda>n. ''      - '' @ n) (networks s)))"
    by (rule titled_inner) (auto simp: list_all_iff is_graph_def intro!: inner_rules)
  show ?thesis
    unfolding body_lines_def list_all_append
    using environment_inner [OF assms(1,2)] m depends_inner [OF assms(3)] n overrides_inner by blast
qed

section \<open>Reading the second addresses\<close>

lemma scan_inner: "list_all inner ls \<Longrightarrow> companion_scan found service (ls @ rest) = companion_scan found service rest"
proof (induction ls)
  case (Cons l ls)
  with inner_lines [of l] show ?case by (cases service) simp_all
qed simp

lemma service_line: "is_plain_name n \<Longrightarrow> service_of_line (''  '' @ n @ '':'') = Some n"
  using plain_name_hd [of n] strip_suffix_append [of "'':''" n]
  by (cases n) (auto simp: service_of_line_def strip_prefix_def is_graph_def)

lemma companion_line:
  "companion_of_line (''        published: '' @ [dquote] @ show_word h @ [dquote]) = Some h"
  (is "companion_of_line ?l = _") for h :: u16
proof -
  have l: "?l = at 8 (CHR ''p'' # (''ublished: '' @ [dquote] @ show_word h) @ [dquote])"
    by (simp add: at_def numeral_eq_Suc)
  have "trim ?l = published_key @ (show_word h @ [dquote])"
    unfolding l by (subst trim_at_graph) (simp_all add: is_graph_def)
  then show ?thesis
    unfolding companion_of_line_def strip_prefix_append option.case strip_suffix_append
    by (simp add: strip_prefix_append [of published_key, simplified] show_word_def parse_u16_show_nat)
qed

definition companion_entry :: "(string, u16) btree \<Rightarrow> plan_service \<Rightarrow> (string, u16) btree" where
  "companion_entry found s =
     (case service_companion s of None \<Rightarrow> found | Some q \<Rightarrow> bt_insert (service_name s) (host q) found)"

lemma head_lines_split: "\<exists>ls. head_lines p s = (''  '' @ service_name s @ '':'') # ls \<and> list_all inner ls"
  by (auto simp: head_lines_def image_line_def is_graph_def intro!: inner_rules)

lemma scan_ports:
  "companion_scan found (Some n) (ports_lines s @ rest) =
     companion_scan (case service_companion s of None \<Rightarrow> found | Some q \<Rightarrow> bt_insert n (host q) found) (Some n) rest"
proof -
  have p: "inner ''    ports:''" using inner_p [of 4 "''orts:''"] by (simp add: at_def numeral_eq_Suc)
  have m: "list_all inner (lines_some (\<lambda>q. [published_line q]) v)" for v
    by (rule lines_some_inner) (auto simp: published_line_def is_graph_def intro!: inner_rules)
  have t: "list_all inner [''      - target: '' @ w]" "list_all inner [''        host_ip: 127.0.0.1'']" for w
    by (auto simp: is_graph_def intro!: inner_rules)
  have line: "service_of_line (''        published: '' @ x) = None" "starts_with '' '' (''        published: '' @ x)" for x
    by (simp_all add: service_of_line_def strip_prefix_def)
  have c: "companion_scan f (Some n) (companion_lines q @ rest) = companion_scan (bt_insert n (host q) f) (Some n) rest" for f q
  proof -
    have "companion_scan f (Some n) (companion_lines q @ rest)
      = companion_scan f (Some n) ([''      - target: '' @ show_word (container q)]
          @ (''        published: '' @ [dquote] @ show_word (host q) @ [dquote])
          # ([''        host_ip: 127.0.0.1''] @ rest))"
      by (simp add: companion_lines_def)
    also have "\<dots> = companion_scan f (Some n) ((''        published: '' @ [dquote] @ show_word (host q) @ [dquote])
          # ([''        host_ip: 127.0.0.1''] @ rest))"
      by (rule scan_inner [OF t(1)])
    also have "\<dots> = companion_scan (bt_insert n (host q) f) (Some n) ([''        host_ip: 127.0.0.1''] @ rest)"
      by (simp only: companion_scan.simps line companion_line option.case simp_thms if_False)
    also have "\<dots> = companion_scan (bt_insert n (host q) f) (Some n) rest"
      by (rule scan_inner [OF t(2)])
    finally show ?thesis .
  qed
  show ?thesis
  proof (cases "service_companion s")
    case None
    have "list_all inner (ports_lines s)"
      using p m [of "service_published s"] None by (auto simp: ports_lines_def lines_some_def)
    with None show ?thesis by (simp add: scan_inner)
  next
    case (Some q)
    then have "ports_lines s @ rest = (''    ports:'' # lines_some (\<lambda>q. [published_line q]) (service_published s))
        @ (companion_lines q @ rest)" by (simp add: ports_lines_def lines_some_def)
    moreover have "list_all inner (''    ports:'' # lines_some (\<lambda>q. [published_line q]) (service_published s))"
      using p m by simp
    ultimately show ?thesis using Some by (simp only: scan_inner c option.case)
  qed
qed

lemma scan_name:
  "is_plain_name n \<Longrightarrow> companion_scan found st ((''  '' @ n @ '':'') # ls) = companion_scan found (Some n) ls"
  by (simp only: companion_scan.simps service_line option.case)

lemma scan_service:
  assumes "is_plain_name (service_name s)" "list_all inner (body_lines s)"
  shows "companion_scan found st (service_lines p s @ rest)
     = companion_scan (companion_entry found s) (Some (service_name s)) rest"
proof -
  obtain ls where ls: "head_lines p s = (''  '' @ service_name s @ '':'') # ls" "list_all inner ls"
    using head_lines_split by blast
  have "service_lines p s @ rest
      = (''  '' @ service_name s @ '':'') # (ls @ ports_lines s @ body_lines s @ rest)"
    by (simp add: service_lines_def ls(1))
  then show ?thesis
    by (simp only: scan_name [OF assms(1)] scan_inner [OF ls(2)] scan_ports scan_inner [OF assms(2)] companion_entry_def)
qed

lemma scan_services:
  assumes "\<forall>s \<in> set ss. is_plain_name (service_name s) \<and> list_all inner (body_lines s)"
  shows "\<exists>st'. companion_scan found st (concat (map (service_lines p) ss) @ rest)
     = companion_scan (foldl companion_entry found ss) st' rest"
  using assms
proof (induction ss arbitrary: found st)
  case (Cons s ss)
  then show ?case by (simp add: scan_service)
qed auto

lemma outer_line: "\<not> starts_with '' '' l \<Longrightarrow> companion_scan found st (l # ls) = companion_scan found None ls"
  by (cases l) (auto simp: service_of_line_def strip_prefix_def)

lemma scan_outside:
  assumes "\<forall>l \<in> set ls. (\<exists>n. l = ''  '' @ n @ '':'' \<and> is_plain_name n) \<or> inner l"
  shows "\<exists>st'. companion_scan found st (ls @ rest) = companion_scan found st' rest"
  using assms
proof (induction ls arbitrary: st)
  case (Cons l ls)
  then consider n where "l = ''  '' @ n @ '':''" "is_plain_name n" | "inner l" by auto
  then show ?case
  proof cases
    case (1 n)
    have "companion_scan found st (l # ls @ rest) = companion_scan found (Some n) (ls @ rest)"
      unfolding 1(1) by (rule scan_name [OF 1(2)])
    with Cons show ?thesis by simp
  next
    case 2
    have "companion_scan found st ([l] @ ls @ rest) = companion_scan found st (ls @ rest)"
      by (rule scan_inner) (use 2 in simp)
    with Cons show ?thesis by simp
  qed
qed auto

lemma scan_titled:
  assumes "\<forall>l \<in> set ls. (\<exists>n. l = ''  '' @ n @ '':'' \<and> is_plain_name n) \<or> inner l" "\<not> starts_with '' '' t"
  shows "\<exists>st'. companion_scan found st (titled t ls @ rest) = companion_scan found st' rest"
  using scan_outside [OF assms(1), of found None rest] outer_line [OF assms(2), of found st "ls @ rest"]
  by (auto simp: titled_def)

lemma foldl_entry_ok: "bt_ok found \<Longrightarrow> bt_ok (foldl companion_entry found ss)"
  by (induction ss arbitrary: found) (auto simp: companion_entry_def split: option.splits)

lemma foldl_entry_get:
  "bt_ok found \<Longrightarrow> distinct (map service_name ss) \<Longrightarrow>
   bt_get (foldl companion_entry found ss) n =
     (case map_of (map (\<lambda>c. (service_name (fst c), host (snd c))) (companions_of ss)) n of
        Some h \<Rightarrow> Some h | None \<Rightarrow> bt_get found n)"
proof (induction ss arbitrary: found)
  case (Cons s ss)
  let ?m = "map_of (map (\<lambda>c. (service_name (fst c), host (snd c))) (companions_of ss))"
  have ok: "bt_ok (companion_entry found s)" using Cons.prems(1) by (auto simp: companion_entry_def split: option.splits)
  have absent: "?m (service_name s) = None"
    using Cons.prems(2) by (fastforce simp: map_of_eq_None_iff companions_of_def split: option.splits)
  show ?case
    using Cons.IH [OF ok] Cons.prems absent
    by (cases "service_companion s")
      (auto simp: companion_entry_def companions_of_def bt_get_insert split: option.splits)
qed (simp add: companions_of_def)

lemma companion_scan_compose:
  assumes v: "validate p = Ok ()"
    and e: "\<forall>s \<in> set (services p). ''published'' \<notin> fst ` set (environment s)"
  shows "companion_scan [] None (compose_lines p) = foldl companion_entry [] (services p)"
proof -
  let ?vols = "titled ''volumes:'' (map (\<lambda>v. ''  '' @ v @ '':'') (named_volumes p))"
  let ?nets = "titled ''networks:''
         (concat (map (\<lambda>n. [''  '' @ n @ '':'', ''    internal: true'']) (internal_networks p)))"
  have s: "is_plain_name (service_name s) \<and> list_all inner (body_lines s)" if "s \<in> set (services p)" for s
  proof -
    note sc = validate_services(1) [OF v that]
    have "\<forall>d \<in> set (depends_on s). is_plain_name d"
      using service_checks_facts(5) [OF sc] service_validate_facts(2) [OF service_checks_facts(1) [OF validate_services(1) [OF v]]]
      by fastforce
    with service_validate_facts(2,5) [OF service_checks_facts(1) [OF sc]] e that show ?thesis
      by (intro conjI body_inner) auto
  qed
  have i: "inner ''    internal: true''" using inner4 [of "CHR ''i''"] by (simp add: is_graph_def)
  obtain s1 where 1: "companion_scan [] None (concat (map (service_lines p) (services p)) @ ?vols @ ?nets)
      = companion_scan (foldl companion_entry [] (services p)) s1 (?vols @ ?nets)"
    using scan_services [of "services p" "[]" None p "?vols @ ?nets"] s by blast
  obtain s2 where 2: "companion_scan (foldl companion_entry [] (services p)) s1 (?vols @ ?nets)
      = companion_scan (foldl companion_entry [] (services p)) s2 ?nets"
    using scan_titled [of "map (\<lambda>v. ''  '' @ v @ '':'') (named_volumes p)" "''volumes:''"
        "foldl companion_entry [] (services p)" s1 ?nets] validate_facts(4) [OF v] by auto
  obtain s3 where 3: "companion_scan (foldl companion_entry [] (services p)) s2 (?nets @ [])
      = companion_scan (foldl companion_entry [] (services p)) s3 []"
    using scan_titled [of "concat (map (\<lambda>n. [''  '' @ n @ '':'', ''    internal: true'']) (internal_networks p))"
        "''networks:''" "foldl companion_entry [] (services p)" s2 "[]"]
      validate_networks_facts(1) [OF validate_facts(7) [OF v]] i by auto
  have "companion_scan [] None (''services:'' # concat (map (service_lines p) (services p)) @ ?vols @ ?nets)
      = companion_scan [] None (concat (map (service_lines p) (services p)) @ ?vols @ ?nets)"
    by (rule outer_line) simp
  with 1 2 3 show ?thesis unfolding compose_lines_def by simp
qed

section \<open>Reading the published port\<close>

lemma port_of_published_line: "port_of_line (trim (published_line q)) = Some (host q)"
proof -
  let ?tail = "CHR '':'' # show_word (container q) @ [dquote]"
  have l: "published_line q = at 6 (CHR ''-'' # ('' '' @ [dquote] @ ''127.0.0.1:'' @ show_word (host q)
      @ CHR '':'' # show_word (container q)) @ [dquote])"
    by (simp add: published_line_def at_def numeral_eq_Suc)
  have t: "trim (published_line q) = (''- '' @ [dquote] @ ''127.0.0.1:'') @ (show_word (host q)
      @ CHR '':'' # show_word (container q)) @ [dquote]"
    unfolding l by (subst trim_at_graph) (simp_all add: is_graph_def)
  have "CHR '':'' \<notin> set (show_word (host q))" by (simp add: show_word_def show_nat_no_char is_digit_def)
  then have "split_once '':'' (show_word (host q) @ CHR '':'' # show_word (container q))
      = Some (show_word (host q), show_word (container q))" by (rule split_once_single)
  then show ?thesis
    unfolding port_of_line_def t strip_prefix_append option.case strip_suffix_append
    by (simp add: show_word_def parse_u16_show_nat)
qed

lemma find_map_skip: "\<forall>x \<in> set xs. f x = None \<Longrightarrow> find_map f (xs @ ys) = find_map f ys"
  by (induction xs) auto

lemma quiet_rules:
  "is_graph c \<Longrightarrow> c \<noteq> CHR ''-'' \<Longrightarrow> quiet (c # r)"
  "is_graph c \<Longrightarrow> c \<noteq> CHR ''-'' \<Longrightarrow> quiet (CHR '' '' # CHR '' '' # c # r)"
  "is_graph c \<Longrightarrow> c \<noteq> CHR ''-'' \<Longrightarrow> quiet (CHR '' '' # CHR '' '' # CHR '' '' # CHR '' '' # c # r)"
  unfolding quiet_def at_def
  by (rule exI [of _ 0], force) (rule exI [of _ 2], force simp: numeral_eq_Suc,
      rule exI [of _ 4], force simp: numeral_eq_Suc)

lemma list_all_Nil_iff: "list_all P [] = True"
  by simp

lemma head_quiet:
  assumes "is_plain_name (service_name s)"
  shows "list_all quiet (''services:'' # head_lines p s @ [''    ports:''])"
proof -
  obtain c r where name: "service_name s = c # r" "is_graph c" "c \<noteq> CHR ''-''"
    using plain_name_hd [OF assms] by (cases "service_name s") auto
  have r: "quiet ''    restart: unless-stopped''" "quiet (''    restart: '' @ x)" for x
    using quiet_rules(3) [of "CHR ''r''"] by (simp_all add: is_graph_def)
  have i: "quiet (image_line s)" "quiet (''    container_name: '' @ x)" "quiet ''    ports:''" "quiet ''services:''" for x
    using quiet_rules(3) [of "CHR ''i''"] quiet_rules(3) [of "CHR ''c''"] quiet_rules(3) [of "CHR ''p''"]
      quiet_rules(1) [of "CHR ''s''"]
    by (simp_all add: image_line_def is_graph_def)
  have m: "quiet (''  '' @ service_name s @ '':'')"
    using quiet_rules(2) [of c "r @ '':''"] name by simp
  show ?thesis
    unfolding head_lines_def list_all_append list.pred_inject
    using r(1) r(2) [of "[dquote] @ ''no'' @ [dquote]"] i(1) i(2) [of "container_name p s"] i(3,4) m
    by (simp only: if_split simp_thms list_all_Nil_iff)
qed

lemma first_published_line:
  assumes "services p = s # rest" "service_published s = Some q"
  obtains tail where "compose_lines p = (''services:'' # head_lines p s @ [''    ports:'']) @ published_line q # tail"
proof -
  let ?final = "titled ''volumes:'' (map (\<lambda>v. ''  '' @ v @ '':'') (named_volumes p))
     @ titled ''networks:''
         (concat (map (\<lambda>n. [''  '' @ n @ '':'', ''    internal: true'']) (internal_networks p)))"
  have "compose_lines p = (''services:'' # head_lines p s @ [''    ports:'']) @ published_line q
      # (lines_some companion_lines (service_companion s) @ body_lines s
         @ concat (map (service_lines p) rest) @ ?final)"
    unfolding compose_lines_def assms(1) service_lines_def ports_lines_def assms(2)
    by (simp add: lines_some_def assms(2))
  then show thesis by (rule that)
qed

lemma quiet_ports: "list_all quiet ls \<Longrightarrow> \<forall>x \<in> set (map trim ls). port_of_line x = None"
  by (auto simp: list_all_iff quiet_port)

lemma find_first_published:
  "ls = a @ published_line q # tail \<Longrightarrow> list_all quiet a \<Longrightarrow> find_map port_of_line (map trim ls) = Some (host q)"
  using find_map_skip [OF quiet_ports [of a], of "map trim (published_line q # tail)"]
  by (simp add: port_of_published_line)

lemma first_published:
  assumes v: "validate p = Ok ()" and s: "services p = s # rest" "service_published s = Some q"
  shows "find_map port_of_line (map trim (compose_lines p)) = Some (host q)"
proof -
  have n: "is_plain_name (service_name s)"
    using service_validate_facts(2) [OF service_checks_facts(1) [OF validate_services(1) [OF v]]] s(1) by simp
  obtain tail where t: "compose_lines p = (''services:'' # head_lines p s @ [''    ports:'']) @ published_line q # tail"
    using first_published_line [OF s] .
  show ?thesis by (rule find_first_published [OF t head_quiet [OF n]])
qed

section \<open>Properties\<close>

lemma sample_plan_one_line: "one_line_mounts sample_plan"
  by code_simp

text \<open>
  Claim C6. No value of a validated plan whose mounts are single lines can add a line to its Compose
  file: \<^verbatim>\<open>to_compose\<close> succeeds and writes exactly the lines \<open>compose_lines\<close> lists, one per setting.
\<close>

theorem compose_has_no_other_lines:
  assumes "validate p = Ok ()" "one_line_mounts p"
  shows "\<exists>text. to_compose p = Ok text \<and> lines text = compose_lines p"
  by (rule compose_lines_exact [OF assms])

theorem compose_has_no_other_lines_witness:
  "\<exists>text. to_compose sample_plan = Ok text \<and> lines text = compose_lines sample_plan
     \<and> ''      - ./data:/data'' \<in> set (compose_lines sample_plan)"
proof -
  have "''      - ./data:/data'' \<in> set (compose_lines sample_plan)" by code_simp
  with compose_has_no_other_lines [OF sample_plan_valid sample_plan_one_line] show ?thesis by blast
qed

definition injecting_plan :: deployment_plan where
  "injecting_plan = \<lparr>plan_id = ''app'',
     services = [(sample_service ''app'')\<lparr>service_published := Some \<lparr>host = 5230, container = 80\<rparr>,
        mounts := [Directory ''data'' (''/data'' @ [newline] @ ''    privileged: true'') False]\<rparr>],
     named_volumes = [], internal_networks = []\<rparr>"


text \<open>
  A reinstall finds the address the app had: reading the rendered file of a validated plan
  whose first service publishes gives that service's host port.
\<close>

theorem published_port_round_trip:
  assumes "validate p = Ok ()" "one_line_mounts p" "services p = s # rest" "service_published s = Some q"
  shows "\<exists>text. to_compose p = Ok text \<and> published_host_port text = Some (host q)"
  using compose_lines_exact [OF assms(1,2)] first_published [OF assms(1,3,4)]
  by (auto simp: published_host_port_def)

theorem published_port_round_trip_witness:
  "\<exists>text. to_compose sample_plan = Ok text \<and> published_host_port text = Some 5230"
proof -
  obtain s rest where s: "services sample_plan = s # rest" "service_published s = Some \<lparr>host = 5230, container = 80\<rparr>"
    by (simp add: sample_plan_def)
  from published_port_round_trip [OF sample_plan_valid sample_plan_one_line s] show ?thesis by simp
qed

definition misread_plan :: deployment_plan where
  "misread_plan = \<lparr>plan_id = ''app'',
     services = [(sample_service ''db'')\<lparr>overrides := overrides_default\<lparr>command := Some (Exec [''127.0.0.1:9999:80''])\<rparr>\<rparr>,
        (sample_service ''app'')\<lparr>service_published := Some \<lparr>host = 5230, container = 80\<rparr>\<rparr>],
     named_volumes = [], internal_networks = []\<rparr>"

text \<open>
  When another service comes first, an argument of its command can be taken for the
  published address: here a reinstall would move the app from port 5230 to 9999.
\<close>

theorem argument_read_as_address:
  "(case to_compose misread_plan of Ok text \<Rightarrow> published_host_port text = Some 9999 | Err _ \<Rightarrow> False)
   \<and> map_option (\<lambda>x. host (snd x)) (published misread_plan) = Some 5230"
  by code_simp

text \<open>
  The second addresses are read back too: in the rendered file of a validated plan with
  single-line mounts and no environment variable named \<^verbatim>\<open>published\<close>, \<^verbatim>\<open>companion_host_ports\<close> finds for
  every service the host port of its second address, and nothing else.
\<close>

theorem companion_ports_round_trip:
  assumes "validate p = Ok ()" "one_line_mounts p"
    and "\<forall>s \<in> set (services p). ''published'' \<notin> fst ` set (environment s)"
  shows "\<exists>text. to_compose p = Ok text \<and> (\<forall>n. bt_get (companion_host_ports text) n
      = map_of (map (\<lambda>c. (service_name (fst c), host (snd c))) (companions p)) n)"
  using compose_lines_exact [OF assms(1,2)] companion_scan_compose [OF assms(1,3)]
    foldl_entry_get [OF _ validate_facts(2) [OF assms(1)], of "[]"]
  by (auto simp: companion_host_ports_def companions_def split: option.splits)

theorem companion_ports_round_trip_witness:
  "\<exists>text. to_compose sample_plan = Ok text \<and> bt_get (companion_host_ports text) ''db'' = Some 9000"
proof -
  have e: "\<forall>s \<in> set (services sample_plan). ''published'' \<notin> fst ` set (environment s)"
    by (simp add: sample_plan_def sample_service_def)
  have "map_of (map (\<lambda>c. (service_name (fst c), host (snd c))) (companions sample_plan)) ''db'' = Some 9000"
    by code_simp
  with companion_ports_round_trip [OF sample_plan_valid sample_plan_one_line e] show ?thesis by metis
qed

definition variable_plan :: deployment_plan where
  "variable_plan = \<lparr>plan_id = ''app'',
     services = [(sample_service ''app'')\<lparr>service_published := Some \<lparr>host = 5230, container = 80\<rparr>,
        environment := [(''published'', ''8080'')]\<rparr>],
     named_volumes = [], internal_networks = []\<rparr>"

text \<open>
  An environment variable named \<^verbatim>\<open>published\<close> is taken for a second address: a reinstall reads
  port 8080 for a service that has none.
\<close>

theorem variable_read_as_address:
  "companions variable_plan = []
   \<and> (case to_compose variable_plan of
        Ok text \<Rightarrow> companion_host_ports text = [(''app'', 8080)] | Err _ \<Rightarrow> False)"
  by code_simp

text \<open>
  \<^verbatim>\<open>scalar\<close> loses nothing: reading back what it wrote, by YAML's rules for plain and
  double-quoted scalars, gives the value; and a value it leaves bare is made of plain characters only
  and is not a number, boolean or null.
\<close>

theorem scalar_round_trip:
  "read_scalar (scalar v) = v
   \<and> (scalar v = v \<longleftrightarrow> bare_is_a_string v)
   \<and> (bare_is_a_string v \<longrightarrow> list_all is_bare_char v \<and> parse_i64 v = None \<and> \<not> parses_f64 v
        \<and> lowercase v \<notin> set yaml_words)"
proof -
  have grow: "length s \<le> length (replace [c] [d, e] s)" for c d e s
    by (induction s) (auto simp: replace_one)
  have "length v < length (scalar v)" if "\<not> bare_is_a_string v"
    using that grow [of v backslash backslash backslash]
      grow [of "replace [backslash] [backslash, backslash] v" dquote backslash dquote]
    by (simp add: scalar_def)
  then have "scalar v \<noteq> v" if "\<not> bare_is_a_string v" using that by fastforce
  moreover have "scalar v = v" if "bare_is_a_string v" using that by (simp add: scalar_def)
  ultimately show ?thesis unfolding bare_is_a_string_def using read_scalar_scalar by blast
qed

theorem scalar_round_trip_witness: "read_scalar (scalar ''true'') = ''true'' \<and> scalar ''true'' \<noteq> ''true''"
proof -
  have "\<not> bare_is_a_string ''true''" by code_simp
  with scalar_round_trip [of "''true''"] show ?thesis by blast
qed

end
