(* ===== verification/Plan_Ports.thy ===== *)
theory Plan_Ports
  imports Plan_Props
begin

text \<open>
  Choosing and moving addresses, and the directories an installer creates (\<^verbatim>\<open>src/plan.rs\<close>):
  \<^verbatim>\<open>choose_free_port\<close>, \<^verbatim>\<open>set_published_host\<close>, \<^verbatim>\<open>set_companion_host\<close>, \<^verbatim>\<open>data_directories\<close>.
\<close>

section \<open>Free ports\<close>

text \<open>The candidate \<open>k\<close> above the start: within the range of ports, not privileged, not in use.\<close>

definition free_at :: "(u16 \<Rightarrow> bool) \<Rightarrow> u16 \<Rightarrow> nat \<Rightarrow> bool" where
  "free_at available start k =
     (unat start + k < 65536 \<and> 1024 \<le> start + of_nat k \<and> available (start + of_nat k))"

lemma scan_ports_find:
  "offset + left \<le> 65536 \<Longrightarrow> scan_ports available start offset left =
     map_option (\<lambda>k. start + of_nat k) (find (free_at available start) [offset..<offset + left])"
proof (induction available start offset left rule: scan_ports.induct)
  case (2 available start offset left)
  have "unat (of_nat offset :: u16) = offset" using 2(3) by (simp add: unat_of_nat)
  then have add: "checked_add start (of_nat offset :: u16)
      = (if unat start + offset < 65536 then Some (start + of_nat offset) else None)"
    by (simp add: checked_add_def)
  have range: "[offset..<offset + Suc left] = offset # [Suc offset..<Suc offset + left]"
    by (simp add: upt_conv_Cons)
  have ih1: "scan_ports available start (Suc offset) left =
     map_option (\<lambda>k. start + of_nat k) (find (free_at available start) [Suc offset..<Suc offset + left])"
    if "\<not> free_at available start offset"
  proof -
    have "unat start + offset < 65536 \<Longrightarrow> 1024 \<le> start + of_nat offset \<Longrightarrow> \<not> available (start + of_nat offset)"
      using that by (simp add: free_at_def)
    then show ?thesis using 2 add by (cases "unat start + offset < 65536") auto
  qed
  show ?case
  proof (cases "free_at available start offset")
    case True
    then show ?thesis unfolding range by (simp add: add free_at_def)
  next
    case False
    then have "scan_ports available start offset (Suc left) = scan_ports available start (Suc offset) left"
      by (auto simp: add free_at_def split: option.splits)
    with ih1 [OF False] False show ?thesis unfolding range by simp
  qed
qed simp

text \<open>
  \<^verbatim>\<open>choose_free_port\<close> keeps the preferred port when it may; otherwise it returns the least
  free port among the next \<^verbatim>\<open>attempts\<close> ones above \<^verbatim>\<open>max(preferred, 1024)\<close>, never wrapping past 65535,
  and fails exactly when there is none.
\<close>

theorem choose_free_port_least:
  "choose_free_port available preferred attempts =
     (if 1024 \<le> preferred \<and> available preferred then Ok preferred
      else (case find (free_at available (max preferred 1024)) [1..<Suc (unat attempts)] of
              Some k \<Rightarrow> Ok (max preferred 1024 + of_nat k)
            | None \<Rightarrow> Err (Address (NoFreePort preferred))))"
proof -
  have "1 + unat attempts \<le> 65536" using unsigned_less [of attempts, where ?'a = nat] by simp
  from scan_ports_find [OF this, of available "max preferred 1024"]
  show ?thesis by (simp add: choose_free_port_def split: option.splits)
qed

lemma find_SomeD: "find P xs = Some x \<Longrightarrow> x \<in> set xs \<and> P x"
  by (induction xs) (auto split: if_splits)

text \<open>
  A port \<^verbatim>\<open>choose_free_port\<close> returns is free and at least 1024, and lies between the preferred
  port (or 1024) and \<^verbatim>\<open>attempts\<close> above it, without overflow.
\<close>

theorem choose_free_port_sound:
  assumes "choose_free_port available preferred attempts = Ok port"
  shows "available port \<and> 1024 \<le> port
    \<and> (port = preferred \<or> unat (max preferred 1024) < unat port
         \<and> unat port \<le> unat (max preferred 1024) + unat attempts)"
proof (cases "1024 \<le> preferred \<and> available preferred")
  case True
  with assms show ?thesis by (simp add: choose_free_port_def)
next
  case False
  with assms obtain k where k: "find (free_at available (max preferred 1024)) [1..<Suc (unat attempts)] = Some k"
    and port: "port = max preferred 1024 + of_nat k"
    by (auto simp: choose_free_port_least split: option.splits)
  from find_SomeD [OF k] have f: "free_at available (max preferred 1024) k" "1 \<le> k" "k \<le> unat attempts"
    by auto
  have "unat (of_nat k :: u16) = k"
    using f(3) unsigned_less [of attempts, where ?'a = nat] by (simp add: unat_of_nat)
  then have "unat port = unat (max preferred 1024) + k"
    using f(1) unfolding port free_at_def by (subst unat_add_lem [THEN iffD1]) simp_all
  with f port show ?thesis by (simp add: free_at_def)
qed

theorem choose_free_port_sound_witness:
  "choose_free_port (\<lambda>q. q = 8083) 8080 10 = Ok 8083 \<and> 1024 \<le> (8083 :: u16)"
proof -
  have "choose_free_port (\<lambda>q. q = 8083) 8080 10 = Ok 8083" by code_simp
  with choose_free_port_sound [OF this] show ?thesis by blast
qed

section \<open>Moving addresses\<close>

lemma move_first_published_shape:
  "map service_name (move_first_published h ss) = map service_name ss"
  "map mounts (move_first_published h ss) = map mounts ss"
  "map service_companion (move_first_published h ss) = map service_companion ss"
  by (induction ss) (auto split: option.splits)

lemma move_first_find:
  "find_map (\<lambda>s. map_option (Pair s) (service_published s)) (move_first_published h ss) =
     map_option (\<lambda>(s, q). (s\<lparr>service_published := Some (q\<lparr>host := h\<rparr>)\<rparr>, q\<lparr>host := h\<rparr>))
       (find_map (\<lambda>s. map_option (Pair s) (service_published s)) ss)"
  by (induction ss) (auto split: option.splits)

text \<open>
  \<^verbatim>\<open>set_published_host\<close> moves the one published address to the given host port, keeps its
  container port, and leaves every second address as it was.
\<close>

theorem set_published_host_moves:
  "published (set_published_host h p) =
     map_option (\<lambda>(s, q). (s\<lparr>service_published := Some (q\<lparr>host := h\<rparr>)\<rparr>, q\<lparr>host := h\<rparr>)) (published p)
   \<and> map service_companion (services (set_published_host h p)) = map service_companion (services p)"
  by (simp add: published_def set_published_host_def move_first_find move_first_published_shape)

text \<open>
  \<^verbatim>\<open>set_companion_host\<close> moves the second address of the named service and no other.
\<close>

theorem set_companion_host_moves:
  assumes "distinct (map service_name (services p))"
  shows "map (\<lambda>c. (service_name (fst c), snd c)) (companions (set_companion_host n h p)) =
    map (\<lambda>c. (service_name (fst c), if service_name (fst c) = n then (snd c)\<lparr>host := h\<rparr> else snd c)) (companions p)"
proof -
  have other: "map (\<lambda>c. (service_name (fst c), if service_name (fst c) = n then (snd c)\<lparr>host := h\<rparr> else snd c))
      (companions_of ss) = map (\<lambda>c. (service_name (fst c), snd c)) (companions_of ss)"
    if "n \<notin> set (map service_name ss)" for ss
    using that by (auto simp: companions_of_def split: option.splits)
  have "map (\<lambda>c. (service_name (fst c), snd c)) (companions_of (move_companion n h ss)) =
    map (\<lambda>c. (service_name (fst c), if service_name (fst c) = n then (snd c)\<lparr>host := h\<rparr> else snd c)) (companions_of ss)"
    if "distinct (map service_name ss)" for ss
    using that
  proof (induction ss)
    case (Cons s ss)
    have cons: "companions_of (s # us)
        = (case service_companion s of None \<Rightarrow> [] | Some q \<Rightarrow> [(s, q)]) @ companions_of us" for s us
      by (simp add: companions_of_def)
    show ?case
    proof (cases "service_name s = n")
      case True
      then have "n \<notin> set (map service_name ss)" using Cons.prems by auto
      from other [OF this] True show ?thesis by (simp add: cons split: option.split)
    next
      case False
      with Cons show ?thesis by (simp add: cons split: option.split)
    qed
  qed (simp add: companions_of_def)
  from this [OF assms] show ?thesis by (simp add: companions_def set_companion_host_def)
qed

theorem set_companion_host_moves_witness:
  "map (\<lambda>c. (service_name (fst c), snd c)) (companions (set_companion_host ''db'' 9100 sample_plan))
     = [(''db'', \<lparr>host = 9100, container = 9000\<rparr>)]"
  using set_companion_host_moves [of sample_plan "''db''" 9100]
  by (simp add: sample_plan_def sample_service_def companions_def companions_of_def)

text \<open>
  \<^verbatim>\<open>data_directories\<close> lists, sorted and each once, exactly the sources of the directory mounts:
  never a named volume and never a folder the person shared.
\<close>

theorem data_directories_exact:
  "sorted_wrt (<) (data_directories p)
   \<and> set (data_directories p) =
       {source. \<exists>s \<in> set (services p). \<exists>t r. Directory source t r \<in> set (mounts s)}"
proof -
  have "set (directories_of ms) = {source. \<exists>t r. Directory source t r \<in> set ms}" for ms
    by (force simp: directories_of_def split: plan_mount.splits)
  then show ?thesis by (auto simp: data_directories_def sorted_dedup)
qed

end
