(* ===== verification/Agent_Policy.thy ===== *)
theory Agent_Policy
  imports Rust_Str World
begin

text \<open>
  The authorization rules for agents, \<^verbatim>\<open>src/agent_policy.rs\<close>: grants per client and app, one-use
  owner approvals, and the audit of every attempt. The second half states the rules as a function of
  the history of calls and shows that the data structures implement it.
\<close>

section \<open>Data\<close>

datatype agent_action =
    Status | Start | Stop | Install | Uninstall | ReadContent | ReadFiles | WriteContent | Destructive

definition needs_approval :: "agent_action \<Rightarrow> bool" where
  "needs_approval act = (act \<in> {Install, Uninstall, WriteContent, Destructive})"

record agent_grant =
  client_id :: string
  app_id :: string
  actions :: "agent_action set"
  expires_at_unix :: u64

record approval =
  ap_client :: string
  ap_app :: string
  ap_action :: agent_action
  ap_expires :: u64

record audit_event =
  ev_client :: string
  ev_app :: string
  ev_action :: agent_action
  allowed :: bool
  at_unix :: u64

record agent_policy =
  grants :: "(string \<times> string, agent_grant) btree"
  approvals :: "(string, approval) btree"
  audit :: "audit_event list"

definition policy_default :: agent_policy where
  "policy_default = \<lparr>grants = [], approvals = [], audit = []\<rparr>"

definition valid_id :: "string \<Rightarrow> bool" where
  "valid_id s = (s \<noteq> [] \<and> length s \<le> 128
     \<and> list_all (\<lambda>b. is_alnum b \<or> b \<in> {CHR ''-'', CHR ''_'', CHR ''.''}) s)"

definition bounded_id :: "string \<Rightarrow> string" where
  "bounded_id s = (if valid_id s then s else ''invalid'')"

section \<open>Operations\<close>

definition grant_key :: "agent_grant \<Rightarrow> string \<times> string" where
  "grant_key g = (client_id g, app_id g)"

definition status_app_ids :: "agent_policy \<Rightarrow> string \<Rightarrow> u64 \<Rightarrow> string set" where
  "status_app_ids p c now =
     app_id ` {g \<in> set (bt_values (grants p)).
                 client_id g = c \<and> now < expires_at_unix g \<and> Status \<in> actions g}"

definition policy_grant :: "agent_policy \<Rightarrow> agent_grant \<Rightarrow> (app_error, agent_policy) result" where
  "policy_grant p g =
     (if \<not> valid_id (client_id g) \<or> \<not> valid_id (app_id g) \<or> actions g = {} \<or> expires_at_unix g = 0
      then Err (app_error_invalid ''Invalid agent grant.'')
      else Ok (p\<lparr>grants := bt_insert (grant_key g) g (grants p)\<rparr>))"

definition policy_revoke :: "agent_policy \<Rightarrow> string \<Rightarrow> string \<Rightarrow> agent_policy" where
  "policy_revoke p c a =
     p\<lparr>grants := bt_remove (c, a) (grants p),
       approvals := bt_retain (\<lambda>_ v. ap_client v \<noteq> c \<or> ap_app v \<noteq> a) (approvals p)\<rparr>"

definition policy_revoke_client :: "agent_policy \<Rightarrow> string \<Rightarrow> agent_policy" where
  "policy_revoke_client p c =
     p\<lparr>grants := bt_retain (\<lambda>k _. fst k \<noteq> c) (grants p),
       approvals := bt_retain (\<lambda>_ v. ap_client v \<noteq> c) (approvals p)\<rparr>"

definition policy_approve ::
  "agent_policy \<Rightarrow> string \<Rightarrow> string \<Rightarrow> agent_action \<Rightarrow> u64 \<Rightarrow> (app_error, string \<times> agent_policy) prog" where
  "policy_approve p c a act expires =
     (if \<not> valid_id c \<or> \<not> valid_id a \<or> expires = 0 \<or> \<not> needs_approval act
      then io_fail (app_error_invalid ''Invalid agent approval.'')
      else io_bind (random_bytes 32) (\<lambda>r.
        (case r of
           None \<Rightarrow> io_fail (app_error_internal ''Could not create an agent approval.'')
         | Some bytes \<Rightarrow>
             (let ticket = hex_bytes bytes
              in io_return (ticket,
                   p\<lparr>approvals := bt_insert ticket
                        \<lparr>ap_client = c, ap_app = a, ap_action = act, ap_expires = expires\<rparr>
                        (approvals p)\<rparr>)))))"

definition grant_covers :: "agent_grant \<Rightarrow> agent_action \<Rightarrow> u64 \<Rightarrow> bool" where
  "grant_covers g act now = (now < expires_at_unix g \<and> act \<in> actions g)"

definition approval_covers :: "approval \<Rightarrow> string \<Rightarrow> string \<Rightarrow> agent_action \<Rightarrow> u64 \<Rightarrow> bool" where
  "approval_covers v c a act now =
     (ap_client v = c \<and> ap_app v = a \<and> ap_action v = act \<and> now < ap_expires v)"

definition holds :: "('a \<Rightarrow> bool) \<Rightarrow> 'a option \<Rightarrow> bool" where
  "holds P x = (case x of None \<Rightarrow> False | Some v \<Rightarrow> P v)"

text \<open>\<^verbatim>\<open>audit.push(event); if audit.len() > 2048 { audit.remove(0) }\<close>.\<close>

definition push_audit :: "int \<Rightarrow> audit_event \<Rightarrow> audit_event list \<Rightarrow> audit_event list" where
  "push_audit limit e es = (if int (length (es @ [e])) > limit then remove_at 0 (es @ [e]) else es @ [e])"

definition policy_authorize ::
  "agent_policy \<Rightarrow> string \<Rightarrow> string \<Rightarrow> agent_action \<Rightarrow> string option \<Rightarrow> u64
   \<Rightarrow> app_error check \<times> agent_policy" where
  "policy_authorize p c a act ticket now =
     (let granted = holds (\<lambda>g. grant_covers g act now) (bt_get (grants p) (c, a));
          removed = (if needs_approval act then Option.bind ticket (bt_get (approvals p)) else None);
          left = (case (needs_approval act, ticket) of
                    (True, Some t) \<Rightarrow> bt_remove t (approvals p)
                  | _ \<Rightarrow> approvals p);
          approved = (if needs_approval act
                      then holds (\<lambda>v. approval_covers v c a act now) removed
                      else ticket = None);
          permit = (granted \<and> approved \<and> valid_id c \<and> valid_id a);
          event = \<lparr>ev_client = bounded_id c, ev_app = bounded_id a, ev_action = act,
                   allowed = permit, at_unix = now\<rparr>
      in (ensure permit (app_error_new Forbidden ''Agent access denied.''),
          p\<lparr>approvals := left, audit := push_audit 2048 event (audit p)\<rparr>))"

section \<open>Invariant\<close>

definition grant_ok :: "agent_grant \<Rightarrow> bool" where
  "grant_ok g = (valid_id (client_id g) \<and> valid_id (app_id g) \<and> actions g \<noteq> {} \<and> expires_at_unix g \<noteq> 0)"

definition event_ok :: "audit_event \<Rightarrow> bool" where
  "event_ok e = (valid_id (ev_client e) \<and> valid_id (ev_app e))"

definition policy_ok :: "agent_policy \<Rightarrow> bool" where
  "policy_ok p =
     (bt_ok (grants p) \<and> bt_ok (approvals p)
      \<and> (\<forall>(k, g) \<in> set (grants p). k = grant_key g \<and> grant_ok g)
      \<and> length (audit p) \<le> 2048 \<and> list_all event_ok (audit p))"

lemma policy_okD:
  assumes "policy_ok p"
  shows "bt_ok (grants p)" "bt_ok (approvals p)" "length (audit p) \<le> 2048"
    "list_all event_ok (audit p)" "(k, g) \<in> set (grants p) \<Longrightarrow> k = grant_key g \<and> grant_ok g"
  using assms by (auto simp: policy_ok_def)

lemma policy_default_ok [simp]: "policy_ok policy_default"
  by (simp add: policy_ok_def policy_default_def)

lemma policy_default_fields [simp]:
  "grants policy_default = []" "approvals policy_default = []" "audit policy_default = []"
  by (simp_all add: policy_default_def)

lemma length_push_audit: "int (length es) \<le> limit \<Longrightarrow> int (length (push_audit limit e es)) \<le> limit"
  by (auto simp: push_audit_def length_remove_at)

lemma length_push_audit_2048 [intro]: "length es \<le> 2048 \<Longrightarrow> length (push_audit 2048 e es) \<le> 2048"
  using length_push_audit [of es 2048 e] by simp

lemma push_audit_last: "0 < limit \<Longrightarrow> last (push_audit limit e es) = e \<and> push_audit limit e es \<noteq> []"
  by (auto simp: push_audit_def remove_at_def)

lemma push_audit_ok: "list_all event_ok es \<Longrightarrow> event_ok e \<Longrightarrow> list_all event_ok (push_audit limit e es)"
  using set_remove_at_subset [of 0 "es @ [e]"] by (auto simp: push_audit_def list_all_iff)

lemma bounded_id_valid [simp]: "valid_id (bounded_id s)"
  by (simp add: bounded_id_def valid_id_def is_alnum_def is_alpha_def is_lower_def)

lemma policy_grant_Ok_iff:
  "policy_grant p g = Ok p' \<longleftrightarrow> grant_ok g \<and> p' = p\<lparr>grants := bt_insert (grant_key g) g (grants p)\<rparr>"
  by (auto simp: policy_grant_def grant_ok_def)

lemma policy_grant_ok: "policy_ok p \<Longrightarrow> policy_grant p g = Ok p' \<Longrightarrow> policy_ok p'"
  by (auto simp: policy_grant_Ok_iff policy_ok_def in_set_bt_insert split: if_splits)

lemma policy_revoke_ok: "policy_ok p \<Longrightarrow> policy_ok (policy_revoke p c a)"
  by (auto simp: policy_ok_def policy_revoke_def bt_remove_def bt_retain_def bt_ok_filter)

lemma policy_revoke_client_ok: "policy_ok p \<Longrightarrow> policy_ok (policy_revoke_client p c)"
  by (auto simp: policy_ok_def policy_revoke_client_def bt_retain_def bt_ok_filter)

lemma policy_approve_Done_iff:
  "policy_approve p c a act e w = (Done (t, p'), w') \<longleftrightarrow>
     valid_id c \<and> valid_id a \<and> e \<noteq> 0 \<and> needs_approval act
     \<and> (\<exists>bytes. random_bytes 32 w = (Done (Some bytes) :: (app_error, char list option) run, w')
          \<and> t = hex_bytes bytes
          \<and> p' = p\<lparr>approvals := bt_insert t \<lparr>ap_client = c, ap_app = a, ap_action = act, ap_expires = e\<rparr>
                      (approvals p)\<rparr>)"
  unfolding policy_approve_def io_bind_def
  by (auto simp: Let_def split: prod.splits run.splits option.splits)

lemma policy_approve_ok: "policy_ok p \<Longrightarrow> policy_approve p c a act e w = (Done (t, p'), w') \<Longrightarrow> policy_ok p'"
  by (auto simp: policy_approve_Done_iff policy_ok_def)

lemma policy_authorize_grants [simp]: "grants (snd (policy_authorize p c a act t now)) = grants p"
  by (simp add: policy_authorize_def Let_def)

lemma policy_authorize_ok: "policy_ok p \<Longrightarrow> policy_ok (snd (policy_authorize p c a act t now))"
  by (auto simp: policy_ok_def policy_authorize_def Let_def event_ok_def
      intro!: length_push_audit_2048 push_audit_ok split: option.splits bool.splits)

lemma policy_authorize_fst:
  "fst (policy_authorize p c a act t now) = Ok () \<longleftrightarrow>
     valid_id c \<and> valid_id a
     \<and> (\<exists>g. bt_get (grants p) (c, a) = Some g \<and> grant_covers g act now)
     \<and> (if needs_approval act
        then \<exists>t' v. t = Some t' \<and> bt_get (approvals p) t' = Some v \<and> approval_covers v c a act now
        else t = None)"
  by (auto simp: policy_authorize_def Let_def holds_def bind_eq_Some_conv split: option.splits)

lemma policy_authorize_approvals:
  "approvals (snd (policy_authorize p c a act t now)) =
     (case (needs_approval act, t) of (True, Some t') \<Rightarrow> bt_remove t' (approvals p) | _ \<Rightarrow> approvals p)"
  by (simp add: policy_authorize_def Let_def)

lemma policy_authorize_audit:
  "audit (snd (policy_authorize p c a act t now)) =
     push_audit 2048 \<lparr>ev_client = bounded_id c, ev_app = bounded_id a, ev_action = act,
        allowed = (fst (policy_authorize p c a act t now) = Ok ()), at_unix = now\<rparr> (audit p)"
  by (simp add: policy_authorize_def Let_def)

section \<open>The rules as a function of the history\<close>

text \<open>The calls on a policy, with what they returned.\<close>

datatype policy_event =
    Granted agent_grant
  | Revoked string string
  | Client_revoked string
  | Approved string approval
  | Asked string string agent_action "string option" u64 bool

inductive policy_step :: "agent_policy \<Rightarrow> policy_event \<Rightarrow> agent_policy \<Rightarrow> bool" where
  step_grant: "policy_grant p g = Ok p' \<Longrightarrow> policy_step p (Granted g) p'"
| step_revoke: "policy_step p (Revoked c a) (policy_revoke p c a)"
| step_revoke_client: "policy_step p (Client_revoked c) (policy_revoke_client p c)"
| step_approve: "policy_approve p c a act e w = (Done (t, p'), w') \<Longrightarrow>
    policy_step p (Approved t \<lparr>ap_client = c, ap_app = a, ap_action = act, ap_expires = e\<rparr>) p'"
| step_ask: "policy_authorize p c a act t now = (r, p') \<Longrightarrow>
    policy_step p (Asked c a act t now (r = Ok ())) p'"

inductive_simps policy_step_simps:
  "policy_step p (Granted g) p'"
  "policy_step p (Revoked c a) p'"
  "policy_step p (Client_revoked c) p'"
  "policy_step p (Approved t v) p'"
  "policy_step p (Asked c a act t now ok) p'"

text \<open>A history lists the latest call first; it starts at a policy read from disk, which has no
  approvals.\<close>

inductive policy_run :: "agent_policy \<Rightarrow> policy_event list \<Rightarrow> agent_policy \<Rightarrow> bool" where
  run_start: "policy_ok p \<Longrightarrow> approvals p = [] \<Longrightarrow> policy_run p [] p"
| run_step: "policy_run p0 es p \<Longrightarrow> policy_step p e p' \<Longrightarrow> policy_run p0 (e # es) p'"

fun standing_grant ::
  "(string \<times> string \<Rightarrow> agent_grant option) \<Rightarrow> policy_event list \<Rightarrow> string \<times> string \<Rightarrow> agent_grant option" where
  "standing_grant g0 [] k = g0 k"
| "standing_grant g0 (Granted g # es) k = (if k = grant_key g then Some g else standing_grant g0 es k)"
| "standing_grant g0 (Revoked c a # es) k = (if k = (c, a) then None else standing_grant g0 es k)"
| "standing_grant g0 (Client_revoked c # es) k = (if fst k = c then None else standing_grant g0 es k)"
| "standing_grant g0 (_ # es) k = standing_grant g0 es k"

fun open_approval :: "policy_event list \<Rightarrow> string \<Rightarrow> approval option" where
  "open_approval [] t = None"
| "open_approval (Approved t' v # es) t = (if t = t' then Some v else open_approval es t)"
| "open_approval (Asked c a act (Some t') now ok # es) t =
     (if needs_approval act \<and> t = t' then None else open_approval es t)"
| "open_approval (Revoked c a # es) t =
     (case open_approval es t of None \<Rightarrow> None
      | Some v \<Rightarrow> if ap_client v = c \<and> ap_app v = a then None else Some v)"
| "open_approval (Client_revoked c # es) t =
     (case open_approval es t of None \<Rightarrow> None | Some v \<Rightarrow> if ap_client v = c then None else Some v)"
| "open_approval (_ # es) t = open_approval es t"

lemma policy_step_ok: "policy_step p e p' \<Longrightarrow> policy_ok p \<Longrightarrow> policy_ok p'"
proof (induction rule: policy_step.induct)
  case (step_ask p c a act t now r p')
  then show ?case using policy_authorize_ok [of p c a act t now] by simp
qed (auto intro: policy_grant_ok policy_revoke_ok policy_revoke_client_ok policy_approve_ok)

lemma policy_run_ok: "policy_run p0 es p \<Longrightarrow> policy_ok p"
  by (induction rule: policy_run.induct) (auto intro: policy_step_ok)

lemma policy_step_asked:
  assumes "policy_step p (Asked c a act t now ok) p'"
  shows "p' = snd (policy_authorize p c a act t now)"
    and "ok \<longleftrightarrow> fst (policy_authorize p c a act t now) = Ok ()"
  using assms by (auto simp: policy_step_simps)

lemma standing_grant_step:
  assumes "policy_step p e p'" "policy_ok p" "bt_get (grants p) = standing_grant g0 es"
  shows "bt_get (grants p') = standing_grant g0 (e # es)"
proof (cases e)
  case (Asked c a act t now ok)
  then show ?thesis using assms(1,3) by (auto dest!: policy_step_asked(1) simp: fun_eq_iff)
qed (use assms policy_okD(1) [OF assms(2)] in
      \<open>auto simp: policy_step_simps policy_grant_Ok_iff policy_revoke_def policy_revoke_client_def
         policy_approve_Done_iff bt_get_insert bt_get_remove bt_get_retain fun_eq_iff split: option.splits\<close>)

lemma open_approval_step:
  assumes "policy_step p e p'" "policy_ok p" "bt_get (approvals p) = open_approval es"
  shows "bt_get (approvals p') = open_approval (e # es)"
proof (cases e)
  case (Asked c a act t now ok)
  then have "approvals p' =
      (case (needs_approval act, t) of (True, Some t') \<Rightarrow> bt_remove t' (approvals p) | _ \<Rightarrow> approvals p)"
    using assms(1) by (auto dest!: policy_step_asked(1) simp: policy_authorize_approvals)
  then show ?thesis using Asked assms(3)
    by (cases t) (auto simp: fun_eq_iff bt_get_remove split: bool.splits)
qed (use assms policy_okD(2) [OF assms(2)] in
      \<open>auto simp: policy_step_simps policy_grant_Ok_iff policy_revoke_def policy_revoke_client_def
         policy_approve_Done_iff bt_get_insert bt_get_retain fun_eq_iff split: option.splits\<close>)

lemma policy_run_abstract:
  "policy_run p0 es p \<Longrightarrow>
     bt_get (grants p) = standing_grant (bt_get (grants p0)) es \<and> bt_get (approvals p) = open_approval es"
proof (induction rule: policy_run.induct)
  case (run_step p0 es p e p')
  then show ?case using standing_grant_step open_approval_step policy_run_ok by blast
qed (auto simp: fun_eq_iff)

text \<open>The rule a client is held to, over the history only.\<close>

definition may_act ::
  "(string \<times> string \<Rightarrow> agent_grant option) \<Rightarrow> policy_event list \<Rightarrow> string \<Rightarrow> string \<Rightarrow> agent_action
   \<Rightarrow> string option \<Rightarrow> u64 \<Rightarrow> bool" where
  "may_act g0 es c a act ticket now =
     (holds (\<lambda>g. grant_covers g act now) (standing_grant g0 es (c, a))
      \<and> (if needs_approval act
         then (case ticket of None \<Rightarrow> False
               | Some t \<Rightarrow> holds (\<lambda>v. approval_covers v c a act now) (open_approval es t))
         else ticket = None)
      \<and> valid_id c \<and> valid_id a)"

fun issues :: "string \<Rightarrow> policy_event list \<Rightarrow> nat" where
  "issues t [] = 0"
| "issues t (Approved t' v # es) = (if t' = t then 1 else 0) + issues t es"
| "issues t (_ # es) = issues t es"

fun uses :: "string \<Rightarrow> policy_event list \<Rightarrow> nat" where
  "uses t [] = 0"
| "uses t (Asked c a act (Some t') now ok # es) = (if t' = t \<and> ok then 1 else 0) + uses t es"
| "uses t (_ # es) = uses t es"

lemma open_approval_budget:
  "policy_run p0 es p \<Longrightarrow> uses t es + (if open_approval es t = None then 0 else 1) \<le> issues t es"
proof (induction rule: policy_run.induct)
  case (run_step p0 es p e p')
  show ?case
  proof (cases e)
    case (Asked c a act t' now ok)
    have "ok \<Longrightarrow> (if needs_approval act
        then \<exists>u v. t' = Some u \<and> open_approval es u = Some v else t' = None)"
      using policy_authorize_fst [of p c a act t' now] policy_run_abstract [OF run_step.hyps(1)]
        policy_step_asked(2) [OF run_step.hyps(2) [unfolded Asked]]
      by (auto split: if_splits)
    then show ?thesis using run_step.IH Asked
      by (cases t') (auto split: if_splits)
  qed (use run_step.IH in \<open>auto split: if_splits option.splits\<close>)
qed auto

section \<open>A small history\<close>

definition sample_entropy :: world where
  "sample_entropy = \<lparr>files = (\<lambda>_. None), dirs = {}, locked = {}, clock_secs = Some 5, clock_nanos = 0,
     entropy = replicate 32 (CHR ''a''), faults = []\<rparr>"

definition sample_grant :: agent_grant where
  "sample_grant = \<lparr>client_id = ''c'', app_id = ''a'', actions = {Status, Install}, expires_at_unix = 100\<rparr>"

definition sample_approval :: approval where
  "sample_approval = \<lparr>ap_client = ''c'', ap_app = ''a'', ap_action = Install, ap_expires = 50\<rparr>"

definition sample_ticket :: string where
  "sample_ticket = hex_bytes (replicate 32 (CHR ''a''))"

definition sample_history :: "policy_event list" where
  "sample_history = [Approved sample_ticket sample_approval, Granted sample_grant]"

definition sample_policy :: agent_policy where
  "sample_policy = \<lparr>grants = [((''c'', ''a''), sample_grant)],
     approvals = [(sample_ticket, sample_approval)], audit = []\<rparr>"

lemma valid_id_samples [simp]: "valid_id ''c''" "valid_id ''a''"
  by (simp_all add: valid_id_def is_alnum_def is_alpha_def is_lower_def)

lemma sample_run: "policy_run policy_default sample_history sample_policy"
proof -
  let ?p1 = "policy_default\<lparr>grants := [((''c'', ''a''), sample_grant)]\<rparr>"
  have g: "policy_step policy_default (Granted sample_grant) ?p1"
    by (simp add: policy_step_simps policy_grant_Ok_iff grant_ok_def sample_grant_def grant_key_def
        policy_default_def)
  have "policy_approve ?p1 ''c'' ''a'' Install 50 sample_entropy =
      (Done (sample_ticket, sample_policy), sample_entropy\<lparr>entropy := []\<rparr>)"
    unfolding policy_approve_Done_iff
    by (simp add: needs_approval_def random_bytes_def sample_entropy_def sample_ticket_def
        sample_policy_def sample_approval_def policy_default_def)
  then have a: "policy_step ?p1 (Approved sample_ticket sample_approval) sample_policy"
    unfolding sample_approval_def by (rule step_approve)
  have s: "policy_run policy_default [] policy_default"
    by (rule run_start) (simp_all add: policy_default_def policy_ok_def)
  show ?thesis unfolding sample_history_def by (rule run_step [OF run_step [OF s g] a])
qed

section \<open>Properties\<close>

text \<open>
  Claim C9. Whatever calls were made on a policy, a request is allowed exactly when the latest
  decision on its client and app is a grant that has not expired and lists the action, and, for an
  action that needs approval, the presented ticket is the owner's unused, unrevoked and unexpired
  approval of exactly this client, app and action; for the other actions no ticket may be given.
\<close>

theorem authorize_follows_history:
  assumes "policy_run p0 es p"
  shows "fst (policy_authorize p c a act ticket now) = Ok ()
     \<longleftrightarrow> may_act (bt_get (grants p0)) es c a act ticket now"
  using policy_run_abstract [OF assms]
  by (auto simp: policy_authorize_fst may_act_def holds_def split: option.splits)

theorem authorize_follows_history_witness:
  "fst (policy_authorize sample_policy ''c'' ''a'' Install (Some sample_ticket) 7) = Ok ()
   \<and> fst (policy_authorize sample_policy ''c'' ''a'' Install None 7) \<noteq> Ok ()
   \<and> fst (policy_authorize sample_policy ''c'' ''a'' Install (Some sample_ticket) 60) \<noteq> Ok ()"
  unfolding authorize_follows_history [OF sample_run]
  by (simp add: may_act_def sample_history_def holds_def grant_covers_def approval_covers_def
      sample_grant_def sample_approval_def grant_key_def needs_approval_def)

text \<open>
  Claim C19. An owner approval is used at most once: over any history, the requests allowed with a
  ticket are at most as many as the approvals that issued this ticket, also when the request that
  spent it was denied, the client was revoked or the ticket expired in between.
\<close>

theorem tickets_used_once:
  assumes "policy_run p0 es p"
  shows "uses t es \<le> issues t es"
  using open_approval_budget [OF assms, of t] by simp

theorem tickets_used_once_witness: "uses sample_ticket sample_history \<le> 1"
  using tickets_used_once [OF sample_run, of sample_ticket] by (simp add: sample_history_def)

text \<open>
  Every policy the program can reach keeps its grants under the key of their own client
  and app with valid identifiers, a nonempty set of actions and an expiry, and at most 2048 audit
  entries with valid identifiers; every request, allowed or denied, is the last audit entry after it.
\<close>

theorem policy_invariant:
  assumes "policy_run p0 es p"
  shows "policy_ok p
     \<and> last (audit (snd (policy_authorize p c a act ticket now))) =
         \<lparr>ev_client = bounded_id c, ev_app = bounded_id a, ev_action = act,
          allowed = (fst (policy_authorize p c a act ticket now) = Ok ()), at_unix = now\<rparr>"
  using policy_run_ok [OF assms] by (simp add: policy_authorize_audit push_audit_last)

theorem policy_invariant_witness:
  "policy_ok sample_policy
   \<and> last (audit (snd (policy_authorize sample_policy ''c d'' ''a'' Start None 9))) =
       \<lparr>ev_client = ''invalid'', ev_app = ''a'', ev_action = Start, allowed = False, at_unix = 9\<rparr>"
  using policy_invariant [OF sample_run, of "''c d''" "''a''" Start None 9]
  by (simp add: policy_authorize_fst bounded_id_def valid_id_def is_alnum_def is_alpha_def
      is_lower_def is_upper_def is_digit_def)

end
