(* ===== verification/Json_Store.thy ===== *)
theory Json_Store
  imports Storage_Props
begin

text \<open>
  The small JSON files the program keeps beside the registry (agent policy, agent credentials, agent
  requests) are opened and saved the same way: an exclusive lock file, a bounded read, a check of
  what was decoded, and an atomic write. The steps they share, and their contract as a locale.
\<close>

section \<open>Shared steps\<close>

definition open_locked :: "path \<Rightarrow> string \<Rightarrow> string \<Rightarrow> (app_error, unit) prog" where
  "open_locked root name busy =
     io_bind (io_map_err from_io (fs_create_dir_all root)) (\<lambda>_.
     io_bind (io_map_err from_io (fs_open_lock (path_join root name))) (\<lambda>_.
     io_bind (fs_try_lock (path_join root name)) (\<lambda>free.
       io_ensure free (app_error_new OperationBusy busy))))"

definition read_bounded :: "path \<Rightarrow> int \<Rightarrow> app_error \<Rightarrow> (app_error, bytes option) prog" where
  "read_bounded p limit corrupt =
     io_bind (fs_exists p) (\<lambda>there.
       if \<not> there then io_return None
       else io_bind (io_map_err from_io (fs_metadata_len p)) (\<lambda>n.
              if limit < int n then io_fail corrupt
              else io_bind (io_map_err from_io (fs_read p)) (\<lambda>b. io_return (Some b))))"

text \<open>Opening a store: lock, read, check.\<close>

definition open_checked ::
  "path \<Rightarrow> string \<Rightarrow> string \<Rightarrow> string \<Rightarrow> int \<Rightarrow> app_error
   \<Rightarrow> (bytes option \<Rightarrow> (app_error, 'v) result) \<Rightarrow> (app_error, 'v) prog" where
  "open_checked root lock busy name limit corrupt check =
     io_bind (open_locked root lock busy) (\<lambda>_.
     io_bind (read_bounded (path_join root name) limit corrupt) (\<lambda>b. io_lift (check b)))"

definition write_bounded ::
  "path \<Rightarrow> int \<Rightarrow> bytes option \<Rightarrow> app_error \<Rightarrow> app_error \<Rightarrow> (app_error, unit) prog" where
  "write_bounded p limit encoded not_encoded too_large =
     (case encoded of
        None \<Rightarrow> io_fail not_encoded
      | Some b \<Rightarrow>
          if limit < int (length b) then io_fail too_large
          else io_map_err from_storage (write_file_atomically p b))"

text \<open>\<^verbatim>\<open>let r = m;\<close>: the outcome is kept and the program goes on, unless the process dies.\<close>

definition io_try :: "('e, 'a) prog \<Rightarrow> ('f, ('e, 'a) result) prog" where
  "io_try m = io_match m (\<lambda>x. io_return (Ok x)) (\<lambda>e. io_return (Err e))"

lemma io_try_Done: "io_try m w = (Done r, w') \<longleftrightarrow>
    m w = (case r of Ok x \<Rightarrow> (Done x, w') | Err e \<Rightarrow> (Failed e, w'))"
  by (auto simp: io_try_def io_match_def split: prod.splits run.splits result.splits)

lemma io_try_Failed [simp]: "io_try m w \<noteq> (Failed e, w')"
  by (auto simp: io_try_def io_match_def split: prod.splits run.splits)

lemma io_try_Crashed [simp]: "io_try m w = (Crashed, w') \<longleftrightarrow> m w = (Crashed, w')"
  by (auto simp: io_try_def io_match_def split: prod.splits run.splits)

section \<open>How the steps run\<close>

text \<open>A run that returns, taken apart step by step.\<close>

lemma io_bind_Done_iff:
  "io_bind m f w = (Done y, w') \<longleftrightarrow> (\<exists>x w1. m w = (Done x, w1) \<and> f x w1 = (Done y, w'))"
  by (auto simp: io_bind_def split: prod.splits run.splits)

lemma io_return_Done: "io_return x w = (Done y, w') \<longleftrightarrow> x = y \<and> w = w'"
  by simp

lemma io_ensure_Done: "io_ensure c e w = (Done u, w') \<longleftrightarrow> c \<and> w = w'"
  by (cases c) auto

lemma io_lift_Done: "io_lift r w = (Done y, w') \<longleftrightarrow> r = Ok y \<and> w = w'"
  by (cases r) auto

lemmas io_done = io_bind_Done_iff io_return_Done io_ensure_Done io_lift_Done

lemma open_locked_keeps: "open_locked root name busy w = (r, w') \<Longrightarrow> keeps {path_join root name} w w'"
  unfolding open_locked_def io_bind_def io_map_err_run fs_create_dir_all_def fs_open_lock_def fs_op_def
    fs_try_lock_def io_ensure_def
  by (auto simp: keeps_def split: fault.splits if_splits)

lemma open_locked_Done:
  "open_locked root name busy w = (Done u, w') \<Longrightarrow> path_join root name \<notin> locked w"
  unfolding open_locked_def io_bind_def io_map_err_run fs_create_dir_all_def fs_open_lock_def fs_op_def
    fs_try_lock_def io_ensure_def
  by (auto split: fault.splits if_splits)

lemma open_locked_calm:
  assumes "calm w" "path_join root name \<notin> locked w"
  shows "\<exists>w'. open_locked root name busy w = (Done (), w') \<and> calm w'
     \<and> (\<forall>q. q \<in> dirs w' \<longrightarrow> q \<in> dirs w \<or> length q \<le> length root)"
proof -
  have c: "calm (w\<lparr>dirs := d\<rparr>) = calm w" for d w by (simp add: calm_def)
  have n: "next_fault (w\<lparr>dirs := d\<rparr>) = next_fault w" for d w by (simp add: next_fault_def)
  show ?thesis
    unfolding open_locked_def io_bind_def io_map_err_run fs_create_dir_all_def fs_open_lock_def fs_op_def
      fs_try_lock_def io_ensure_def
    using assms by (auto simp: c)
qed

lemma read_bounded_keeps: "read_bounded p limit e w = (r, w') \<Longrightarrow> keeps {} w w'"
  unfolding read_bounded_def io_bind_def io_map_err_run fs_exists_def fs_metadata_len_def fs_read_def fs_op_def
  by (auto simp: keeps_def split: fault.splits if_splits option.splits)

lemma read_bounded_Done:
  "read_bounded p limit e w = (Done b, w') \<Longrightarrow>
     files w p = b \<and> (\<forall>x. b = Some x \<longrightarrow> int (length x) \<le> limit)"
  unfolding read_bounded_def io_bind_def io_map_err_run fs_exists_def fs_metadata_len_def fs_read_def fs_op_def
  by (auto split: fault.splits if_splits option.splits)

lemma read_bounded_calm:
  assumes "calm w" "files w p = b" "p \<notin> dirs w" "\<And>x. b = Some x \<Longrightarrow> int (length x) \<le> limit"
  shows "\<exists>w'. read_bounded p limit e w = (Done b, w')"
  unfolding read_bounded_def io_bind_def io_map_err_run fs_exists_def
  using assms by (cases b) (auto simp: fs_metadata_len_calm fs_read_calm)

lemma write_bounded_cases:
  assumes "write_bounded p limit enc e1 e2 w = (r, w')"
  obtains
    (written) b where "enc = Some b" "int (length b) \<le> limit" "write_file_atomically p b w = (Done (), w')" "r = Done ()"
  | (failed) b r' where "write_file_atomically p b w = (r', w')" "r' \<noteq> Done ()" "r \<noteq> Done ()"
  | (none) "w' = w" "r \<noteq> Done ()"
proof (cases enc)
  case None
  then show ?thesis using assms none by (auto simp: write_bounded_def)
next
  case (Some b)
  obtain r' w1 where run: "write_file_atomically p b w = (r', w1)" by force
  show ?thesis
  proof (cases "limit < int (length b)")
    case True
    then show ?thesis using assms none Some by (auto simp: write_bounded_def)
  next
    case False
    then show ?thesis using assms Some run written [of b] failed [of b r']
      by (cases r') (auto simp: write_bounded_def io_map_err_run)
  qed
qed

lemma write_bounded_run:
  assumes "write_bounded p limit enc e1 e2 w = (r, w')"
  shows "keeps (insert p (temps p)) w w'"
    and "r = Done u \<Longrightarrow> \<exists>b. enc = Some b \<and> int (length b) \<le> limit \<and> files w' p = Some b"
    and "r \<noteq> Done () \<Longrightarrow> files w' p = files w p \<or> files w' p = None"
  using assms by (cases rule: write_bounded_cases; auto dest: wfa.on_frame wfa.on_done wfa.on_other)+

lemma lock_beside:
  assumes "name \<noteq> lock" "hd lock \<noteq> CHR ''.''" "lock \<noteq> []"
  shows "path_join root lock \<noteq> path_join root name" "path_join root lock \<notin> temps (path_join root name)"
  using assms by (auto simp: temps_def temp_path_def path_join_def)

section \<open>The contract\<close>

locale json_store =
  fixes opens :: "path \<Rightarrow> (app_error, 'v) prog"
    and saves :: "path \<Rightarrow> 'v \<Rightarrow> (app_error, unit) prog"
    and target :: "path \<Rightarrow> path"
    and lockfile :: "path \<Rightarrow> path"
    and enc :: "'v \<Rightarrow> bytes option"
    and dec :: "bytes option \<Rightarrow> 'v option"
  assumes apart: "lockfile root \<noteq> target root" "lockfile root \<notin> temps (target root)"
    and opens_frame: "opens root w = (r, w') \<Longrightarrow> keeps {lockfile root} w w'"
    and opens_Done: "opens root w = (Done v, w') \<Longrightarrow>
          dec (files w (target root)) = Some v \<and> lockfile root \<notin> locked w"
    and opens_calm: "calm w \<Longrightarrow> lockfile root \<notin> locked w \<Longrightarrow> target root \<notin> dirs w \<Longrightarrow>
          dec (files w (target root)) = Some v \<Longrightarrow> \<exists>w'. opens root w = (Done v, w')"
    and saves_frame: "saves root v w = (s, w') \<Longrightarrow> keeps (insert (target root) (temps (target root))) w w'"
    and saves_Done: "saves root v w = (Done u, w') \<Longrightarrow>
          \<exists>b. enc v = Some b \<and> files w' (target root) = Some b"
    and saves_other: "saves root v w = (s, w') \<Longrightarrow> s \<noteq> Done () \<Longrightarrow>
          files w' (target root) = files w (target root) \<or> files w' (target root) = None"
begin

definition reads_back :: "'v \<Rightarrow> 'v \<Rightarrow> bool" where
  "reads_back v v' = (\<forall>b. enc v = Some b \<longrightarrow> dec (Some b) = Some v')"

text \<open>What a successful save wrote is what the next open returns, whatever other files changed.\<close>

lemma save_then_open:
  assumes "saves root v w = (Done u, w1)" "reads_back v v'"
    and "files w2 (target root) = files w1 (target root)"
  shows "opens root w2 = (Done x, w3) \<Longrightarrow> x = v'"
    and "calm w2 \<Longrightarrow> lockfile root \<notin> locked w2 \<Longrightarrow> target root \<notin> dirs w2 \<Longrightarrow>
      \<exists>w3. opens root w2 = (Done v', w3)"
proof -
  have d: "dec (files w2 (target root)) = Some v'"
    using saves_Done [OF assms(1)] assms(2,3) by (auto simp: reads_back_def)
  show "opens root w2 = (Done x, w3) \<Longrightarrow> x = v'" using opens_Done d by fastforce
  show "calm w2 \<Longrightarrow> lockfile root \<notin> locked w2 \<Longrightarrow> target root \<notin> dirs w2 \<Longrightarrow>
      \<exists>w3. opens root w2 = (Done v', w3)"
    using opens_calm d by blast
qed

lemma open_keeps_target: "opens root w = (r, w') \<Longrightarrow> files w' (target root) = files w (target root)"
  using opens_frame [of root w r w'] apart(1) [of root] by (auto simp: keeps_def)

lemma save_target: "saves root v w = (r, w') \<Longrightarrow>
    files w' (target root) = files w (target root) \<or> files w' (target root) = None
    \<or> (\<exists>b. r = Done () \<and> enc v = Some b \<and> files w' (target root) = Some b)"
  by (cases "r = Done ()") (use saves_Done saves_other in blast)+

lemma open_save_frame:
  "opens root w = (r, w1) \<Longrightarrow> saves root v w1 = (r', w') \<Longrightarrow>
   keeps (insert (lockfile root) (insert (target root) (temps (target root)))) w w'"
  using opens_frame saves_frame by (metis keeps_mono keeps_trans insertI1 insert_mono empty_subsetI subset_insertI)

end

section \<open>Stores that are opened and saved by the shared steps\<close>

definition ok_of :: "('e, 'a) result \<Rightarrow> 'a option" where
  "ok_of r = (case r of Ok x \<Rightarrow> Some x | Err _ \<Rightarrow> None)"

lemma ok_of_simps [simp]: "ok_of (Ok x) = Some x" "ok_of (Err e) = None" "ok_of r = Some x \<longleftrightarrow> r = Ok x"
  by (auto simp: ok_of_def split: result.splits)

definition checked_dec ::
  "int \<Rightarrow> (bytes option \<Rightarrow> (app_error, 'v) result) \<Rightarrow> bytes option \<Rightarrow> 'v option" where
  "checked_dec limit check b =
     (case b of
        None \<Rightarrow> ok_of (check None)
      | Some x \<Rightarrow> if limit < int (length x) then None else ok_of (check (Some x)))"

definition bounded_enc :: "int \<Rightarrow> bytes option \<Rightarrow> bytes option" where
  "bounded_enc limit b = (case b of None \<Rightarrow> None | Some x \<Rightarrow> if limit < int (length x) then None else Some x)"

lemma checked_dec_simps [simp]:
  "checked_dec limit check None = ok_of (check None)"
  "checked_dec limit check (Some x) = (if limit < int (length x) then None else ok_of (check (Some x)))"
  by (simp_all add: checked_dec_def)

lemma bounded_enc_Some [simp]: "bounded_enc limit b = Some x \<longleftrightarrow> b = Some x \<and> int (length x) \<le> limit"
  by (auto simp: bounded_enc_def split: option.splits)

lemma open_checked_keeps:
  "open_checked root lock busy name limit corrupt check w = (r, w') \<Longrightarrow> keeps {path_join root lock} w w'"
  unfolding open_checked_def
  by (auto elim!: io_bind_cases dest!: open_locked_keeps read_bounded_keeps simp: io_lift_def keeps_def
      split: result.splits)

lemma open_checked_Done:
  assumes "open_checked root lock busy name limit corrupt check w = (Done v, w')" "name \<noteq> lock"
  shows "checked_dec limit check (files w (path_join root name)) = Some v" "path_join root lock \<notin> locked w"
proof -
  from assms(1) obtain b w1 w2 where l: "open_locked root lock busy w = (Done (), w1)"
    and b: "read_bounded (path_join root name) limit corrupt w1 = (Done b, w2)" and v: "check b = Ok v"
    unfolding open_checked_def by (auto elim!: io_bind_DoneE simp: io_lift_def split: result.splits)
  have "files w (path_join root name) = b"
    using keeps_file [OF open_locked_keeps [OF l], of "path_join root name"] read_bounded_Done [OF b] assms(2)
    by (simp add: path_join_def)
  then show "checked_dec limit check (files w (path_join root name)) = Some v"
    using v read_bounded_Done [OF b] by (cases b) auto
  show "path_join root lock \<notin> locked w" by (rule open_locked_Done [OF l])
qed

lemma open_checked_calm:
  assumes "calm w" "path_join root lock \<notin> locked w" "path_join root name \<notin> dirs w" "name \<noteq> lock"
    and "checked_dec limit check (files w (path_join root name)) = Some v"
  shows "\<exists>w'. open_checked root lock busy name limit corrupt check w = (Done v, w')"
proof -
  let ?p = "path_join root name"
  obtain w1 where l: "open_locked root lock busy w = (Done (), w1)"
    and c: "calm w1" and d: "\<forall>q. q \<in> dirs w1 \<longrightarrow> q \<in> dirs w \<or> length q \<le> length root"
    using open_locked_calm [OF assms(1,2)] by blast
  have f: "files w1 ?p = files w ?p"
    using keeps_file [OF open_locked_keeps [OF l], of ?p] assms(4) by (simp add: path_join_def)
  have "?p \<notin> dirs w1" using d assms(3) by (auto simp: path_join_def)
  moreover have "\<And>x. files w ?p = Some x \<Longrightarrow> int (length x) \<le> limit"
    using assms(5) by (auto split: if_splits)
  ultimately obtain w2 where b: "read_bounded ?p limit corrupt w1 = (Done (files w ?p), w2)"
    using read_bounded_calm [OF c f] by blast
  have "check (files w ?p) = Ok v" using assms(5) by (auto simp: checked_dec_def split: if_splits option.splits)
  then show ?thesis using l b unfolding open_checked_def by (auto simp: io_bind_def)
qed

lemma json_store_checked:
  fixes opens :: "path \<Rightarrow> (app_error, 'v) prog"
  assumes "name \<noteq> lock" "hd lock \<noteq> CHR ''.''" "lock \<noteq> []"
    and opens: "\<And>root. opens root = open_checked root lock busy name limit corrupt check"
    and saves: "\<And>root v. saves root v = (if refused v then io_fail (too_many v)
          else write_bounded (path_join root name) limit (encoded v) not_encoded too_large)"
  shows "json_store opens saves (\<lambda>root. path_join root name) (\<lambda>root. path_join root lock)
    (\<lambda>v. if refused v then None else bounded_enc limit (encoded v)) (checked_dec limit check)"
proof
  show "path_join root lock \<noteq> path_join root name" "path_join root lock \<notin> temps (path_join root name)" for root
    by (rule lock_beside [OF assms(1-3)])+
  show "opens root w = (r, w') \<Longrightarrow> keeps {path_join root lock} w w'" for root w r w'
    unfolding opens by (rule open_checked_keeps)
  show "checked_dec limit check (files w (path_join root name)) = Some v \<and> path_join root lock \<notin> locked w"
    if "opens root w = (Done v, w')" for root w v w'
    using open_checked_Done [OF that [unfolded opens] assms(1)] by (rule conjI)
  show "\<exists>w'. opens root w = (Done v, w')"
    if "calm w" "path_join root lock \<notin> locked w" "path_join root name \<notin> dirs w"
      "checked_dec limit check (files w (path_join root name)) = Some v" for w root v
    unfolding opens by (rule open_checked_calm [OF that(1-3) assms(1) that(4)])
  fix root v w and s :: "(app_error, unit) run" and w'
  show "keeps (insert (path_join root name) (temps (path_join root name))) w w'"
    if "saves root v w = (s, w')"
    using that unfolding saves by (auto dest: write_bounded_run(1) split: if_splits)
  show "files w' (path_join root name) = files w (path_join root name) \<or> files w' (path_join root name) = None"
    if "saves root v w = (s, w')" "s \<noteq> Done ()"
    using that unfolding saves by (auto dest: write_bounded_run(3) split: if_splits)
  show "\<exists>b. (if refused v then None else bounded_enc limit (encoded v)) = Some b
      \<and> files w' (path_join root name) = Some b"
    if "saves root v w = (Done u, w')" for u
    using that unfolding saves by (auto dest!: write_bounded_run(2) split: if_splits)
qed

text \<open>A store without a limit of its own on the value.\<close>

lemmas json_store_bounded = json_store_checked [where refused = "\<lambda>_. False", simplified]

end
