(* ===== verification/Policy_Store.thy ===== *)
theory Policy_Store
  imports Agent_Policy Json_Store
begin

text \<open>
  The durable policy, \<^verbatim>\<open>src/agent_policy/store.rs\<close>: grants and audit in a file, approvals only in
  memory. An operation on an open store returns its result together with the store's next state,
  because some of them change the state although they fail.
\<close>

section \<open>The store\<close>

record policy_file =
  pf_version :: u32
  pf_grants :: "agent_grant list"
  pf_audit :: "audit_event list"

record policy_store =
  ps_path :: path
  ps_policy :: agent_policy

type_synonym ('s, 'a) stored = "(app_error, (app_error, 'a) result \<times> 's) prog"

definition PS_VERSION :: u32 where "PS_VERSION = 1"
definition MAX_GRANTS :: int where "MAX_GRANTS = 4096"
definition MAX_AUDIT :: int where "MAX_AUDIT = 2048"
definition PS_MAX_BYTES :: int where "PS_MAX_BYTES = 2 * 1024 * 1024"

definition policy_corrupt :: app_error where
  "policy_corrupt = app_error_new StorageCorrupt ''Agent policy is invalid or unsupported.''"

fun validate_grants :: "agent_policy \<Rightarrow> agent_grant list \<Rightarrow> (app_error, agent_policy) result" where
  "validate_grants p [] = Ok p"
| "validate_grants p (g # gs) =
     (if bt_get (grants p) (grant_key g) \<noteq> None then Err policy_corrupt
      else case policy_grant p g of
             Err _ \<Rightarrow> Err policy_corrupt
           | Ok p' \<Rightarrow> validate_grants p' gs)"

definition policy_validate :: "policy_file \<Rightarrow> (app_error, agent_policy) result" where
  "policy_validate f =
     (if pf_version f \<noteq> PS_VERSION \<or> int (length (pf_grants f)) > MAX_GRANTS \<or> int (length (pf_audit f)) > MAX_AUDIT
      then Err policy_corrupt
      else and_then (validate_grants policy_default (pf_grants f)) (\<lambda>p.
        if list_ex (\<lambda>e. \<not> valid_id (ev_client e) \<or> \<not> valid_id (ev_app e)) (pf_audit f)
        then Err policy_corrupt
        else Ok (p\<lparr>audit := pf_audit f\<rparr>)))"

definition policy_path :: "path \<Rightarrow> path" where
  "policy_path root = path_join root ''agent-policy-v1.json''"

definition policy_check :: "policy_file codec \<Rightarrow> bytes option \<Rightarrow> (app_error, agent_policy) result" where
  "policy_check json b =
     (case b of
        None \<Rightarrow> Ok policy_default
      | Some bytes \<Rightarrow> and_then (ok_or (decode json bytes) policy_corrupt) policy_validate)"

definition policy_load :: "policy_file codec \<Rightarrow> path \<Rightarrow> (app_error, agent_policy) prog" where
  "policy_load json root =
     open_checked root ''agent-policy.lock'' ''Agent policy is in use by another process.''
       ''agent-policy-v1.json'' PS_MAX_BYTES policy_corrupt (policy_check json)"

definition policy_open :: "policy_file codec \<Rightarrow> path \<Rightarrow> (app_error, policy_store) prog" where
  "policy_open json root =
     io_bind (policy_load json root) (\<lambda>p. io_return \<lparr>ps_path = policy_path root, ps_policy = p\<rparr>)"

definition policy_save :: "policy_file codec \<Rightarrow> path \<Rightarrow> agent_policy \<Rightarrow> (app_error, unit) prog" where
  "policy_save json p nxt =
     (if int (length (grants nxt)) > MAX_GRANTS then io_fail (app_error_invalid ''Too many agent grants.'')
      else write_bounded p PS_MAX_BYTES
             (encode json \<lparr>pf_version = PS_VERSION, pf_grants = bt_values (grants nxt), pf_audit = audit nxt\<rparr>)
             (app_error_internal ''Could not encode agent policy.'')
             (app_error_invalid ''Agent policy is too large.''))"

section \<open>Operations\<close>

text \<open>\<^verbatim>\<open>self.save(&next)?; self.policy = next\<close>.\<close>

definition save_then_keep :: "policy_file codec \<Rightarrow> policy_store \<Rightarrow> agent_policy \<Rightarrow> (policy_store, unit) stored" where
  "save_then_keep json st nxt =
     io_bind (io_try (policy_save json (ps_path st) nxt)) (\<lambda>saved.
       io_return (saved, if is_ok saved then st\<lparr>ps_policy := nxt\<rparr> else st))"

text \<open>\<^verbatim>\<open>let saved = self.save(&next); self.policy = next; saved\<close>.\<close>

definition keep_and_save :: "policy_file codec \<Rightarrow> policy_store \<Rightarrow> agent_policy \<Rightarrow> (policy_store, unit) stored" where
  "keep_and_save json st nxt =
     io_bind (io_try (policy_save json (ps_path st) nxt)) (\<lambda>saved.
       io_return (saved, st\<lparr>ps_policy := nxt\<rparr>))"

definition store_grant :: "policy_file codec \<Rightarrow> policy_store \<Rightarrow> agent_grant \<Rightarrow> (policy_store, unit) stored" where
  "store_grant json st g =
     (case policy_grant (ps_policy st) g of
        Err e \<Rightarrow> io_return (Err e, st)
      | Ok nxt \<Rightarrow> save_then_keep json st nxt)"

definition store_revoke ::
  "policy_file codec \<Rightarrow> policy_store \<Rightarrow> string \<Rightarrow> string \<Rightarrow> (policy_store, unit) stored" where
  "store_revoke json st c a =
     (if \<not> valid_id c \<or> \<not> valid_id a then io_return (Err (app_error_invalid ''Invalid agent grant scope.''), st)
      else keep_and_save json st (policy_revoke (ps_policy st) c a))"

definition store_revoke_client :: "policy_file codec \<Rightarrow> policy_store \<Rightarrow> string \<Rightarrow> (policy_store, unit) stored" where
  "store_revoke_client json st c =
     (if \<not> valid_id c then io_return (Err (app_error_invalid ''Invalid agent client ID.''), st)
      else keep_and_save json st (policy_revoke_client (ps_policy st) c))"

definition store_approve ::
  "policy_store \<Rightarrow> string \<Rightarrow> string \<Rightarrow> agent_action \<Rightarrow> u64 \<Rightarrow> (policy_store, string) stored" where
  "store_approve st c a act expires =
     io_bind (io_try (policy_approve (ps_policy st) c a act expires)) (\<lambda>r.
       io_return (case r of
           Err e \<Rightarrow> (Err e, st)
         | Ok (ticket, p) \<Rightarrow> (Ok ticket, st\<lparr>ps_policy := p\<rparr>)))"

definition store_authorize ::
  "policy_file codec \<Rightarrow> policy_store \<Rightarrow> string \<Rightarrow> string \<Rightarrow> agent_action \<Rightarrow> string option \<Rightarrow> u64
   \<Rightarrow> (policy_store, unit) stored" where
  "store_authorize json st c a act ticket now =
     (case policy_authorize (ps_policy st) c a act ticket now of
        (outcome, p) \<Rightarrow>
          io_bind (io_try (policy_save json (ps_path st) p)) (\<lambda>saved.
            io_return (and_then saved (\<lambda>_. outcome), st\<lparr>ps_policy := p\<rparr>)))"

definition store_status_app_ids :: "policy_store \<Rightarrow> string \<Rightarrow> u64 \<Rightarrow> string set" where
  "store_status_app_ids st c now = status_app_ids (ps_policy st) c now"

definition grants_for_owner :: "policy_store \<Rightarrow> agent_grant list" where
  "grants_for_owner st = bt_values (grants (ps_policy st))"

definition record_request_audit ::
  "policy_file codec \<Rightarrow> policy_store \<Rightarrow> string \<Rightarrow> string \<Rightarrow> agent_action \<Rightarrow> bool \<Rightarrow> u64
   \<Rightarrow> (policy_store, unit) stored" where
  "record_request_audit json st c a act ok now =
     (if \<not> valid_id c \<or> \<not> valid_id a then io_return (Err (app_error_invalid ''Invalid agent audit scope.''), st)
      else save_then_keep json st
             ((ps_policy st)\<lparr>audit := push_audit MAX_AUDIT
                \<lparr>ev_client = c, ev_app = a, ev_action = act, allowed = ok, at_unix = now\<rparr>
                (audit (ps_policy st))\<rparr>))"

section \<open>The file\<close>

definition policy_encode :: "policy_file codec \<Rightarrow> agent_policy \<Rightarrow> bytes option" where
  "policy_encode json p =
     encode json \<lparr>pf_version = PS_VERSION, pf_grants = bt_values (grants p), pf_audit = audit p\<rparr>"

text \<open>The policy a process that opens the store now would see.\<close>

definition policy_on_disk :: "policy_file codec \<Rightarrow> path \<Rightarrow> world \<Rightarrow> agent_policy option" where
  "policy_on_disk json root w = checked_dec PS_MAX_BYTES (policy_check json) (files w (policy_path root))"

definition policy_lock :: "path \<Rightarrow> path" where
  "policy_lock root = path_join root ''agent-policy.lock''"

definition policy_put :: "policy_file codec \<Rightarrow> path \<Rightarrow> agent_policy \<Rightarrow> (app_error, unit) prog" where
  "policy_put json root p = policy_save json (policy_path root) p"

definition forget_approvals :: "agent_policy \<Rightarrow> agent_policy" where
  "forget_approvals p = p\<lparr>approvals := []\<rparr>"

lemma forget_approvals_fields [simp]:
  "grants (forget_approvals p) = grants p" "audit (forget_approvals p) = audit p"
  "approvals (forget_approvals p) = []"
  by (simp_all add: forget_approvals_def)

interpretation ps: json_store "policy_load json" "policy_put json" policy_path policy_lock
    "\<lambda>p. if MAX_GRANTS < int (length (grants p)) then None else bounded_enc PS_MAX_BYTES (policy_encode json p)"
    "checked_dec PS_MAX_BYTES (policy_check json)"
  for json :: "policy_file codec"
  unfolding policy_path_def [abs_def] policy_lock_def [abs_def]
  by (rule json_store_checked [where too_many = "\<lambda>_. app_error_invalid ''Too many agent grants.''"
        and not_encoded = "app_error_internal ''Could not encode agent policy.''"
        and too_large = "app_error_invalid ''Agent policy is too large.''"])
     (simp_all add: policy_load_def policy_put_def policy_save_def policy_path_def policy_encode_def)

lemma policy_open_Done:
  assumes "policy_open json root w = (Done st, w')"
  shows "ps_path st = policy_path root" "policy_on_disk json root w = Some (ps_policy st)"
    "policy_lock root \<notin> locked w"
  using assms unfolding policy_open_def policy_on_disk_def
  by (auto elim!: io_bind_DoneE dest!: ps.opens_Done)

lemma policy_open_keeps: "policy_open json root w = (r, w') \<Longrightarrow> keeps {policy_lock root} w w'"
  unfolding policy_open_def by (auto elim!: io_bind_cases dest: ps.opens_frame)

lemma policy_open_calm:
  assumes "calm w" "policy_lock root \<notin> locked w" "policy_path root \<notin> dirs w"
    and "policy_on_disk json root w = Some p"
  shows "\<exists>w'. policy_open json root w = (Done \<lparr>ps_path = policy_path root, ps_policy = p\<rparr>, w')"
  using ps.opens_calm [OF assms(1-3), of json p] assms(4)
  unfolding policy_open_def policy_on_disk_def io_bind_def by fastforce

section \<open>What is saved can be opened\<close>

lemma validate_grants_sorted:
  assumes "bt_ok (m0 @ m)" "\<forall>(k, g) \<in> set m. k = grant_key g \<and> grant_ok g" "grants p = m0"
  shows "validate_grants p (bt_values m) = Ok (p\<lparr>grants := m0 @ m\<rparr>)"
  using assms
proof (induction m arbitrary: m0 p)
  case (Cons kg m)
  obtain k g where kg: "kg = (k, g)" by (cases kg)
  have ok: "bt_ok (m0 @ [(k, g)])" using Cons.prems(1) bt_ok_append1 [of "m0 @ [(k, g)]" m] kg by simp
  have k: "k = grant_key g" "grant_ok g" using Cons.prems(2) kg by auto
  have less: "\<forall>k' \<in> set (bt_keys m0). k' < k" using ok by (simp add: bt_ok_snoc)
  then have new: "bt_get m0 k = None" "bt_insert k g m0 = m0 @ [(k, g)]"
    by (auto simp: map_of_eq_None_iff bt_insert_snoc)
  have "policy_grant p g = Ok (p\<lparr>grants := m0 @ [(k, g)]\<rparr>)"
    using k new(2) Cons.prems(3) by (simp add: policy_grant_Ok_iff)
  then have "validate_grants p (bt_values (kg # m)) =
      validate_grants (p\<lparr>grants := m0 @ [(k, g)]\<rparr>) (bt_values m)"
    using k(1) new(1) Cons.prems(3) by (simp add: kg)
  also have "\<dots> = Ok (p\<lparr>grants := m0 @ kg # m\<rparr>)"
    using Cons.IH [of "m0 @ [(k, g)]" "p\<lparr>grants := m0 @ [(k, g)]\<rparr>"] Cons.prems kg by auto
  finally show ?case .
qed simp

lemma validate_grants_ok:
  "validate_grants p gs = Ok p' \<Longrightarrow> policy_ok p \<Longrightarrow>
     policy_ok p' \<and> approvals p' = approvals p \<and> audit p' = audit p"
proof (induction gs arbitrary: p)
  case (Cons g gs)
  then obtain q where q: "policy_grant p g = Ok q" "validate_grants q gs = Ok p'"
    by (auto split: if_splits result.splits)
  have "policy_ok q" using Cons.prems(2) q(1) by (rule policy_grant_ok)
  with Cons.IH [OF q(2)] q(1) show ?case by (auto simp: policy_grant_Ok_iff)
qed simp

lemma policy_validate_ok:
  assumes "policy_validate f = Ok p"
  shows "policy_ok p" "approvals p = []"
proof -
  obtain q where q: "validate_grants policy_default (pf_grants f) = Ok q" "p = q\<lparr>audit := pf_audit f\<rparr>"
    "list_all event_ok (pf_audit f)" "length (pf_audit f) \<le> 2048"
    using assms by (auto simp: policy_validate_def and_then_Ok_iff MAX_AUDIT_def event_ok_def list_all_iff
        list_ex_iff split: if_splits)
  with validate_grants_ok [OF q(1)] show "policy_ok p" "approvals p = []"
    by (auto simp: policy_ok_def policy_default_def)
qed

lemma policy_on_disk_ok:
  "policy_on_disk json root w = Some p \<Longrightarrow> policy_ok p \<and> approvals p = []"
  unfolding policy_on_disk_def policy_check_def
  by (cases "files w (policy_path root)")
     (auto simp: and_then_Ok_iff dest: policy_validate_ok split: if_splits)

lemma policy_reads_back:
  assumes "codec_ok json" "policy_ok p"
  shows "ps.reads_back json p (forget_approvals p)"
  unfolding ps.reads_back_def
proof (intro allI impI)
  fix b
  let ?f = "\<lparr>pf_version = PS_VERSION, pf_grants = bt_values (grants p), pf_audit = audit p\<rparr>"
  assume "(if MAX_GRANTS < int (length (grants p)) then None else bounded_enc PS_MAX_BYTES (policy_encode json p)) = Some b"
  then have b: "int (length (grants p)) \<le> MAX_GRANTS" "encode json ?f = Some b" "int (length b) \<le> PS_MAX_BYTES"
    by (auto simp: policy_encode_def split: if_splits)
  have "validate_grants policy_default (bt_values (grants p)) = Ok (policy_default\<lparr>grants := grants p\<rparr>)"
    using validate_grants_sorted [of "[]" "grants p" policy_default] assms(2)
    by (auto simp: policy_ok_def policy_default_def)
  then have "policy_validate ?f = Ok (forget_approvals p)"
    using b(1) assms(2)
    by (auto simp: policy_validate_def policy_default_def forget_approvals_def policy_ok_def MAX_AUDIT_def
        list_all_iff list_ex_iff event_ok_def)
  then show "checked_dec PS_MAX_BYTES (policy_check json) (Some b) = Some (forget_approvals p)"
    using codec_okD [OF assms(1) b(2)] b(3) by (simp add: policy_check_def)
qed

lemma policy_save_on_disk:
  assumes "codec_ok json" "policy_ok p" "policy_save json (policy_path root) p w = (Done u, w')"
  shows "policy_on_disk json root w' = Some (forget_approvals p)"
  using ps.saves_Done [of json root p w u w'] assms policy_reads_back [OF assms(1,2)]
  by (auto simp: policy_put_def policy_on_disk_def ps.reads_back_def)

text \<open>Whatever happens to a save, the next open sees the old policy, the new one, or none.\<close>

lemma policy_save_any:
  assumes "codec_ok json" "policy_ok p" "policy_save json (policy_path root) p w = (r, w')"
  shows "policy_on_disk json root w' \<in>
      {policy_on_disk json root w, Some (forget_approvals p), Some policy_default}"
  using ps.save_target [of json root p w r w'] assms policy_reads_back [OF assms(1,2)]
  by (auto simp: policy_put_def policy_on_disk_def ps.reads_back_def policy_check_def)

lemma policy_save_keeps:
  "policy_save json p nxt w = (r, w') \<Longrightarrow> keeps (insert p (temps p)) w w'"
  unfolding policy_save_def by (auto dest: write_bounded_run(1) split: if_splits)

section \<open>The operations on an open store\<close>

definition store_ok :: "path \<Rightarrow> policy_store \<Rightarrow> bool" where
  "store_ok root st = (ps_path st = policy_path root \<and> policy_ok (ps_policy st))"

lemma policy_open_store_ok: "policy_open json root w = (Done st, w') \<Longrightarrow> store_ok root st"
  using policy_open_Done policy_on_disk_ok unfolding store_ok_def by blast

lemma save_then_keep_run:
  assumes "save_then_keep json st nxt w = (Done (r, st'), w')"
  shows "(r = Ok () \<and> policy_save json (ps_path st) nxt w = (Done (), w') \<and> st' = st\<lparr>ps_policy := nxt\<rparr>)
    \<or> (\<exists>e. r = Err e \<and> policy_save json (ps_path st) nxt w = (Failed e, w') \<and> st' = st)"
  using assms unfolding save_then_keep_def
  by (auto elim!: io_bind_DoneE simp: io_try_Done split: result.splits)

lemma keep_and_save_run:
  assumes "keep_and_save json st nxt w = (Done (r, st'), w')"
  shows "st' = st\<lparr>ps_policy := nxt\<rparr>
    \<and> policy_save json (ps_path st) nxt w = (case r of Ok u \<Rightarrow> (Done u, w') | Err e \<Rightarrow> (Failed e, w'))"
  using assms unfolding keep_and_save_def by (auto elim!: io_bind_DoneE simp: io_try_Done)

lemma store_authorize_run:
  assumes "store_authorize json st c a act t now w = (Done (r, st'), w')"
  shows "st' = st\<lparr>ps_policy := snd (policy_authorize (ps_policy st) c a act t now)\<rparr>"
    and "r = Ok () \<Longrightarrow> fst (policy_authorize (ps_policy st) c a act t now) = Ok ()
       \<and> policy_save json (ps_path st) (ps_policy st') w = (Done (), w')"
  using assms unfolding store_authorize_def
  by (auto elim!: io_bind_DoneE simp: io_try_Done and_then_Ok_iff split: prod.splits)

text \<open>No operation of the store fails outside its result; a failure is a value, a crash is a crash.\<close>

lemma stored_never_Failed:
  "store_grant json st g w \<noteq> (Failed e, w')"
  "store_authorize json st c a act t now w \<noteq> (Failed e, w')"
  "store_revoke_client json st c w \<noteq> (Failed e, w')"
  "record_request_audit json st c a act ok now w \<noteq> (Failed e, w')"
  unfolding store_grant_def store_authorize_def store_revoke_client_def record_request_audit_def
    save_then_keep_def keep_and_save_def
  by (auto elim!: io_bind_cases split: result.splits prod.splits if_splits)

section \<open>Sample\<close>

definition sample_event :: audit_event where
  "sample_event = \<lparr>ev_client = ''c'', ev_app = ''a'', ev_action = Status, allowed = True, at_unix = 7\<rparr>"

definition sample_policy_json :: "policy_file codec" where
  "sample_policy_json = table_codec
     [(\<lparr>pf_version = 1, pf_grants = [sample_grant], pf_audit = []\<rparr>, ''0''),
      (\<lparr>pf_version = 1, pf_grants = [sample_grant], pf_audit = [sample_event]\<rparr>, ''1'')]"

definition sample_store :: policy_store where
  "sample_store = \<lparr>ps_path = policy_path [], ps_policy = forget_approvals sample_policy\<rparr>"

definition sample_disk :: "fault list \<Rightarrow> world" where
  "sample_disk fs = (sample_world fs)\<lparr>files := [policy_path [] \<mapsto> ''0'']\<rparr>"

lemma sample_policy_json_ok: "codec_ok sample_policy_json"
  unfolding sample_policy_json_def by (rule table_codec_ok) simp

lemma sample_key [simp]: "grant_key sample_grant = (''c'', ''a'')" "grant_ok sample_grant"
  by (simp_all add: grant_key_def sample_grant_def grant_ok_def)

lemma sample_grant_recorded [simp]:
  "policy_grant p sample_grant = Ok (p\<lparr>grants := bt_insert (''c'', ''a'') sample_grant (grants p)\<rparr>)"
  by (simp add: policy_grant_Ok_iff)

text \<open>Runs of a save whose encoding is known.\<close>

lemma policy_save_enc:
  assumes "int (length (grants p)) \<le> MAX_GRANTS" "int (length b) \<le> PS_MAX_BYTES"
    "encode json \<lparr>pf_version = PS_VERSION, pf_grants = bt_values (grants p), pf_audit = audit p\<rparr> = Some b"
    "write_file_atomically q b w = (Done (), w')"
  shows "policy_save json q p w = (Done (), w')"
  using assms by (simp add: policy_save_def write_bounded_def)

lemma save_then_keep_Done:
  "policy_save json (ps_path st) nxt w = (Done (), w') \<Longrightarrow>
   save_then_keep json st nxt w = (Done (Ok (), st\<lparr>ps_policy := nxt\<rparr>), w')"
  by (simp add: save_then_keep_def io_bind_def io_try_def io_match_def)

lemma sample_store_ok: "store_ok [] sample_store"
  by (simp add: store_ok_def sample_store_def sample_policy_def policy_ok_def bt_ok_def)

lemma sample_on_disk: "policy_on_disk sample_policy_json [] (sample_disk fs) = Some (ps_policy sample_store)"
  by (simp add: policy_on_disk_def sample_disk_def policy_check_def sample_policy_json_def table_codec_def
      PS_MAX_BYTES_def policy_validate_def PS_VERSION_def MAX_GRANTS_def MAX_AUDIT_def policy_grant_Ok_iff
      sample_store_def sample_policy_def forget_approvals_def policy_default_def)

lemma sample_status_allowed:
  "policy_authorize (ps_policy sample_store) ''c'' ''a'' Status None 7 =
     (Ok (), (ps_policy sample_store)\<lparr>audit := [sample_event]\<rparr>)"
  by (simp add: policy_authorize_def Let_def sample_store_def sample_policy_def holds_def grant_covers_def
      needs_approval_def bounded_id_def sample_event_def push_audit_def forget_approvals_def,
      simp add: sample_grant_def)

section \<open>Properties\<close>

text \<open>
  Claim C22. No work is permitted before its audit is saved: when \<^verbatim>\<open>AgentPolicyStore::authorize\<close>
  returns Ok, a grant of the policy covers the request, and the file holds, for the next process that
  opens it, the same grants and an audit whose last entry is this permit.
\<close>

theorem permit_is_durable:
  assumes "codec_ok json" "store_ok root st"
    and "store_authorize json st c a act ticket now w = (Done (Ok (), st'), w')"
  shows "\<exists>g p. bt_get (grants (ps_policy st)) (c, a) = Some g \<and> grant_covers g act now
     \<and> policy_on_disk json root w' = Some p \<and> grants p = grants (ps_policy st)
     \<and> last (audit p) = \<lparr>ev_client = c, ev_app = a, ev_action = act, allowed = True, at_unix = now\<rparr>"
proof -
  note run = store_authorize_run [OF assms(3)]
  let ?p = "snd (policy_authorize (ps_policy st) c a act ticket now)"
  have ok: "fst (policy_authorize (ps_policy st) c a act ticket now) = Ok ()" using run(2) by simp
  have "policy_ok ?p" "ps_path st = policy_path root"
    using assms(2) policy_authorize_ok by (auto simp: store_ok_def)
  then have "policy_on_disk json root w' = Some (forget_approvals ?p)"
    using policy_save_on_disk [OF assms(1)] run by auto
  then show ?thesis
    using ok policy_authorize_audit [of "ps_policy st" c a act ticket now]
    by (auto simp: policy_authorize_fst push_audit_last bounded_id_def)
qed

theorem permit_is_durable_witness:
  "let run = store_authorize sample_policy_json sample_store ''c'' ''a'' Status None 7 (sample_disk [])
   in \<exists>p. policy_on_disk sample_policy_json [] (snd run) = Some p \<and> last (audit p) = sample_event"
proof -
  let ?st = "sample_store\<lparr>ps_policy := (ps_policy sample_store)\<lparr>audit := [sample_event]\<rparr>\<rparr>"
  have e: "encode sample_policy_json \<lparr>pf_version = PS_VERSION,
      pf_grants = bt_values (grants ((ps_policy sample_store)\<lparr>audit := [sample_event]\<rparr>)),
      pf_audit = audit ((ps_policy sample_store)\<lparr>audit := [sample_event]\<rparr>)\<rparr> = Some ''1''"
    by (simp add: sample_policy_json_def table_codec_def PS_VERSION_def sample_store_def sample_policy_def)
  have w: "fst (write_file_atomically (policy_path []) ''1'' (sample_disk [])) = Done ()" by code_simp
  have g: "int (length (grants ((ps_policy sample_store)\<lparr>audit := [sample_event]\<rparr>))) \<le> MAX_GRANTS"
    by (simp add: sample_store_def sample_policy_def MAX_GRANTS_def)
  have p: "ps_path sample_store = policy_path []" by (simp add: sample_store_def)
  obtain w' where "write_file_atomically (policy_path []) ''1'' (sample_disk []) = (Done (), w')"
    using w by (metis prod.collapse)
  with g e have "policy_save sample_policy_json (policy_path [])
      ((ps_policy sample_store)\<lparr>audit := [sample_event]\<rparr>) (sample_disk []) = (Done (), w')"
    by (intro policy_save_enc) (auto simp: PS_MAX_BYTES_def)
  then have run: "store_authorize sample_policy_json sample_store ''c'' ''a'' Status None 7 (sample_disk [])
      = (Done (Ok (), ?st), w')"
    unfolding store_authorize_def sample_status_allowed p
    by (simp add: io_bind_def io_try_def io_match_def)
  show ?thesis
    using permit_is_durable [OF sample_policy_json_ok sample_store_ok run] run
    by (auto simp: sample_event_def)
qed

text \<open>
  Recording a grant cannot widen access by failing: whichever file-system step of
  \<^verbatim>\<open>AgentPolicyStore::grant\<close> fails or dies, the file a later process opens is a valid policy whose
  grants are among the earlier ones and the new one.
\<close>

theorem grant_fault_safe:
  assumes "codec_ok json" "store_ok root st"
    and "policy_on_disk json root w = Some (forget_approvals (ps_policy st))"
    and "store_grant json st g w = (r, w')"
  shows "\<exists>p. policy_on_disk json root w' = Some p \<and> policy_ok p
     \<and> (\<forall>k g'. bt_get (grants p) k = Some g' \<longrightarrow>
          bt_get (grants (ps_policy st)) k = Some g' \<or> (k = grant_key g \<and> g' = g))"
proof (cases "policy_grant (ps_policy st) g")
  case (Err e)
  then show ?thesis
    using assms policy_on_disk_ok [OF assms(3)] by (auto simp: store_grant_def)
next
  case (Ok nxt)
  have st: "ps_path st = policy_path root" "policy_ok (ps_policy st)" using assms(2) by (auto simp: store_ok_def)
  have nxt: "policy_ok nxt" "grants nxt = bt_insert (grant_key g) g (grants (ps_policy st))"
    using policy_grant_ok [OF st(2) Ok] Ok by (auto simp: policy_grant_Ok_iff)
  obtain s where "policy_save json (policy_path root) nxt w = (s, w')"
    using assms(4) Ok st(1) unfolding store_grant_def save_then_keep_def
    by (auto simp: io_bind_def io_try_def io_match_def split: prod.splits run.splits)
  from policy_save_any [OF assms(1) nxt(1) this] assms(3)
  consider "policy_on_disk json root w' = Some (forget_approvals (ps_policy st))"
    | "policy_on_disk json root w' = Some (forget_approvals nxt)"
    | "policy_on_disk json root w' = Some policy_default" by auto
  then show ?thesis
    using nxt(2) policy_okD(1) [OF st(2)] policy_on_disk_ok
    by cases (auto simp: bt_get_insert split: if_splits)
qed

theorem grant_fault_safe_witness:
  "let w' = snd (store_grant sample_policy_json sample_store sample_grant (sample_disk [Fine, Fine, Fine, Fine, Dies]))
   in \<exists>p. policy_on_disk sample_policy_json [] w' = Some p \<and> policy_ok p"
proof -
  have "policy_on_disk sample_policy_json [] (sample_disk fs) = Some (forget_approvals (ps_policy sample_store))" for fs
    unfolding sample_on_disk by (simp add: sample_store_def forget_approvals_def)
  from grant_fault_safe [OF sample_policy_json_ok sample_store_ok this prod.collapse [symmetric],
      where g = sample_grant]
  show ?thesis unfolding Let_def by blast
qed

text \<open>
  A saved grant survives a restart: after \<^verbatim>\<open>AgentPolicyStore::grant\<close> returned Ok, a process
  that opens the store, with the file untouched and the lock free, gets exactly the grants and the
  audit that were in memory, and none of the approvals.
\<close>

theorem saved_grant_reopens:
  assumes "codec_ok json" "store_ok root st"
    and "store_grant json st g w = (Done (Ok (), st'), w1)"
    and "calm w2" "files w2 (policy_path root) = files w1 (policy_path root)"
    and "policy_lock root \<notin> locked w2" "policy_path root \<notin> dirs w2"
  shows "\<exists>w3. policy_open json root w2 =
     (Done \<lparr>ps_path = policy_path root, ps_policy = forget_approvals (ps_policy st')\<rparr>, w3)"
proof -
  have st: "ps_path st = policy_path root" "policy_ok (ps_policy st)" using assms(2) by (auto simp: store_ok_def)
  obtain nxt where g: "policy_grant (ps_policy st) g = Ok nxt"
    using assms(3) by (cases "policy_grant (ps_policy st) g") (auto simp: store_grant_def)
  then have s: "policy_save json (policy_path root) nxt w = (Done (), w1)" "st' = st\<lparr>ps_policy := nxt\<rparr>"
    using assms(3) save_then_keep_run [of json st nxt w "Ok ()" st' w1] st(1) by (auto simp: store_grant_def)
  have "policy_on_disk json root w2 = Some (forget_approvals nxt)"
    using policy_save_on_disk [OF assms(1) policy_grant_ok [OF st(2) g] s(1)] assms(5)
    by (simp add: policy_on_disk_def)
  from policy_open_calm [OF assms(4,6,7) this] s(2) show ?thesis by simp
qed

theorem saved_grant_reopens_witness:
  "\<exists>st' w1 w3. store_grant sample_policy_json sample_store sample_grant (sample_disk []) = (Done (Ok (), st'), w1)
     \<and> policy_open sample_policy_json [] (sample_disk []) = (Done st', w3)"
proof -
  have e: "encode sample_policy_json \<lparr>pf_version = PS_VERSION, pf_grants = bt_values (grants (ps_policy sample_store)),
      pf_audit = audit (ps_policy sample_store)\<rparr> = Some ''0''"
    by (simp add: sample_policy_json_def table_codec_def PS_VERSION_def sample_store_def sample_policy_def)
  have n: "policy_grant (ps_policy sample_store) sample_grant = Ok (ps_policy sample_store)"
    by (simp add: sample_store_def sample_policy_def)
  have w: "fst (write_file_atomically (policy_path []) ''0'' (sample_disk [])) = Done ()"
    "files (snd (write_file_atomically (policy_path []) ''0'' (sample_disk []))) (policy_path []) = Some ''0''"
    by code_simp+
  obtain w1 where w1: "write_file_atomically (policy_path []) ''0'' (sample_disk []) = (Done (), w1)"
    "files w1 (policy_path []) = Some ''0''"
    using w by (metis prod.collapse)
  have p: "ps_path sample_store = policy_path []" "int (length (grants (ps_policy sample_store))) \<le> MAX_GRANTS"
    by (simp_all add: sample_store_def sample_policy_def MAX_GRANTS_def)
  have s: "policy_save sample_policy_json (ps_path sample_store) (ps_policy sample_store) (sample_disk []) = (Done (), w1)"
    unfolding p(1) by (rule policy_save_enc [OF p(2) _ e w1(1)]) (simp add: PS_MAX_BYTES_def)
  have run: "store_grant sample_policy_json sample_store sample_grant (sample_disk []) = (Done (Ok (), sample_store), w1)"
    unfolding store_grant_def n using save_then_keep_Done [OF s] by simp
  have c: "calm (sample_disk [])" "files (sample_disk []) (policy_path []) = Some ''0''"
    "policy_lock [] \<notin> locked (sample_disk [])" "policy_path [] \<notin> dirs (sample_disk [])"
    by (simp_all add: calm_def sample_disk_def sample_world_def)
  have f: "\<lparr>ps_path = policy_path [], ps_policy = forget_approvals (ps_policy sample_store)\<rparr> = sample_store"
    by (simp add: sample_store_def forget_approvals_def)
  show ?thesis
    using saved_grant_reopens [OF sample_policy_json_ok sample_store_ok run c(1) _ c(3,4)] c(2) w1(2) run
    unfolding f by auto
qed

end
