(* ===== verification/Agent_Auth.thy ===== *)
theory Agent_Auth
  imports Json_Store
begin

text \<open>
  The bearer credentials of agent clients, \<^verbatim>\<open>src/agent_gateway/auth.rs\<close>: only a hash of each secret
  is stored, a secret is returned once at enrolment, and a presented secret is verified against the
  stored hashes. SHA-256 is the work of a library; it is the parameter \<open>sha\<close> of the definitions that
  use it, a function from the hashed bytes to the digest.
\<close>

section \<open>The store\<close>

record client_record =
  row_id :: string
  sha256_hex :: string

record client_file =
  cf_version :: u32
  cf_clients :: "client_record list"

record credential_store =
  cs_path :: path
  clients :: "client_record list"

definition CS_VERSION :: u32 where "CS_VERSION = 1"
definition MAX_CLIENTS :: int where "MAX_CLIENTS = 256"
definition CS_MAX_BYTES :: int where "CS_MAX_BYTES = 64 * 1024"
definition DOMAIN :: bytes where "DOMAIN = ''local-store-agent-client-v1'' @ [CHR 0x00]"

definition hash_secret :: "(bytes \<Rightarrow> bytes) \<Rightarrow> string \<Rightarrow> string" where
  "hash_secret sha secret = hex_bytes (sha (DOMAIN @ secret))"

definition client_valid_id :: "string \<Rightarrow> bool" where
  "client_valid_id s = (s \<noteq> [] \<and> length s \<le> 128
     \<and> list_all (\<lambda>b. is_alnum b \<or> b \<in> {CHR ''-'', CHR ''_'', CHR ''.''}) s)"

definition valid_hash :: "string \<Rightarrow> bool" where
  "valid_hash s = (length s = 64 \<and> list_all is_hex_lower s)"

definition credentials_corrupt :: app_error where
  "credentials_corrupt = app_error_new StorageCorrupt ''Agent credential store is invalid or unsupported.''"

definition credentials_forbidden :: app_error where
  "credentials_forbidden = app_error_new Forbidden ''Agent client authentication failed.''"

fun check_rows :: "string set \<Rightarrow> client_record list \<Rightarrow> app_error check" where
  "check_rows seen [] = Ok ()"
| "check_rows seen (row # rows) =
     (if \<not> client_valid_id (row_id row) \<or> \<not> valid_hash (sha256_hex row) \<or> row_id row \<in> seen
      then Err credentials_corrupt
      else check_rows (insert (row_id row) seen) rows)"

definition check_clients :: "client_file \<Rightarrow> (app_error, client_record list) result" where
  "check_clients f =
     (if cf_version f \<noteq> CS_VERSION \<or> int (length (cf_clients f)) > MAX_CLIENTS then Err credentials_corrupt
      else and_then (check_rows {} (cf_clients f)) (\<lambda>_. Ok (cf_clients f)))"

definition clients_path :: "path \<Rightarrow> path" where
  "clients_path root = path_join root ''agent-clients-v1.json''"

definition clients_lock :: "path \<Rightarrow> path" where
  "clients_lock root = path_join root ''agent-clients.lock''"

definition clients_check :: "client_file codec \<Rightarrow> bytes option \<Rightarrow> (app_error, client_record list) result" where
  "clients_check json b =
     (case b of
        None \<Rightarrow> Ok []
      | Some bytes \<Rightarrow> and_then (ok_or (decode json bytes) credentials_corrupt) check_clients)"

definition clients_load :: "client_file codec \<Rightarrow> path \<Rightarrow> (app_error, client_record list) prog" where
  "clients_load json root =
     open_checked root ''agent-clients.lock'' ''Agent credentials are in use by another process.''
       ''agent-clients-v1.json'' CS_MAX_BYTES credentials_corrupt (clients_check json)"

definition credentials_open :: "client_file codec \<Rightarrow> path \<Rightarrow> (app_error, credential_store) prog" where
  "credentials_open json root =
     io_bind (clients_load json root) (\<lambda>rows. io_return \<lparr>cs_path = clients_path root, clients = rows\<rparr>)"

definition credentials_save :: "client_file codec \<Rightarrow> path \<Rightarrow> client_record list \<Rightarrow> (app_error, unit) prog" where
  "credentials_save json p rows =
     (if int (length rows) > MAX_CLIENTS then io_fail (app_error_invalid ''Too many agent clients.'')
      else write_bounded p CS_MAX_BYTES (encode json \<lparr>cf_version = CS_VERSION, cf_clients = rows\<rparr>)
             (app_error_internal ''Could not encode agent credentials.'')
             (app_error_invalid ''Agent credential store is too large.''))"

section \<open>Operations\<close>

definition has_client :: "credential_store \<Rightarrow> string \<Rightarrow> bool" where
  "has_client st c = list_ex (\<lambda>row. row_id row = c) (clients st)"

definition client_ids :: "credential_store \<Rightarrow> string list" where
  "client_ids st = map row_id (clients st)"

definition generation :: "credential_store \<Rightarrow> string \<Rightarrow> string option" where
  "generation st c = map_option sha256_hex (find (\<lambda>row. row_id row = c) (clients st))"

definition enroll ::
  "client_file codec \<Rightarrow> (bytes \<Rightarrow> bytes) \<Rightarrow> credential_store \<Rightarrow> string
   \<Rightarrow> (app_error, string \<times> credential_store) prog" where
  "enroll json sha st c =
     (if \<not> client_valid_id c then io_fail (app_error_invalid ''Invalid agent client ID.'')
      else if has_client st c
      then io_fail (app_error_new AlreadyExists ''Agent client is already enrolled.'')
      else io_bind (random_bytes 32) (\<lambda>r.
        (case r of
           None \<Rightarrow> io_fail (app_error_internal ''Could not create agent credential.'')
         | Some random \<Rightarrow>
             (let secret = hex_bytes random;
                  nxt = clients st @ [\<lparr>row_id = c, sha256_hex = hash_secret sha secret\<rparr>]
              in io_bind (credentials_save json (cs_path st) nxt) (\<lambda>_.
                   io_return (secret, st\<lparr>clients := nxt\<rparr>))))))"

definition credentials_revoke ::
  "client_file codec \<Rightarrow> credential_store \<Rightarrow> string \<Rightarrow> (app_error, credential_store) prog" where
  "credentials_revoke json st c =
     (if \<not> client_valid_id c then io_fail (app_error_invalid ''Invalid agent client ID.'')
      else (let nxt = filter (\<lambda>row. row_id row \<noteq> c) (clients st)
            in io_bind (credentials_save json (cs_path st) nxt) (\<lambda>_.
                 io_return (st\<lparr>clients := nxt\<rparr>))))"

text \<open>The scan goes through every row whatever it finds, so the last match is the one kept.\<close>

definition match_rows :: "string \<Rightarrow> client_record list \<Rightarrow> string option" where
  "match_rows h rows = fold (\<lambda>row found. if h = sha256_hex row then Some (row_id row) else found) rows None"

definition verify ::
  "(bytes \<Rightarrow> bytes) \<Rightarrow> credential_store \<Rightarrow> string \<Rightarrow> string option \<Rightarrow> (app_error, string) result" where
  "verify sha st secret claim =
     (if \<not> valid_hash secret then Err credentials_forbidden
      else and_then (ok_or (match_rows (hash_secret sha secret) (clients st)) credentials_forbidden) (\<lambda>c.
        if (case claim of None \<Rightarrow> False | Some v \<Rightarrow> v \<noteq> c) then Err credentials_forbidden else Ok c))"

section \<open>Rows\<close>

definition rows_ok :: "client_record list \<Rightarrow> bool" where
  "rows_ok rows = (distinct (map row_id rows)
     \<and> list_all (\<lambda>row. client_valid_id (row_id row) \<and> valid_hash (sha256_hex row)) rows)"

lemma check_rows_iff:
  "check_rows seen rows = Ok () \<longleftrightarrow> rows_ok rows \<and> row_id ` set rows \<inter> seen = {}"
  by (induction rows arbitrary: seen) (auto simp: rows_ok_def)

lemma check_clients_iff:
  "check_clients f = Ok rows \<longleftrightarrow>
     rows = cf_clients f \<and> cf_version f = CS_VERSION \<and> int (length rows) \<le> MAX_CLIENTS \<and> rows_ok rows"
  by (auto simp: check_clients_def and_then_Ok_iff check_rows_iff)

lemma match_rows_last:
  "match_rows h rows = map_option row_id (find (\<lambda>row. sha256_hex row = h) (rev rows))"
proof -
  have "fold (\<lambda>row found. if h = sha256_hex row then Some (row_id row) else found) rows acc =
      (case find (\<lambda>row. sha256_hex row = h) (rev rows) of None \<Rightarrow> acc | Some r \<Rightarrow> Some (row_id r))" for acc
  proof (induction rows arbitrary: acc)
    case (Cons row rows)
    have "find P (xs @ ys) = (case find P xs of None \<Rightarrow> find P ys | Some x \<Rightarrow> Some x)"
      for P and xs ys :: "client_record list" by (induction xs) auto
    with Cons show ?case by (auto split: option.splits)
  qed simp
  then show ?thesis by (auto simp: match_rows_def split: option.splits)
qed

lemma match_rows_Some: "match_rows h rows = Some c \<Longrightarrow> \<exists>row \<in> set rows. sha256_hex row = h \<and> row_id row = c"
  unfolding match_rows_last by (auto dest!: find_Some_iff')

lemma match_rows_snoc: "match_rows h (rows @ [\<lparr>row_id = c, sha256_hex = h\<rparr>]) = Some c"
  by (simp add: match_rows_def)

lemma hash_secret_valid: "length (sha (DOMAIN @ secret)) = 32 \<Longrightarrow> valid_hash (hash_secret sha secret)"
  using hex_bytes_hex [of "sha (DOMAIN @ secret)"]
  by (simp add: valid_hash_def hash_secret_def length_hex_bytes)

lemma verify_Ok_iff:
  "verify sha st secret claim = Ok c \<longleftrightarrow>
     valid_hash secret \<and> match_rows (hash_secret sha secret) (clients st) = Some c
     \<and> (claim = None \<or> claim = Some c)"
  by (cases claim) (auto simp: verify_def and_then_Ok_iff split: if_splits)

section \<open>The file\<close>

definition clients_on_disk :: "client_file codec \<Rightarrow> path \<Rightarrow> world \<Rightarrow> client_record list option" where
  "clients_on_disk json root w = checked_dec CS_MAX_BYTES (clients_check json) (files w (clients_path root))"

definition clients_put :: "client_file codec \<Rightarrow> path \<Rightarrow> client_record list \<Rightarrow> (app_error, unit) prog" where
  "clients_put json root rows = credentials_save json (clients_path root) rows"

interpretation cs: json_store "clients_load json" "clients_put json" clients_path clients_lock
    "\<lambda>rows. if MAX_CLIENTS < int (length rows) then None
            else bounded_enc CS_MAX_BYTES (encode json \<lparr>cf_version = CS_VERSION, cf_clients = rows\<rparr>)"
    "checked_dec CS_MAX_BYTES (clients_check json)"
  for json :: "client_file codec"
  unfolding clients_path_def [abs_def] clients_lock_def [abs_def]
  by (rule json_store_checked [where too_many = "\<lambda>_. app_error_invalid ''Too many agent clients.''"
        and not_encoded = "app_error_internal ''Could not encode agent credentials.''"
        and too_large = "app_error_invalid ''Agent credential store is too large.''"])
     (simp_all add: clients_load_def clients_put_def credentials_save_def clients_path_def)

lemma clients_reads_back:
  assumes "codec_ok json" "rows_ok rows"
  shows "cs.reads_back json rows rows"
  unfolding cs.reads_back_def
  using assms by (auto simp: clients_check_def check_clients_iff dest!: codec_okD split: if_splits)

lemma clients_on_disk_ok: "clients_on_disk json root w = Some rows \<Longrightarrow> rows_ok rows"
  unfolding clients_on_disk_def clients_check_def
  by (cases "files w (clients_path root)")
     (auto simp: and_then_Ok_iff check_clients_iff rows_ok_def split: if_splits)

lemma credentials_open_Done:
  assumes "credentials_open json root w = (Done st, w')"
  shows "cs_path st = clients_path root" "clients_on_disk json root w = Some (clients st)" "rows_ok (clients st)"
proof -
  show "cs_path st = clients_path root" and d: "clients_on_disk json root w = Some (clients st)"
    using assms unfolding credentials_open_def clients_on_disk_def
    by (auto elim!: io_bind_DoneE dest!: cs.opens_Done)
  show "rows_ok (clients st)" using d by (rule clients_on_disk_ok)
qed

lemma credentials_open_keeps: "credentials_open json root w = (r, w') \<Longrightarrow> keeps {clients_lock root} w w'"
  unfolding credentials_open_def by (auto elim!: io_bind_cases dest: cs.opens_frame)

lemma credentials_save_on_disk:
  assumes "codec_ok json" "rows_ok rows" "credentials_save json (clients_path root) rows w = (Done u, w')"
  shows "clients_on_disk json root w' = Some rows"
  using cs.saves_Done [of json root rows w u w'] assms clients_reads_back [OF assms(1,2)]
  by (auto simp: clients_put_def clients_on_disk_def cs.reads_back_def)

lemma credentials_save_any:
  assumes "codec_ok json" "rows_ok rows" "credentials_save json (clients_path root) rows w = (r, w')"
  shows "clients_on_disk json root w' \<in> {clients_on_disk json root w, Some rows, Some []}"
  using cs.save_target [of json root rows w r w'] assms clients_reads_back [OF assms(1,2)]
  by (auto simp: clients_put_def clients_on_disk_def cs.reads_back_def clients_check_def)

lemma credentials_save_keeps: "credentials_save json p rows w = (r, w') \<Longrightarrow> keeps (insert p (temps p)) w w'"
  unfolding credentials_save_def by (auto dest: write_bounded_run(1) split: if_splits)

section \<open>Enrolment\<close>

lemma enroll_Done:
  assumes "enroll json sha st c w = (Done (secret, st'), w')"
  shows "client_valid_id c" "\<not> has_client st c"
    "\<exists>random w1. random_bytes 32 w = (Done (Some random) :: (app_error, char list option) run, w1)
       \<and> secret = hex_bytes random
       \<and> st' = st\<lparr>clients := clients st @ [\<lparr>row_id = c, sha256_hex = hash_secret sha secret\<rparr>]\<rparr>
       \<and> credentials_save json (cs_path st) (clients st') w1 = (Done (), w')"
  using assms unfolding enroll_def Let_def
  by (auto elim!: io_bind_DoneE split: if_splits option.splits)

lemma enroll_rows_ok:
  assumes "enroll json sha st c w = (Done (secret, st'), w')" "rows_ok (clients st)"
    and "\<And>x. length (sha x) = 32"
  shows "rows_ok (clients st')" "valid_hash secret"
    "verify sha st' secret claim = (if claim \<in> {None, Some c} then Ok c else Err credentials_forbidden)"
proof -
  obtain random w1 where r: "random_bytes 32 w = (Done (Some random) :: (app_error, char list option) run, w1)"
    and s: "secret = hex_bytes random"
    and st': "clients st' = clients st @ [\<lparr>row_id = c, sha256_hex = hash_secret sha secret\<rparr>]"
    using enroll_Done(3) [OF assms(1)] by auto
  have len: "length random = 32" using r by (auto simp: random_bytes_def split: if_splits)
  show v: "valid_hash secret"
    unfolding s valid_hash_def using len hex_bytes_hex by (simp add: length_hex_bytes)
  show "rows_ok (clients st')"
    using assms(2) enroll_Done(1,2) [OF assms(1)] hash_secret_valid [OF assms(3)]
    by (auto simp: st' rows_ok_def has_client_def list_ex_iff)
  show "verify sha st' secret claim = (if claim \<in> {None, Some c} then Ok c else Err credentials_forbidden)"
    unfolding verify_def st' match_rows_snoc using v by (auto split: option.splits)
qed

end
