(* ===== verification/Agent_Gateway.thy ===== *)
theory Agent_Gateway
  imports Policy_Store Agent_Auth Decimal
begin

text \<open>
  The boundary an agent calls, \<^verbatim>\<open>src/agent_gateway.rs\<close>: every request opens the credential store,
  verifies the presented secret, opens the policy store, authorizes, and only then touches the
  registry or an app. Loading the registry, locking an app and running it are parameters. The two
  JSON codecs and SHA-256 are collected in a record.
\<close>

section \<open>Data\<close>

record gateway =
  policy_root :: path
  credentials_root :: path

record services =
  policy_json :: "policy_file codec"
  client_json :: "client_file codec"
  sha :: "bytes \<Rightarrow> bytes"

record owner_policy_snapshot =
  snap_clients :: "string list"
  snap_grants :: "agent_grant list"
  snap_audit :: "audit_event list"

record lifecycle_call =
  call_app :: string
  call_start :: bool
  call_now :: u64

datatype 's tool_result = Status_of 's | Started string | Stopped string

definition MAX_STATUS_GRANT_HOURS :: u64 where "MAX_STATUS_GRANT_HOURS = 24 * 30"
definition MAX_LIFECYCLE_GRANT_HOURS :: u64 where "MAX_LIFECYCLE_GRANT_HOURS = 24"

definition not_enrolled :: app_error where
  "not_enrolled = app_error_new NotFound ''Agent client is not enrolled.''"

definition not_installed :: app_error where
  "not_installed = app_error_new NotFound ''That app is not installed.''"

text \<open>One call on a store that is dropped afterwards: only its result remains.\<close>

definition once :: "('s, 'a) stored \<Rightarrow> (app_error, 'a) prog" where
  "once m = io_bind m (\<lambda>(r, _). io_lift r)"

definition grant_expiry :: "u64 \<Rightarrow> u64 \<Rightarrow> u64 \<Rightarrow> string \<Rightarrow> string \<Rightarrow> (app_error, u64) result" where
  "grant_expiry most hours now bad_hours bad_expiry =
     and_then (ensure (1 \<le> hours \<and> hours \<le> most) (app_error_invalid bad_hours)) (\<lambda>_.
       ok_or (checked_add now (hours * 3600)) (app_error_invalid bad_expiry))"

section \<open>Owner operations\<close>

definition grant_files_for_owner ::
  "services \<Rightarrow> gateway \<Rightarrow> string \<Rightarrow> string \<Rightarrow> u64 \<Rightarrow> u64 \<Rightarrow> (app_error, u64) prog" where
  "grant_files_for_owner sv gw c a hours now =
     io_bind (io_lift (grant_expiry 24 hours now ''File grants last 1 to 24 hours.'' ''Grant expiry is invalid.'')) (\<lambda>expires.
     io_bind (credentials_open (client_json sv) (credentials_root gw)) (\<lambda>credentials.
     io_bind (io_ensure (has_client credentials c) not_enrolled) (\<lambda>_.
     io_bind (policy_open (policy_json sv) (policy_root gw)) (\<lambda>policy.
     io_bind (once (store_grant (policy_json sv) policy
                \<lparr>client_id = c, app_id = a, actions = {Status, ReadFiles}, expires_at_unix = expires\<rparr>)) (\<lambda>_.
       io_return expires)))))"

definition grant_content_for_owner ::
  "services \<Rightarrow> gateway \<Rightarrow> string \<Rightarrow> string \<Rightarrow> u64 \<Rightarrow> bool \<Rightarrow> u64 \<Rightarrow> (app_error, u64) prog" where
  "grant_content_for_owner sv gw c a hours write_too now =
     io_bind (io_lift (grant_expiry 24 hours now ''Content grants last 1 to 24 hours.'' ''Grant expiry is invalid.'')) (\<lambda>expires.
     io_bind (credentials_open (client_json sv) (credentials_root gw)) (\<lambda>credentials.
     io_bind (io_ensure (has_client credentials c) not_enrolled) (\<lambda>_.
     io_bind (policy_open (policy_json sv) (policy_root gw)) (\<lambda>policy.
     io_bind (once (store_grant (policy_json sv) policy
                \<lparr>client_id = c, app_id = a,
                 actions = {Status, ReadContent} \<union> (if write_too then {WriteContent} else {}),
                 expires_at_unix = expires\<rparr>)) (\<lambda>_.
       io_return expires)))))"

definition grant_installed ::
  "services \<Rightarrow> gateway \<Rightarrow> string \<Rightarrow> string \<Rightarrow> agent_action set \<Rightarrow> u64 \<Rightarrow> (app_error, registry_v2) prog
   \<Rightarrow> (app_error, u64) prog" where
  "grant_installed sv gw c a acts expires load =
     io_bind (credentials_open (client_json sv) (credentials_root gw)) (\<lambda>credentials.
     io_bind (io_ensure (has_client credentials c) not_enrolled) (\<lambda>_.
     io_bind load (\<lambda>registry.
     io_bind (io_ensure (list_ex (\<lambda>app. installed_app.app_id app = a) (apps registry)) not_installed) (\<lambda>_.
     io_bind (policy_open (policy_json sv) (policy_root gw)) (\<lambda>policy.
     io_bind (once (store_grant (policy_json sv) policy
                \<lparr>client_id = c, app_id = a, actions = acts, expires_at_unix = expires\<rparr>)) (\<lambda>_.
       io_return expires))))))"

definition grant_lifecycle_for_owner_with ::
  "services \<Rightarrow> gateway \<Rightarrow> string \<Rightarrow> string \<Rightarrow> u64 \<Rightarrow> u64 \<Rightarrow> (app_error, registry_v2) prog
   \<Rightarrow> (app_error, u64) prog" where
  "grant_lifecycle_for_owner_with sv gw c a hours now load =
     io_bind (io_lift (grant_expiry MAX_LIFECYCLE_GRANT_HOURS hours now
       ''Lifecycle grant must last 1 to 24 hours.'' ''Lifecycle grant expiry is out of range.'')) (\<lambda>expires.
       grant_installed sv gw c a {Status, Start, Stop} expires load)"

definition grant_status_for_owner_with ::
  "services \<Rightarrow> gateway \<Rightarrow> string \<Rightarrow> string \<Rightarrow> u64 \<Rightarrow> u64 \<Rightarrow> (app_error, registry_v2) prog
   \<Rightarrow> (app_error, u64) prog" where
  "grant_status_for_owner_with sv gw c a hours now load =
     io_bind (io_lift (grant_expiry MAX_STATUS_GRANT_HOURS hours now
       ''Status grant must last 1 to 720 hours.'' ''Status grant expiry is out of range.'')) (\<lambda>expires.
       grant_installed sv gw c a {Status} expires load)"

definition revoke_status_for_owner :: "services \<Rightarrow> gateway \<Rightarrow> string \<Rightarrow> string \<Rightarrow> (app_error, unit) prog" where
  "revoke_status_for_owner sv gw c a =
     io_bind (credentials_open (client_json sv) (credentials_root gw)) (\<lambda>credentials.
     io_bind (io_ensure (has_client credentials c) not_enrolled) (\<lambda>_.
     io_bind (policy_open (policy_json sv) (policy_root gw)) (\<lambda>policy.
       once (store_revoke (policy_json sv) policy c a))))"

definition gateway_open :: "services \<Rightarrow> path \<Rightarrow> path \<Rightarrow> (app_error, gateway) prog" where
  "gateway_open sv pr cr =
     io_bind (policy_open (policy_json sv) pr) (\<lambda>_.
     io_bind (credentials_open (client_json sv) cr) (\<lambda>_.
       io_return \<lparr>policy_root = pr, credentials_root = cr\<rparr>))"

definition enroll_client_for_owner :: "services \<Rightarrow> gateway \<Rightarrow> string \<Rightarrow> (app_error, string) prog" where
  "enroll_client_for_owner sv gw c =
     io_bind (credentials_open (client_json sv) (credentials_root gw)) (\<lambda>credentials.
     io_bind (io_ensure (\<not> has_client credentials c)
                (app_error_new AlreadyExists ''Agent client is already enrolled.'')) (\<lambda>_.
     io_bind (policy_open (policy_json sv) (policy_root gw)) (\<lambda>policy.
     io_bind (once (store_revoke_client (policy_json sv) policy c)) (\<lambda>_.
     io_bind (enroll (client_json sv) (sha sv) credentials c) (\<lambda>(secret, _).
       io_return secret)))))"

definition revoke_client_for_owner :: "services \<Rightarrow> gateway \<Rightarrow> string \<Rightarrow> (app_error, unit) prog" where
  "revoke_client_for_owner sv gw c =
     io_bind (credentials_open (client_json sv) (credentials_root gw)) (\<lambda>credentials.
     io_bind (policy_open (policy_json sv) (policy_root gw)) (\<lambda>policy.
     io_bind (once (store_revoke_client (policy_json sv) policy c)) (\<lambda>_.
     io_bind (credentials_revoke (client_json sv) credentials c) (\<lambda>_.
       io_return ()))))"

definition list_clients_for_owner :: "services \<Rightarrow> gateway \<Rightarrow> (app_error, string list) prog" where
  "list_clients_for_owner sv gw =
     io_bind (credentials_open (client_json sv) (credentials_root gw)) (\<lambda>st. io_return (client_ids st))"

definition snapshot_for_owner :: "services \<Rightarrow> gateway \<Rightarrow> (app_error, owner_policy_snapshot) prog" where
  "snapshot_for_owner sv gw =
     io_bind (credentials_open (client_json sv) (credentials_root gw)) (\<lambda>credentials.
     io_bind (policy_open (policy_json sv) (policy_root gw)) (\<lambda>policy.
       io_return \<lparr>snap_clients = client_ids credentials, snap_grants = grants_for_owner policy,
         snap_audit = audit (ps_policy policy)\<rparr>))"

definition credential_matches_for_owner :: "services \<Rightarrow> gateway \<Rightarrow> string \<Rightarrow> string \<Rightarrow> (app_error, bool) prog" where
  "credential_matches_for_owner sv gw c secret =
     io_bind (credentials_open (client_json sv) (credentials_root gw)) (\<lambda>credentials.
       io_return (is_ok (verify (sha sv) credentials secret (Some c))))"

definition owner_client_generation :: "services \<Rightarrow> gateway \<Rightarrow> string \<Rightarrow> (app_error, string) prog" where
  "owner_client_generation sv gw c =
     io_bind (credentials_open (client_json sv) (credentials_root gw)) (\<lambda>credentials.
       io_lift (ok_or (generation credentials c) (app_error_new Forbidden ''Agent access denied.'')))"

section \<open>Requests of agents\<close>

definition authenticate_mutation :: "services \<Rightarrow> gateway \<Rightarrow> string \<Rightarrow> (app_error, string \<times> string) prog" where
  "authenticate_mutation sv gw secret =
     io_bind (credentials_open (client_json sv) (credentials_root gw)) (\<lambda>credentials.
     io_bind (io_lift (verify (sha sv) credentials secret None)) (\<lambda>c.
     io_bind (io_lift (ok_or (generation credentials c)
        (app_error_new Forbidden ''Agent access denied.''))) (\<lambda>g.
       io_return (c, g))))"

definition authorize_once ::
  "services \<Rightarrow> gateway \<Rightarrow> string \<Rightarrow> string \<Rightarrow> agent_action \<Rightarrow> u64 \<Rightarrow> (app_error, unit) prog" where
  "authorize_once sv gw c a act now =
     io_bind (policy_open (policy_json sv) (policy_root gw)) (\<lambda>policy.
       once (store_authorize (policy_json sv) policy c a act None now))"

definition authorize_files :: "services \<Rightarrow> gateway \<Rightarrow> string \<Rightarrow> string \<Rightarrow> u64 \<Rightarrow> (app_error, unit) prog" where
  "authorize_files sv gw bearer a now =
     io_bind (authenticate_mutation sv gw bearer) (\<lambda>(c, _). authorize_once sv gw c a ReadFiles now)"

definition authorize_status_request :: "services \<Rightarrow> gateway \<Rightarrow> string \<Rightarrow> string \<Rightarrow> u64 \<Rightarrow> (app_error, unit) prog" where
  "authorize_status_request sv gw secret a now =
     io_bind (authenticate_mutation sv gw secret) (\<lambda>(c, _). authorize_once sv gw c a Status now)"

text \<open>\<^verbatim>\<open>now + 1\<close> wraps, as in a release build.\<close>

definition authorize_content :: "services \<Rightarrow> gateway \<Rightarrow> string \<Rightarrow> string \<Rightarrow> bool \<Rightarrow> u64 \<Rightarrow> (app_error, unit) prog" where
  "authorize_content sv gw bearer a write_too now =
     io_bind (authenticate_mutation sv gw bearer) (\<lambda>(c, _).
     io_bind (policy_open (policy_json sv) (policy_root gw)) (\<lambda>policy.
       if write_too then
         io_bind (store_approve policy c a WriteContent (now + 1)) (\<lambda>(r, policy1).
         io_bind (io_lift r) (\<lambda>approval.
           once (store_authorize (policy_json sv) policy1 c a WriteContent (Some approval) now)))
       else once (store_authorize (policy_json sv) policy c a ReadContent None now)))"

definition check_content_write_request ::
  "services \<Rightarrow> gateway \<Rightarrow> string \<Rightarrow> string \<Rightarrow> u64 \<Rightarrow> (app_error, unit) prog" where
  "check_content_write_request sv gw bearer a now =
     io_bind (authenticate_mutation sv gw bearer) (\<lambda>(c, _).
     io_bind (policy_open (policy_json sv) (policy_root gw)) (\<lambda>policy.
       let permitted = list_ex (\<lambda>g. client_id g = c \<and> agent_grant.app_id g = a \<and> now < expires_at_unix g
                                   \<and> WriteContent \<in> actions g) (grants_for_owner policy)
       in io_bind (once (record_request_audit (policy_json sv) policy c a WriteContent False now)) (\<lambda>_.
            io_ensure permitted (app_error_new Forbidden ''App content access denied.''))))"

definition audit_mutation ::
  "services \<Rightarrow> gateway \<Rightarrow> string \<Rightarrow> string \<Rightarrow> agent_action \<Rightarrow> bool \<Rightarrow> u64 \<Rightarrow> (app_error, unit) prog" where
  "audit_mutation sv gw c a act ok now =
     io_bind (policy_open (policy_json sv) (policy_root gw)) (\<lambda>policy.
       once (record_request_audit (policy_json sv) policy c a act ok now))"

definition list_granted_apps_with ::
  "services \<Rightarrow> gateway \<Rightarrow> string \<Rightarrow> u64 \<Rightarrow> (app_error, registry_v2) prog \<Rightarrow> (app_error, string list) prog" where
  "list_granted_apps_with sv gw secret now load =
     io_bind (credentials_open (client_json sv) (credentials_root gw)) (\<lambda>credentials.
     io_bind (io_lift (verify (sha sv) credentials secret None)) (\<lambda>caller.
     io_bind (policy_open (policy_json sv) (policy_root gw)) (\<lambda>policy.
       let granted = store_status_app_ids policy caller now
       in if granted = {} then io_return []
          else io_bind load (\<lambda>registry.
                 io_return (map installed_app.app_id
                   (filter (\<lambda>app. installed_app.app_id app \<in> granted) (apps registry)))))))"

definition lifecycle_with ::
  "services \<Rightarrow> gateway \<Rightarrow> string \<Rightarrow> lifecycle_call \<Rightarrow> (string \<Rightarrow> (app_error, 'g) prog)
   \<Rightarrow> (app_error, registry_v2) prog \<Rightarrow> (installed_app \<Rightarrow> bool \<Rightarrow> (app_error, unit) prog)
   \<Rightarrow> (app_error, 's tool_result) prog" where
  "lifecycle_with sv gw secret call lock load run =
     io_bind (credentials_open (client_json sv) (credentials_root gw)) (\<lambda>credentials.
     io_bind (io_lift (verify (sha sv) credentials secret None)) (\<lambda>caller.
     io_bind (authorize_once sv gw caller (call_app call)
                (if call_start call then Start else Stop) (call_now call)) (\<lambda>_.
     io_bind (lock (call_app call)) (\<lambda>_.
     io_bind load (\<lambda>registry.
     io_bind (io_lift (ok_or (find (\<lambda>app. installed_app.app_id app = call_app call) (apps registry))
                not_installed)) (\<lambda>app.
     io_bind (run app (call_start call)) (\<lambda>_.
       io_return (if call_start call then Started (call_app call) else Stopped (call_app call)))))))))"

definition get_status_with ::
  "services \<Rightarrow> gateway \<Rightarrow> string \<Rightarrow> string option \<Rightarrow> string \<Rightarrow> u64 \<Rightarrow> (app_error, registry_v2) prog
   \<Rightarrow> (installed_app \<Rightarrow> (app_error, 's) prog) \<Rightarrow> (app_error, 's tool_result) prog" where
  "get_status_with sv gw secret claim a now load status =
     io_bind (credentials_open (client_json sv) (credentials_root gw)) (\<lambda>credentials.
     io_bind (io_lift (verify (sha sv) credentials secret claim)) (\<lambda>caller.
     io_bind (authorize_once sv gw caller a Status now) (\<lambda>_.
     io_bind load (\<lambda>registry.
     io_bind (io_lift (ok_or (find (\<lambda>app. installed_app.app_id app = a) (apps registry)) not_installed)) (\<lambda>app.
     io_bind (status app) (\<lambda>s.
       io_return (Status_of s)))))))"

section \<open>How the steps run\<close>

lemma once_Done: "once m w = (Done x, w') \<longleftrightarrow> (\<exists>s. m w = (Done (Ok x, s), w'))"
  by (auto simp: once_def io_bind_def io_lift_def split: prod.splits run.splits result.splits)

lemma store_files_apart [simp]:
  "policy_path r \<noteq> clients_lock r'" "clients_path r \<noteq> policy_lock r'" "policy_path r \<noteq> policy_lock r'"
  "clients_path r \<noteq> policy_path r'" "policy_path r \<noteq> clients_path r'" "clients_path r \<noteq> clients_lock r'"
  "policy_path r \<notin> temps (clients_path r')" "clients_path r \<notin> temps (policy_path r')"
  by (simp_all add: policy_path_def clients_path_def policy_lock_def clients_lock_def path_join_def temps_def
      temp_path_def)

lemma credentials_open_policy:
  "credentials_open json r w = (x, w') \<Longrightarrow> policy_on_disk pj r' w' = policy_on_disk pj r' w"
  by (drule credentials_open_keeps) (simp add: policy_on_disk_def keeps_def)

lemma policy_open_clients:
  "policy_open json r w = (x, w') \<Longrightarrow> clients_on_disk cj r' w' = clients_on_disk cj r' w"
  by (drule policy_open_keeps) (simp add: clients_on_disk_def keeps_def)

lemma policy_open_policy:
  "policy_open json r w = (x, w') \<Longrightarrow> policy_on_disk pj r' w' = policy_on_disk pj r' w"
  by (drule policy_open_keeps) (simp add: policy_on_disk_def keeps_def)

lemma credentials_open_clients:
  "credentials_open json r w = (x, w') \<Longrightarrow> clients_on_disk cj r' w' = clients_on_disk cj r' w"
  by (drule credentials_open_keeps) (simp add: clients_on_disk_def keeps_def)

text \<open>Who may do what, read off the two files.\<close>

definition entitled :: "services \<Rightarrow> gateway \<Rightarrow> world \<Rightarrow> string \<Rightarrow> string \<Rightarrow> agent_action \<Rightarrow> u64 \<Rightarrow> bool" where
  "entitled sv gw w secret a act now =
     (case (clients_on_disk (client_json sv) (credentials_root gw) w, policy_on_disk (policy_json sv) (policy_root gw) w) of
        (Some rows, Some p) \<Rightarrow>
          list_ex (\<lambda>row. sha256_hex row = hash_secret (sha sv) secret
             \<and> holds (\<lambda>g. grant_covers g act now) (bt_get (grants p) (row_id row, a))) rows
      | _ \<Rightarrow> False)"

lemma authorize_once_Done:
  assumes "authorize_once sv gw c a act now w = (Done u, w')"
  obtains p g where "policy_on_disk (policy_json sv) (policy_root gw) w = Some p"
    "bt_get (grants p) (c, a) = Some g" "grant_covers g act now"
proof -
  obtain st w1 s where o: "policy_open (policy_json sv) (policy_root gw) w = (Done st, w1)"
    and r: "store_authorize (policy_json sv) st c a act None now w1 = (Done (Ok u, s), w')"
    using assms unfolding authorize_once_def io_done once_Done by blast
  show thesis
    using that policy_open_Done(2) [OF o] store_authorize_run(2) [OF r] by (auto simp: policy_authorize_fst)
qed

text \<open>The part of a request before the registry is read.\<close>

definition request_guard ::
  "services \<Rightarrow> gateway \<Rightarrow> string \<Rightarrow> string option \<Rightarrow> string \<Rightarrow> agent_action \<Rightarrow> u64 \<Rightarrow> (app_error, unit) prog" where
  "request_guard sv gw secret claim a act now =
     io_bind (credentials_open (client_json sv) (credentials_root gw)) (\<lambda>credentials.
     io_bind (io_lift (verify (sha sv) credentials secret claim)) (\<lambda>caller.
       authorize_once sv gw caller a act now))"

lemma request_guard_entitled:
  assumes "request_guard sv gw secret claim a act now w = (Done u, w')"
  shows "entitled sv gw w secret a act now"
proof -
  obtain st w1 c where o: "credentials_open (client_json sv) (credentials_root gw) w = (Done st, w1)"
    and v: "verify (sha sv) st secret claim = Ok c"
    and a: "authorize_once sv gw c a act now w1 = (Done u, w')"
    using assms unfolding request_guard_def io_done by blast
  obtain p g where p: "policy_on_disk (policy_json sv) (policy_root gw) w = Some p"
    "bt_get (grants p) (c, a) = Some g" "grant_covers g act now"
    using authorize_once_Done [OF a] unfolding credentials_open_policy [OF o] by blast
  obtain row where "row \<in> set (clients st)" "sha256_hex row = hash_secret (sha sv) secret" "row_id row = c"
    using v by (auto simp: verify_Ok_iff dest!: match_rows_Some)
  then show ?thesis
    unfolding entitled_def credentials_open_Done(2) [OF o] p(1) using p(2,3)
    by (auto simp: list_ex_iff holds_def)
qed

lemma io_bind_assoc: "io_bind (io_bind m f) g = io_bind m (\<lambda>x. io_bind (f x) g)"
  by (auto simp: io_bind_def fun_eq_iff split: prod.splits run.splits)

lemma lifecycle_guarded:
  "lifecycle_with sv gw secret call lock load run =
     io_bind (request_guard sv gw secret None (call_app call) (if call_start call then Start else Stop) (call_now call))
       (\<lambda>_. io_bind (lock (call_app call)) (\<lambda>_. io_bind load (\<lambda>registry.
          io_bind (io_lift (ok_or (find (\<lambda>app. installed_app.app_id app = call_app call) (apps registry)) not_installed))
            (\<lambda>app. io_bind (run app (call_start call)) (\<lambda>_.
               io_return (if call_start call then Started (call_app call) else Stopped (call_app call)))))))"
  unfolding lifecycle_with_def request_guard_def io_bind_assoc ..

lemma get_status_guarded:
  "get_status_with sv gw secret claim a now load status =
     io_bind (request_guard sv gw secret claim a Status now)
       (\<lambda>_. io_bind load (\<lambda>registry.
          io_bind (io_lift (ok_or (find (\<lambda>app. installed_app.app_id app = a) (apps registry)) not_installed))
            (\<lambda>app. io_bind (status app) (\<lambda>s. io_return (Status_of s)))))"
  unfolding get_status_with_def request_guard_def io_bind_assoc ..

lemma io_bind_stops:
  assumes "\<nexists>x w1. m w = (Done x, w1)"
  shows "\<exists>r w'. (\<forall>f. io_bind m f w = (r, w')) \<and> (\<forall>x. r \<noteq> Done x)"
  using assms by (cases "m w" rule: prod.exhaust; cases "fst (m w)") (auto simp: io_bind_def)

section \<open>The owner's operations on the files\<close>

lemma store_grant_Done:
  assumes "once (store_grant json st g) w = (Done u, w')" "store_ok root st" "codec_ok json"
  shows "\<exists>p. policy_on_disk json root w' = Some p
     \<and> grants p = bt_insert (grant_key g) g (grants (ps_policy st)) \<and> grant_ok g"
proof -
  have st: "ps_path st = policy_path root" "policy_ok (ps_policy st)" using assms(2) by (auto simp: store_ok_def)
  obtain s where s: "store_grant json st g w = (Done (Ok (), s), w')" using assms(1) by (auto simp: once_Done)
  then obtain nxt where n: "policy_grant (ps_policy st) g = Ok nxt" "save_then_keep json st nxt w = (Done (Ok (), s), w')"
    by (cases "policy_grant (ps_policy st) g") (auto simp: store_grant_def)
  have "policy_save json (policy_path root) nxt w = (Done (), w')"
    using save_then_keep_run [OF n(2)] st(1) by auto
  from policy_save_on_disk [OF assms(3) policy_grant_ok [OF st(2) n(1)] this] n(1)
  show ?thesis by (auto simp: policy_grant_Ok_iff)
qed

text \<open>After a client's grants were revoked, whatever happened to the file, it holds none of them,
  or it is the file from before.\<close>

definition without_client :: "string \<Rightarrow> agent_policy option \<Rightarrow> bool" where
  "without_client c p = holds (\<lambda>p. \<forall>a. bt_get (grants p) (c, a) = None) p"

lemma revoke_client_without:
  "policy_ok p \<Longrightarrow> policy_ok (policy_revoke_client p c)
     \<and> without_client c (Some (forget_approvals (policy_revoke_client p c)))"
  by (simp add: policy_revoke_client_ok)
     (auto simp: without_client_def holds_def policy_revoke_client_def bt_get_retain policy_ok_def split: option.splits)

lemma store_revoke_client_run:
  assumes "once (store_revoke_client json st c) w = (r, w')" "store_ok root st" "codec_ok json"
  shows "without_client c (policy_on_disk json root w') \<or> policy_on_disk json root w' = policy_on_disk json root w"
    and "r = Done u \<Longrightarrow> without_client c (policy_on_disk json root w')"
    and "keeps (insert (policy_path root) (temps (policy_path root))) w w'"
proof -
  let ?nxt = "policy_revoke_client (ps_policy st) c"
  have st: "ps_path st = policy_path root" "policy_ok (ps_policy st)" using assms(2) by (auto simp: store_ok_def)
  have "without_client c (Some policy_default)" by (simp add: without_client_def holds_def)
  note nxt = revoke_client_without [OF st(2), of c] this
  have run: "(r, w') = (Failed (app_error_invalid ''Invalid agent client ID.''), w)
      \<or> (\<exists>x. policy_save json (policy_path root) ?nxt w = (x, w') \<and> (\<forall>u. r = Done u \<longrightarrow> x = Done ()))"
    using assms(1) st(1) unfolding once_def store_revoke_client_def keep_and_save_def
    by (auto simp: io_bind_def io_try_def io_match_def io_lift_def
        split: prod.splits run.splits result.splits if_splits)
  then show "without_client c (policy_on_disk json root w') \<or> policy_on_disk json root w' = policy_on_disk json root w"
    using policy_save_any [OF assms(3)] nxt by fastforce
  show "without_client c (policy_on_disk json root w')" if "r = Done u"
    using run that policy_save_on_disk [OF assms(3)] nxt by fastforce
  show "keeps (insert (policy_path root) (temps (policy_path root))) w w'"
    using run policy_save_keeps by fastforce
qed

lemma verify_clients: "clients st = clients st' \<Longrightarrow> verify h st s claim = verify h st' s claim"
  by (simp add: verify_def)

lemma revoke_stopped:
  assumes "once (store_revoke_client json st c) w = (r, w')" "store_ok root st" "codec_ok json"
  shows "without_client c (policy_on_disk json root w')
    \<or> (policy_on_disk json root w' = policy_on_disk json root w
       \<and> clients_on_disk cj cr w' = clients_on_disk cj cr w)"
  using store_revoke_client_run(1) [OF assms] keeps_file [OF store_revoke_client_run(3) [OF assms]]
  by (auto simp: clients_on_disk_def)

lemma credentials_revoke_run:
  assumes "credentials_revoke json st c w = (r, w')" "cs_path st = clients_path root" "rows_ok (clients st)" "codec_ok json"
  shows "keeps (insert (clients_path root) (temps (clients_path root))) w w'"
    and "r = Done s \<Longrightarrow> clients_on_disk json root w' = Some (filter (\<lambda>row. row_id row \<noteq> c) (clients st))"
proof -
  let ?nxt = "filter (\<lambda>row. row_id row \<noteq> c) (clients st)"
  have ok: "rows_ok ?nxt" using assms(3) by (auto simp: rows_ok_def list_all_iff distinct_map_filter)
  have run: "w' = w \<and> (\<forall>s. r \<noteq> Done s) \<or> (\<exists>x. credentials_save json (clients_path root) ?nxt w = (x, w')
      \<and> (\<forall>s. r = Done s \<longrightarrow> x = Done ()))"
    using assms(1,2) unfolding credentials_revoke_def Let_def
    by (auto elim!: io_bind_cases split: if_splits)
  then show "keeps (insert (clients_path root) (temps (clients_path root))) w w'"
    using credentials_save_keeps by fastforce
  show "clients_on_disk json root w' = Some ?nxt" if "r = Done s"
    using run that credentials_save_on_disk [OF assms(4) ok] by fastforce
qed

lemma grant_expiry_Ok:
  assumes "grant_expiry most hours now m1 m2 = Ok e" "unat most \<le> 720"
  shows "1 \<le> unat hours" "unat hours \<le> unat most" "unat e = unat now + 3600 * unat hours"
proof -
  have h: "1 \<le> hours" "hours \<le> most" and e: "checked_add now (hours * 3600) = Some e"
    using assms(1) by (auto simp: grant_expiry_def and_then_Ok_iff)
  show "1 \<le> unat hours" using h(1) by (simp add: word_le_nat_alt)
  show le: "unat hours \<le> unat most" using h(2) by (simp add: word_le_nat_alt)
  have "unat (hours * 3600) = unat hours * 3600"
    using le assms(2) by (subst unat_mult_lem [THEN iffD1]) auto
  with checked_add_Some [OF e] show "unat e = unat now + 3600 * unat hours" by simp
qed

lemma grant_installed_Done:
  assumes "grant_installed sv gw c a acts expires load w = (Done e, w')" "codec_ok (policy_json sv)"
  shows "e = expires"
    "\<exists>rows. clients_on_disk (client_json sv) (credentials_root gw) w = Some rows \<and> c \<in> row_id ` set rows"
    "\<exists>w1 w2 reg. load w1 = (Done reg, w2) \<and> a \<in> installed_app.app_id ` set (apps reg)"
    "\<exists>p. policy_on_disk (policy_json sv) (policy_root gw) w' = Some p
       \<and> bt_get (grants p) (c, a) = Some \<lparr>client_id = c, app_id = a, actions = acts, expires_at_unix = expires\<rparr>"
proof -
  let ?g = "\<lparr>client_id = c, app_id = a, actions = acts, expires_at_unix = expires\<rparr>"
  obtain cr w1 reg w2 st w3 u where o: "credentials_open (client_json sv) (credentials_root gw) w = (Done cr, w1)"
    and h: "has_client cr c" and l: "load w1 = (Done reg, w2)"
    and i: "list_ex (\<lambda>app. installed_app.app_id app = a) (apps reg)"
    and po: "policy_open (policy_json sv) (policy_root gw) w2 = (Done st, w3)"
    and g: "once (store_grant (policy_json sv) st ?g) w3 = (Done u, w')" and e: "e = expires"
    using assms(1) unfolding grant_installed_def io_done by blast
  show "e = expires" by (rule e)
  show "\<exists>rows. clients_on_disk (client_json sv) (credentials_root gw) w = Some rows \<and> c \<in> row_id ` set rows"
    using credentials_open_Done(2) [OF o] h by (auto simp: has_client_def list_ex_iff)
  show "\<exists>w1 w2 reg. load w1 = (Done reg, w2) \<and> a \<in> installed_app.app_id ` set (apps reg)"
    using l i by (auto simp: list_ex_iff image_iff)
  have "bt_ok (grants (ps_policy st))"
    using policy_open_store_ok [OF po] by (auto simp: store_ok_def policy_ok_def)
  with store_grant_Done [OF g policy_open_store_ok [OF po] assms(2)]
  show "\<exists>p. policy_on_disk (policy_json sv) (policy_root gw) w' = Some p \<and> bt_get (grants p) (c, a) = Some ?g"
    by (auto simp: bt_get_insert grant_key_def)
qed

section \<open>Sample\<close>

definition sample_hash :: string where
  "sample_hash = hex_bytes (replicate 32 (CHR 0x00))"

definition sample_row :: client_record where
  "sample_row = \<lparr>row_id = ''c'', sha256_hex = sample_hash\<rparr>"

definition sample_services :: services where
  "sample_services = \<lparr>
     policy_json = table_codec [(\<lparr>pf_version = 1, pf_grants = [sample_grant], pf_audit = []\<rparr>, ''0''),
       (\<lparr>pf_version = 1, pf_grants = [], pf_audit = []\<rparr>, ''2''),
       (\<lparr>pf_version = 1, pf_grants = [\<lparr>client_id = ''c'', app_id = ''a'', actions = {Status},
          expires_at_unix = 3607\<rparr>], pf_audit = []\<rparr>, ''3'')],
     client_json = table_codec [(\<lparr>cf_version = 1, cf_clients = [sample_row]\<rparr>, ''4''),
       (\<lparr>cf_version = 1, cf_clients = []\<rparr>, ''5'')],
     sha = (\<lambda>_. replicate 32 (CHR 0x00))\<rparr>"

definition sample_gateway :: gateway where
  "sample_gateway = \<lparr>policy_root = [], credentials_root = []\<rparr>"

definition sample_gateway_world :: "(path \<Rightarrow> bytes option) \<Rightarrow> world" where
  "sample_gateway_world fs = \<lparr>files = fs, dirs = {}, locked = {}, clock_secs = Some 5, clock_nanos = 7,
     entropy = replicate 32 (CHR 0x01), faults = []\<rparr>"

lemma sample_services_ok:
  "codec_ok (policy_json sample_services)" "codec_ok (client_json sample_services)"
  "length (sha sample_services x) = 32"
  unfolding sample_services_def by (simp_all add: table_codec_ok)

section \<open>Properties\<close>

text \<open>
  Claim C21. A request that is not entitled does nothing: unless the credential file holds the hash of
  the presented secret and the policy file a live grant for that client, app and action, a start or
  stop request fails the same way whatever the registry holds and whatever locking or running an app
  would do, so none of them is reached.
\<close>

theorem unentitled_request_is_inert:
  assumes "\<not> entitled sv gw w secret (call_app call) (if call_start call then Start else Stop) (call_now call)"
  shows "\<exists>r w'. (\<forall>x. r \<noteq> Done x) \<and> (\<forall>lock load run. lifecycle_with sv gw secret call lock load run w = (r, w'))"
proof -
  let ?act = "if call_start call then Start else Stop"
  have "\<nexists>u w1. request_guard sv gw secret None (call_app call) ?act (call_now call) w = (Done u, w1)"
    using request_guard_entitled assms by blast
  from io_bind_stops [of "request_guard sv gw secret None (call_app call) ?act (call_now call)" w] this
  obtain r :: "(app_error, 'a tool_result) run" and w' where
    "\<forall>f. io_bind (request_guard sv gw secret None (call_app call) ?act (call_now call)) f w = (r, w')"
    "\<forall>x. r \<noteq> Done x" by meson
  then show ?thesis unfolding lifecycle_guarded by (intro exI [of _ r] exI [of _ w']) simp
qed

theorem unentitled_request_is_inert_witness:
  "\<forall>load :: (app_error, registry_v2) prog. \<exists>r w'. (\<forall>x. r \<noteq> Done x) \<and>
     lifecycle_with sample_services sample_gateway ''s'' \<lparr>call_app = ''a'', call_start = True, call_now = 7\<rparr>
       (\<lambda>_. io_return ()) load (\<lambda>_ _. io_return ()) (sample_gateway_world (\<lambda>_. None)) = (r, w')"
proof -
  let ?call = "\<lparr>call_app = ''a'', call_start = True, call_now = 7\<rparr>"
  have "\<not> entitled sample_services sample_gateway (sample_gateway_world (\<lambda>_. None)) ''s'' (call_app ?call)
      (if call_start ?call then Start else Stop) (call_now ?call)"
    by (simp add: entitled_def clients_on_disk_def policy_on_disk_def sample_gateway_world_def
        clients_check_def policy_check_def)
  from unentitled_request_is_inert [OF this] show ?thesis by blast
qed

text \<open>
  Claim C23. Revoking a client removes its grants before its credential: however the operation ends,
  either the credential file is as before and the policy too, or the policy a later process opens
  has no grant for the client; after Ok neither file knows the client.
\<close>

theorem revoke_client_grants_first:
  assumes "codec_ok (policy_json sv)" "codec_ok (client_json sv)"
    and "revoke_client_for_owner sv gw c w = (r, w')"
  shows "(without_client c (policy_on_disk (policy_json sv) (policy_root gw) w')
      \<or> (policy_on_disk (policy_json sv) (policy_root gw) w' = policy_on_disk (policy_json sv) (policy_root gw) w
         \<and> clients_on_disk (client_json sv) (credentials_root gw) w'
             = clients_on_disk (client_json sv) (credentials_root gw) w))
    \<and> (r = Done () \<longrightarrow> without_client c (policy_on_disk (policy_json sv) (policy_root gw) w')
         \<and> (\<exists>rows. clients_on_disk (client_json sv) (credentials_root gw) w' = Some rows
              \<and> c \<notin> row_id ` set rows))"
    (is "(?out w' \<or> ?same w w') \<and> (r = Done () \<longrightarrow> ?out w' \<and> ?gone w')")
  using assms(3) unfolding revoke_client_for_owner_def
proof (cases rule: io_bind_cases)
  case (Done cr w1)
  note same1 = credentials_open_policy [OF Done(1)] credentials_open_clients [OF Done(1)]
  note cr = credentials_open_Done(1,3) [OF Done(1)]
  from Done(2) show ?thesis
  proof (cases rule: io_bind_cases)
    case (Done st w2)
    note same2 = policy_open_policy [OF Done(1)] policy_open_clients [OF Done(1)]
    note ok = policy_open_store_ok [OF Done(1)]
    from Done(2) show ?thesis
    proof (cases rule: io_bind_cases)
      case (Done u w3)
      have out: "?out w3" using store_revoke_client_run(2) [OF Done(1) ok assms(1)] by blast
      obtain x where x: "credentials_revoke (client_json sv) cr c w3 = (x, w')" "r = Done () \<Longrightarrow> \<exists>s. x = Done s"
        using Done(2) by (auto elim!: io_bind_cases)
      note cv = credentials_revoke_run [OF x(1) cr assms(2)]
      have "?out w'" using out keeps_file [OF cv(1)] by (simp add: policy_on_disk_def)
      moreover have "?gone w'" if "r = Done ()" using x(2) [OF that] cv(2) by fastforce
      ultimately show ?thesis by blast
    next
      case (Failed e)
      then show ?thesis using revoke_stopped [OF Failed(1) ok assms(1)] same1 same2 by auto
    next
      case Crashed
      then show ?thesis using revoke_stopped [OF Crashed(1) ok assms(1)] same1 same2 by auto
    qed
  next
    case (Failed e)
    then show ?thesis using same1 policy_open_policy [OF Failed(1)] policy_open_clients [OF Failed(1)] by simp
  next
    case Crashed
    then show ?thesis using same1 policy_open_policy [OF Crashed(1)] policy_open_clients [OF Crashed(1)] by simp
  qed
next
  case (Failed e)
  then show ?thesis
    using credentials_open_policy [OF Failed(1)] credentials_open_clients [OF Failed(1)] by simp
next
  case Crashed
  then show ?thesis
    using credentials_open_policy [OF Crashed(1)] credentials_open_clients [OF Crashed(1)] by simp
qed

theorem revoke_client_grants_first_witness:
  "let w' = snd (revoke_client_for_owner sample_services sample_gateway ''c''
               (sample_gateway_world [policy_path [] \<mapsto> ''0'', clients_path [] \<mapsto> ''4'']))
   in without_client ''c'' (policy_on_disk (policy_json sample_services) [] w')
      \<and> (\<exists>rows. clients_on_disk (client_json sample_services) [] w' = Some rows \<and> ''c'' \<notin> row_id ` set rows)"
proof -
  let ?w = "sample_gateway_world [policy_path [] \<mapsto> ''0'', clients_path [] \<mapsto> ''4'']"
  have "fst (revoke_client_for_owner sample_services sample_gateway ''c'' ?w) = Done ()" by code_simp
  then have "revoke_client_for_owner sample_services sample_gateway ''c'' ?w
      = (Done (), snd (revoke_client_for_owner sample_services sample_gateway ''c'' ?w))"
    by (metis prod.collapse)
  from revoke_client_grants_first [OF sample_services_ok(1,2) this]
  show ?thesis by (simp add: Let_def sample_gateway_def)
qed

text \<open>
  Enrolment starts from nothing: when \<^verbatim>\<open>enroll_client_for_owner\<close> returns a secret, no grant
  on disk names the client, the credential file gained exactly the hash of the secret under the new
  identifier, and presenting the secret is verified as this client and refused under any other
  claimed identifier.
\<close>

theorem enrolled_client_has_no_grants:
  assumes "codec_ok (policy_json sv)" "codec_ok (client_json sv)" "\<And>x. length (sha sv x) = 32"
    and "enroll_client_for_owner sv gw c w = (Done secret, w')"
  shows "without_client c (policy_on_disk (policy_json sv) (policy_root gw) w')
    \<and> (\<exists>rows. clients_on_disk (client_json sv) (credentials_root gw) w = Some rows \<and> c \<notin> row_id ` set rows
        \<and> clients_on_disk (client_json sv) (credentials_root gw) w'
            = Some (rows @ [\<lparr>row_id = c, sha256_hex = hash_secret (sha sv) secret\<rparr>])
        \<and> (\<forall>p claim. verify (sha sv) \<lparr>cs_path = p,
               clients = rows @ [\<lparr>row_id = c, sha256_hex = hash_secret (sha sv) secret\<rparr>]\<rparr> secret claim
             = (if claim \<in> {None, Some c} then Ok c else Err credentials_forbidden)))"
proof -
  obtain cr w1 st w2 u w3 st' where o: "credentials_open (client_json sv) (credentials_root gw) w = (Done cr, w1)"
    and h: "\<not> has_client cr c" and po: "policy_open (policy_json sv) (policy_root gw) w1 = (Done st, w2)"
    and rv: "once (store_revoke_client (policy_json sv) st c) w2 = (Done u, w3)"
    and en: "enroll (client_json sv) (sha sv) cr c w3 = (Done (secret, st'), w')"
    using assms(4) unfolding enroll_client_for_owner_def io_done
    by (auto split: prod.splits)
  note cr = credentials_open_Done [OF o]
  obtain random w4 where rnd: "random_bytes 32 w3 = (Done (Some random) :: (app_error, char list option) run, w4)"
    and st': "clients st' = clients cr @ [\<lparr>row_id = c, sha256_hex = hash_secret (sha sv) secret\<rparr>]"
    and sv: "credentials_save (client_json sv) (cs_path cr) (clients st') w4 = (Done (), w')"
    using enroll_Done(3) [OF en] by auto
  note ok = enroll_rows_ok [OF en cr(3) assms(3)]
  have "policy_on_disk (policy_json sv) (policy_root gw) w' = policy_on_disk (policy_json sv) (policy_root gw) w3"
    using keeps_file [OF credentials_save_keeps [OF sv [unfolded cr(1)]], of "policy_path (policy_root gw)"] rnd
    by (auto simp: policy_on_disk_def random_bytes_def split: if_splits)
  then have "without_client c (policy_on_disk (policy_json sv) (policy_root gw) w')"
    using store_revoke_client_run(2) [OF rv policy_open_store_ok [OF po] assms(1)] by simp
  moreover have "c \<notin> row_id ` set (clients cr)" using h by (auto simp: has_client_def list_ex_iff)
  moreover have "clients_on_disk (client_json sv) (credentials_root gw) w' = Some (clients st')"
    using credentials_save_on_disk [OF assms(2) ok(1) sv [unfolded cr(1)]] .
  moreover have "verify (sha sv) \<lparr>cs_path = p, clients = clients st'\<rparr> secret claim
      = (if claim \<in> {None, Some c} then Ok c else Err credentials_forbidden)" for p claim
    using ok(3) [of claim] verify_clients [of "\<lparr>cs_path = p, clients = clients st'\<rparr>" st'] by simp
  ultimately show ?thesis using cr(2) unfolding st' by blast
qed

theorem enrolled_client_has_no_grants_witness:
  "let w' = snd (enroll_client_for_owner sample_services sample_gateway ''c''
               (sample_gateway_world [policy_path [] \<mapsto> ''0'', clients_path [] \<mapsto> ''5'']))
   in without_client ''c'' (policy_on_disk (policy_json sample_services) [] w')"
proof -
  let ?w = "sample_gateway_world [policy_path [] \<mapsto> ''0'', clients_path [] \<mapsto> ''5'']"
  have "fst (enroll_client_for_owner sample_services sample_gateway ''c'' ?w)
      = Done (hex_bytes (replicate 32 (CHR 0x01)))" by code_simp
  then have "enroll_client_for_owner sample_services sample_gateway ''c'' ?w
      = (Done (hex_bytes (replicate 32 (CHR 0x01))), snd (enroll_client_for_owner sample_services sample_gateway ''c'' ?w))"
    by (metis prod.collapse)
  from enrolled_client_has_no_grants [OF sample_services_ok this]
  show ?thesis by (simp add: Let_def sample_gateway_def)
qed

text \<open>
  A status grant is bounded and exact: \<^verbatim>\<open>grant_status_for_owner\<close> returns Ok only for an
  enrolled client and an installed app, with an expiry between one hour and thirty days after now,
  without wrap-around, and then the policy file holds exactly the status permission under that key.
\<close>

theorem status_grant_exact:
  assumes "codec_ok (policy_json sv)"
    and "grant_status_for_owner_with sv gw c a hours now load w = (Done e, w')"
  shows "unat e = unat now + 3600 * unat hours \<and> 1 \<le> unat hours \<and> unat hours \<le> 720
    \<and> (\<exists>rows. clients_on_disk (client_json sv) (credentials_root gw) w = Some rows \<and> c \<in> row_id ` set rows)
    \<and> (\<exists>w1 w2 reg. load w1 = (Done reg, w2) \<and> a \<in> installed_app.app_id ` set (apps reg))
    \<and> (\<exists>p. policy_on_disk (policy_json sv) (policy_root gw) w' = Some p
       \<and> bt_get (grants p) (c, a) = Some \<lparr>client_id = c, app_id = a, actions = {Status}, expires_at_unix = e\<rparr>)"
proof -
  have most: "unat MAX_STATUS_GRANT_HOURS = 720" by (simp add: MAX_STATUS_GRANT_HOURS_def)
  obtain x where x: "grant_expiry MAX_STATUS_GRANT_HOURS hours now ''Status grant must last 1 to 720 hours.''
       ''Status grant expiry is out of range.'' = Ok x"
    and g: "grant_installed sv gw c a {Status} x load w = (Done e, w')"
    using assms(2) unfolding grant_status_for_owner_with_def io_done by blast
  note gi = grant_installed_Done [OF g assms(1)]
  have e: "e = x" by (rule gi(1))
  show ?thesis using grant_expiry_Ok [OF x] gi(2-4) unfolding most e by blast
qed

theorem status_grant_exact_witness:
  "\<exists>p. policy_on_disk (policy_json sample_services) []
     (snd (grant_status_for_owner_with sample_services sample_gateway ''c'' ''a'' 1 7
       (io_return (registry_new [sample_app ''a'']))
       (sample_gateway_world [policy_path [] \<mapsto> ''2'', clients_path [] \<mapsto> ''4'']))) = Some p
   \<and> bt_get (grants p) (''c'', ''a'') = Some \<lparr>client_id = ''c'', app_id = ''a'', actions = {Status}, expires_at_unix = 3607\<rparr>"
proof -
  let ?run = "grant_status_for_owner_with sample_services sample_gateway ''c'' ''a'' 1 7
       (io_return (registry_new [sample_app ''a''])) (sample_gateway_world [policy_path [] \<mapsto> ''2'', clients_path [] \<mapsto> ''4''])"
  have "fst ?run = Done 3607" by code_simp
  then have "?run = (Done 3607, snd ?run)" by (metis prod.collapse)
  from status_grant_exact [OF sample_services_ok(1) this] show ?thesis
    by (simp add: sample_gateway_def)
qed

end
