(* ===== verification/Folders.thy ===== *)
theory Folders
  imports Paths Prelude
begin

text \<open>
  Folders a person shares with an app, \<^verbatim>\<open>src/folders.rs\<close>, in the build for Unix. Resolving symbolic
  links and asking whether a path is a directory are questions to the operating system:
  \<open>canonicalize\<close> and \<open>is_dir\<close> are parameters.
\<close>

section \<open>Definitions\<close>

record shared_folder =
  folder :: path
  read_only :: bool

definition SYSTEM_ROOTS :: "string list" where
  "SYSTEM_ROOTS = [''etc'', ''usr'', ''bin'', ''sbin'', ''lib'', ''lib64'', ''boot'', ''dev'', ''proc'', ''sys'',
     ''var'', ''run'']"

definition verbatim :: string where
  "verbatim = [backslash, backslash, CHR ''?'', backslash]"

text \<open>A verbatim prefix before a drive letter leaves that drive; before anything else what follows is
  read as a relative path.\<close>

definition docker_path :: "path \<Rightarrow> path" where
  "docker_path p =
     (case p of
        Prefix s # rest \<Rightarrow>
          (case strip_prefix verbatim s of
             None \<Rightarrow> p
           | Some plain \<Rightarrow>
               if length plain = 2 \<and> is_alpha (hd plain) \<and> plain ! 1 = CHR '':'' then Prefix plain # rest
               else map Normal (split_char backslash plain) @ filter (\<lambda>c. c \<noteq> RootDir) rest)
      | _ \<Rightarrow> p)"

definition normal_parts :: "path \<Rightarrow> string list" where
  "normal_parts p = List.map_filter (\<lambda>c. case c of Normal n \<Rightarrow> Some n | _ \<Rightarrow> None) p"

definition share_folder ::
  "(path \<Rightarrow> path option) \<Rightarrow> (path \<Rightarrow> bool) \<Rightarrow> path option \<Rightarrow> string \<Rightarrow> bool \<Rightarrow> path
   \<Rightarrow> (string, shared_folder) result" where
  "share_folder canonicalize is_dir home answer ro managed_root =
     (let trimmed = trim answer
      in if trimmed = [] then Err ''Choose a folder to share with this app.''
         else if has_control trimmed \<or> dquote \<in> set trimmed \<or> squote \<in> set trimmed
         then Err ''That folder name contains characters that are not allowed.''
         else if \<not> is_absolute (parse_path trimmed)
         then Err ''Enter the full path to the folder, starting from the drive or root.''
         else (case canonicalize (parse_path trimmed) of
            None \<Rightarrow> Err ''That folder does not exist. Create it first, then choose it.''
          | Some p \<Rightarrow>
              if \<not> is_dir p then Err ''That is a file. Choose a folder instead.''
              else if normal_parts p = [] then Err ''Choose a folder inside a drive, not the whole drive.''
              else if list_ex (\<lambda>s. lowercase (hd (normal_parts p)) = lowercase s) SYSTEM_ROOTS
              then Err ''That folder belongs to the operating system and cannot be shared.''
              else if (case home of None \<Rightarrow> False | Some h \<Rightarrow> canonicalize h = Some p)
              then Err ''That is your whole home folder. Choose a folder inside it instead.''
              else if (case canonicalize managed_root of
                         None \<Rightarrow> False
                       | Some m \<Rightarrow> p = m \<or> path_starts_with p m \<or> path_starts_with m p)
              then Err ''That folder holds Local Store's own records. Choose one of your own folders.''
              else Ok \<lparr>folder = docker_path p, read_only = ro\<rparr>))"

section \<open>Properties\<close>

lemma disjoint_trees:
  assumes "\<not> path_starts_with p m" "\<not> path_starts_with m p"
  shows "\<not> (path_starts_with q p \<and> path_starts_with q m)"
proof
  assume "path_starts_with q p \<and> path_starts_with q m"
  then have t: "take (length p) q = p" "take (length m) q = m" by (simp_all add: path_starts_with_def)
  have "path_starts_with p m" if "length m \<le> length p"
    using t that by (metis path_starts_with_def take_take min.absorb1)
  moreover have "path_starts_with m p" if "length p \<le> length m"
    using t that by (metis path_starts_with_def take_take min.absorb1)
  ultimately show False using assms by linarith
qed

lemma share_folder_Ok:
  assumes "share_folder canonicalize is_dir home answer ro managed = Ok f"
  obtains p where "canonicalize (parse_path (trim answer)) = Some p" "is_dir p" "normal_parts p \<noteq> []"
    "\<forall>s \<in> set SYSTEM_ROOTS. lowercase (hd (normal_parts p)) \<noteq> lowercase s"
    "\<forall>h. home = Some h \<longrightarrow> canonicalize h \<noteq> Some p"
    "\<forall>m. canonicalize managed = Some m \<longrightarrow> \<not> path_starts_with p m \<and> \<not> path_starts_with m p"
    "f = \<lparr>folder = docker_path p, read_only = ro\<rparr>"
  using assms unfolding share_folder_def Let_def list_ex_iff
  by (auto split: if_splits option.splits)



end
