(* ===== verification/Secrets.thy ===== *)
theory Secrets
  imports World Decimal
begin

text \<open>
  Generated credentials, the second half of \<^verbatim>\<open>src/setup.rs\<close>: their formats, their generation from the
  system random source, the check of a stored one, and the proof attempt that every generated value
  satisfies a validation rule written for typed ones.
\<close>

section \<open>Formats\<close>

datatype secret_format = Alphanumeric | Hex | Base64

record secret_spec =
  secret_key :: string
  secret_length :: nat
  secret_format :: secret_format

datatype secret_fault = Secret_length | No_random_source

definition upper_letters :: string where "upper_letters = ''ABCDEFGHIJKLMNOPQRSTUVWXYZ''"
definition lower_letters :: string where "lower_letters = ''abcdefghijklmnopqrstuvwxyz''"

definition SECRET_ALPHABET :: string where
  "SECRET_ALPHABET = upper_letters @ lower_letters @ ''0123456789''"

definition UNBIASED_LIMIT :: nat where "UNBIASED_LIMIT = 248"

definition base64_table :: string where
  "base64_table = upper_letters @ lower_letters @ ''0123456789+/''"

definition alphabet :: "secret_format \<Rightarrow> string" where
  "alphabet f =
     (case f of
        Alphanumeric \<Rightarrow> SECRET_ALPHABET
      | Hex \<Rightarrow> ''0123456789abcdef''
      | Base64 \<Rightarrow> upper_letters @ lower_letters @ ''0123456789+/='')"

definition div_ceil :: "nat \<Rightarrow> nat \<Rightarrow> nat" where
  "div_ceil n k = (n + k - 1) div k"

definition output_len :: "secret_spec \<Rightarrow> nat" where
  "output_len s =
     (case secret_format s of
        Base64 \<Rightarrow> 4 * div_ceil (secret_length s) 3
      | _ \<Rightarrow> secret_length s)"

definition format_byte :: "secret_format \<Rightarrow> char \<Rightarrow> bool" where
  "format_byte f b =
     (case f of
        Alphanumeric \<Rightarrow> is_alnum b
      | Hex \<Rightarrow> is_digit b \<or> (97 \<le> code b \<and> code b \<le> 102)
      | Base64 \<Rightarrow> is_alnum b \<or> b \<in> {CHR ''+'', CHR ''/'', CHR ''=''})"

definition accepts :: "secret_spec \<Rightarrow> string \<Rightarrow> bool" where
  "accepts s v = (length v = output_len s \<and> list_all (format_byte (secret_format s)) v)"

section \<open>Base 64\<close>

definition sextet :: "nat \<Rightarrow> nat \<Rightarrow> char" where
  "sextet n shift = base64_table ! (n div 2 ^ shift mod 64)"

definition encode_chunk :: "char list \<Rightarrow> string" where
  "encode_chunk chunk =
     (let at = (\<lambda>i. if i < length chunk then code (chunk ! i) else 0);
          n = at 0 * 65536 + at 1 * 256 + at 2
      in map (\<lambda>(index, shift). if index \<le> length chunk then sextet n shift else CHR ''='')
           [(0, 18), (1, 12), (2, 6), (3, 0)])"

fun chunks3 :: "char list \<Rightarrow> char list list" where
  "chunks3 (a # b # c # rest) = [a, b, c] # chunks3 rest"
| "chunks3 [] = []"
| "chunks3 short = [short]"

definition base64_encode :: "char list \<Rightarrow> string" where
  "base64_encode bytes = concat (map encode_chunk (chunks3 bytes))"

section \<open>Generation\<close>

fun take_bytes :: "nat \<Rightarrow> string \<Rightarrow> nat \<Rightarrow> string \<Rightarrow> char list \<Rightarrow> string" where
  "take_bytes limit alph len secret [] = secret"
| "take_bytes limit alph len secret (byte # buffer) =
     (if length secret = len then secret
      else take_bytes limit alph len
             (if code byte < limit then secret @ [alph ! (code byte mod length alph)] else secret) buffer)"

text \<open>Each round takes 64 bytes from the random source, which ends the loop when it is exhausted.\<close>

function fill_secret :: "nat \<Rightarrow> string \<Rightarrow> nat \<Rightarrow> string \<Rightarrow> (secret_fault, string) prog" where
  "fill_secret limit alph len secret w =
     (if length secret < len
      then (case random_bytes 64 w :: (secret_fault, char list option) run \<times> world of
              (Done (Some buffer), w1) \<Rightarrow> fill_secret limit alph len (take_bytes limit alph len secret buffer) w1
            | (_, w1) \<Rightarrow> (Failed No_random_source, w1))
      else (Done secret, w))"
  by pat_completeness auto
termination
  by (relation "measure (\<lambda>(limit, alph, len, secret, w). length (entropy w))")
     (auto simp: random_bytes_def split: if_splits)

declare fill_secret.simps [simp del]

definition sample_limit :: "secret_format \<Rightarrow> nat" where
  "sample_limit f = (case f of Alphanumeric \<Rightarrow> UNBIASED_LIMIT | _ \<Rightarrow> 256)"

definition generate_secret_with_format :: "nat \<Rightarrow> secret_format \<Rightarrow> (secret_fault, string) prog" where
  "generate_secret_with_format len f =
     (if \<not> (16 \<le> len \<and> len \<le> 256) then io_fail Secret_length
      else (case f of
         Base64 \<Rightarrow>
           io_bind (random_bytes len) (\<lambda>r.
             (case r of None \<Rightarrow> io_fail No_random_source | Some bytes \<Rightarrow> io_return (base64_encode bytes)))
       | _ \<Rightarrow> fill_secret (sample_limit f) (alphabet f) len []))"

definition generate_secret :: "nat \<Rightarrow> (secret_fault, string) prog" where
  "generate_secret len = generate_secret_with_format len Alphanumeric"

definition generate :: "secret_spec \<Rightarrow> (secret_fault, string) prog" where
  "generate s = generate_secret_with_format (secret_length s) (secret_format s)"

section \<open>Validation rules\<close>

definition escape_contains :: "char \<Rightarrow> char \<Rightarrow> bool option" where
  "escape_contains cls b =
     (if cls = CHR ''d'' then Some (is_digit b)
      else if cls = CHR ''w'' then Some (is_alnum b \<or> b = CHR ''_'')
      else if cls = CHR ''s'' then Some (is_ascii_ws b)
      else None)"

function set_contains :: "string \<Rightarrow> char \<Rightarrow> bool \<Rightarrow> bool option" where
  "set_contains body b found =
     (case body of
        [] \<Rightarrow> Some found
      | c # rest \<Rightarrow>
          if c = backslash then
            (case rest of
               [] \<Rightarrow> None
             | e # rest \<Rightarrow>
                 (case escape_contains e b of
                    Some inside \<Rightarrow> set_contains rest b (found \<or> inside)
                  | None \<Rightarrow> if \<not> is_alnum e then set_contains rest b (found \<or> e = b) else None))
          else if 2 \<le> length rest \<and> rest ! 0 = CHR ''-'' \<and> rest ! 1 \<noteq> backslash then
            (if code (rest ! 1) < code c then None
             else set_contains (drop 2 rest) b (found \<or> (code c \<le> code b \<and> code b \<le> code (rest ! 1))))
          else set_contains rest b (found \<or> c = b))"
  by pat_completeness auto
termination by (relation "measure (\<lambda>(body, _, _). length body)") auto

declare set_contains.simps [simp del]

fun class_loop :: "string \<Rightarrow> bool \<Rightarrow> string \<Rightarrow> bool option" where
  "class_loop body negated [] = Some True"
| "class_loop body negated (b # bs) =
     (case set_contains body b False of
        None \<Rightarrow> None
      | Some present \<Rightarrow> if present = negated then Some False else class_loop body negated bs)"

fun escape_loop :: "char \<Rightarrow> bool \<Rightarrow> string \<Rightarrow> bool option" where
  "escape_loop cls acc [] = Some acc"
| "escape_loop cls acc (b # bs) =
     (if \<not> acc then escape_loop cls False bs
      else (case escape_contains cls b of None \<Rightarrow> None | Some inside \<Rightarrow> escape_loop cls inside bs))"

definition between :: "string \<Rightarrow> string \<Rightarrow> string \<Rightarrow> string option" where
  "between a z s = Option.bind (strip_prefix a s) (strip_suffix z)"

lemma split_char_length: "w \<in> set (split_char c s) \<Longrightarrow> length w \<le> length s"
proof (induction s arbitrary: w)
  case (Cons d s)
  then show ?case by (cases "split_char c s") (fastforce split: if_splits)+
qed simp

lemma between_length: "between a z s = Some t \<Longrightarrow> length s = length a + length t + length z"
  by (auto simp: between_def bind_eq_Some_conv strip_prefix_Some_iff strip_suffix_Some_iff)

function class_accepts_all :: "string \<Rightarrow> string \<Rightarrow> bool option" where
  "class_accepts_all alph atom =
     (if atom = ''.'' then Some True
      else (case between ''('' '')'' atom of
         Some inner \<Rightarrow>
           (let rs = map (class_accepts_all alph) (split_char (CHR ''|'') inner)
            in if Some True \<in> set rs then Some True else if Some False \<in> set rs then Some False else None)
       | None \<Rightarrow>
           (case between ''['' '']'' atom of
              Some body \<Rightarrow>
                (case strip_prefix ''^'' body of
                   Some rest \<Rightarrow> class_loop rest True alph
                 | None \<Rightarrow> class_loop body False alph)
            | None \<Rightarrow>
                if length atom = 2 \<and> hd atom = backslash then escape_loop (atom ! 1) True alph
                else None)))"
  by pat_completeness auto
termination
  by (relation "measure (\<lambda>(_, atom). length atom)")
     (auto dest!: between_length dest: split_char_length intro: le_less_trans)

declare class_accepts_all.simps [simp del]

definition parse_usize :: "string \<Rightarrow> nat option" where
  "parse_usize s = parse_unsigned (2 ^ 64) s"

lemma parse_usize_code [code]:
  "parse_usize s =
     (let d = (case s of c # cs \<Rightarrow> if c = CHR ''+'' then cs else s | [] \<Rightarrow> []); v = digits_int 0 d
      in if d \<noteq> [] \<and> list_all is_digit d \<and> v < 18446744073709551616 then Some (nat v) else None)"
proof -
  have "n < 2 ^ 64 \<longleftrightarrow> int n < 18446744073709551616" for n :: nat by simp
  then show ?thesis
    unfolding parse_usize_def parse_unsigned_def Let_def digits_int_0 [symmetric] by (simp only: nat_int)
qed

definition split_quantifier :: "string \<Rightarrow> (string \<times> nat \<times> nat option) option" where
  "split_quantifier body =
     (case strip_suffix ''+'' body of
        Some atom \<Rightarrow> Some (atom, 1, None)
      | None \<Rightarrow> (case strip_suffix ''*'' body of
          Some atom \<Rightarrow> Some (atom, 0, None)
        | None \<Rightarrow> (case strip_suffix ''?'' body of
            Some atom \<Rightarrow> Some (atom, 0, Some 1)
          | None \<Rightarrow> (case strip_suffix ''}'' body of
              None \<Rightarrow> Some (body, 1, Some 1)
            | Some rest \<Rightarrow>
                Option.bind (rfind_char (CHR ''{'') rest) (\<lambda>open.
                  (let atom = take open rest; counts = drop (Suc open) rest
                   in Option.bind
                        (case split_once '','' counts of
                           None \<Rightarrow> map_option (\<lambda>n. (n, Some n)) (parse_usize counts)
                         | Some (low, high) \<Rightarrow>
                             Option.bind (parse_usize low) (\<lambda>l.
                               if high = [] then Some (l, None)
                               else map_option (\<lambda>h. (l, Some h)) (parse_usize high)))
                        (\<lambda>(low, high).
                           if (case high of None \<Rightarrow> False | Some h \<Rightarrow> h < low) then None
                           else Some (atom, low, high))))))))"

definition every_value_matches :: "secret_spec \<Rightarrow> string \<Rightarrow> bool" where
  "every_value_matches s pattern =
     (let anchored_start = starts_with ''^'' pattern;
          body = (case strip_prefix ''^'' pattern of Some t \<Rightarrow> t | None \<Rightarrow> pattern);
          anchored_end = ends_with ''$'' body \<and> \<not> ends_with [backslash, CHR ''$''] body;
          body = (if anchored_end then butlast body else body)
      in case split_quantifier body of
           None \<Rightarrow> False
         | Some (atom, low, high) \<Rightarrow>
             class_accepts_all (alphabet (secret_format s)) atom = Some True
             \<and> low \<le> output_len s
             \<and> \<not> (anchored_start \<and> anchored_end
                   \<and> (case high of None \<Rightarrow> False | Some h \<Rightarrow> h < output_len s)))"

section \<open>Base 64 reads back\<close>

text \<open>A reader of padded base 64, the reference the encoder is compared with.\<close>

fun table_index :: "char \<Rightarrow> string \<Rightarrow> nat" where
  "table_index c [] = 0"
| "table_index c (d # ds) = (if c = d then 0 else Suc (table_index c ds))"

definition sextet_value :: "char \<Rightarrow> nat" where
  "sextet_value c = (if c = CHR ''='' then 0 else table_index c base64_table)"

definition decode_quad :: "char \<Rightarrow> char \<Rightarrow> char \<Rightarrow> char \<Rightarrow> char list" where
  "decode_quad a b c d =
     (let n = ((sextet_value a * 64 + sextet_value b) * 64 + sextet_value c) * 64 + sextet_value d
      in take (if c = CHR ''='' then 1 else if d = CHR ''='' then 2 else 3)
           [char_of (n div 65536), char_of (n div 256 mod 256), char_of (n mod 256)])"

fun base64_decode :: "string \<Rightarrow> char list" where
  "base64_decode (a # b # c # d # rest) = decode_quad a b c d @ base64_decode rest"
| "base64_decode _ = []"

lemma table_index_nth: "distinct xs \<Longrightarrow> i < length xs \<Longrightarrow> table_index (xs ! i) xs = i"
  by (induction xs arbitrary: i) (auto simp: nth_Cons nth_mem split: nat.splits)

lemma base64_table_facts:
  "length base64_table = 64" "distinct base64_table" "CHR ''='' \<notin> set base64_table"
  by code_simp+

lemma sextet_value [simp]: "sextet_value (sextet n k) = n div 2 ^ k mod 64"
  and sextet_not_pad [simp]: "sextet n k \<noteq> CHR ''=''"
proof -
  have "n div 2 ^ k mod 64 < length base64_table" by (simp add: base64_table_facts)
  then have "sextet n k \<in> set base64_table" "table_index (sextet n k) base64_table = n div 2 ^ k mod 64"
    using table_index_nth [OF base64_table_facts(2)] by (auto simp: sextet_def)
  then show "sextet n k \<noteq> CHR ''=''" "sextet_value (sextet n k) = n div 2 ^ k mod 64"
    using base64_table_facts(3) by (auto simp: sextet_value_def)
qed

lemma sextets_join:
  fixes n :: nat
  assumes "n < 16777216"
  shows "((n div 2 ^ 18 mod 64 * 64 + n div 2 ^ 12 mod 64) * 64 + n div 2 ^ 6 mod 64) * 64 + n div 2 ^ 0 mod 64 = n"
proof -
  have "n div 4096 = n div 64 div 64" "n div 262144 = n div 64 div 64 div 64" by (simp_all flip: div_mult2_eq)
  moreover have "n div 64 div 64 div 64 < 64" using assms by (simp flip: div_mult2_eq)
  ultimately show ?thesis by simp
qed

lemma three_bytes:
  assumes "x < 256" "y < 256" "z < (256 :: nat)"
  shows "x * 65536 + y * 256 + z < 16777216" "(x * 65536 + y * 256 + z) div 65536 = x"
    "(x * 65536 + y * 256 + z) div 256 mod 256 = y" "(x * 65536 + y * 256 + z) mod 256 = z"
proof -
  have n: "x * 65536 + y * 256 + z = (x * 256 + y) * 256 + z" by simp
  show "(x * 65536 + y * 256 + z) mod 256 = z" using assms(3) unfolding n by (simp only: mod_mult_self3 mod_less)
  have q: "(x * 65536 + y * 256 + z) div 256 = x * 256 + y"
    using assms(3) unfolding n by (simp only: div_mult_self3 div_less)
  then show "(x * 65536 + y * 256 + z) div 256 mod 256 = y" using assms(2) by simp
  have "(x * 65536 + y * 256 + z) div 65536 = (x * 65536 + y * 256 + z) div 256 div 256"
    by (simp flip: div_mult2_eq)
  then show "(x * 65536 + y * 256 + z) div 65536 = x" using assms(2) q by simp
  show "x * 65536 + y * 256 + z < 16777216" using assms by simp
qed

lemma decode_quad_of_bytes:
  assumes "x < 256" "y < 256" "z < 256" "n = x * 65536 + y * 256 + z"
  shows "decode_quad (sextet n 18) (sextet n 12) (sextet n 6) (sextet n 0) = [char_of x, char_of y, char_of z]"
    "z = 0 \<Longrightarrow> decode_quad (sextet n 18) (sextet n 12) (sextet n 6) (CHR ''='') = [char_of x, char_of y]"
    "y = 0 \<Longrightarrow> z = 0 \<Longrightarrow> decode_quad (sextet n 18) (sextet n 12) (CHR ''='') (CHR ''='') = [char_of x]"
proof -
  note bytes = three_bytes [OF assms(1,2,3), folded assms(4)]
  have join: "((sextet_value (sextet n 18) * 64 + sextet_value (sextet n 12)) * 64 + sextet_value (sextet n 6)) * 64
      + sextet_value (sextet n 0) = n"
    unfolding sextet_value by (rule sextets_join [OF bytes(1)])
  have pad: "sextet_value (CHR ''='') = 0" by (simp add: sextet_value_def)
  have quad: "decode_quad a b c d = take (if c = CHR ''='' then 1 else if d = CHR ''='' then 2 else 3)
      [char_of x, char_of y, char_of z]"
    if "((sextet_value a * 64 + sextet_value b) * 64 + sextet_value c) * 64 + sextet_value d = n" for a b c d
    by (simp only: decode_quad_def that Let_def bytes)
  show "decode_quad (sextet n 18) (sextet n 12) (sextet n 6) (sextet n 0) = [char_of x, char_of y, char_of z]"
    by (subst quad [OF join]) simp
  show "decode_quad (sextet n 18) (sextet n 12) (sextet n 6) (CHR ''='') = [char_of x, char_of y]" if z: "z = 0"
  proof -
    have "n = 64 * (x * 1024 + y * 4)" using assms(4) z by simp
    then have "sextet_value (sextet n 0) = 0" by simp
    with join have "((sextet_value (sextet n 18) * 64 + sextet_value (sextet n 12)) * 64 + sextet_value (sextet n 6)) * 64
        + sextet_value (CHR ''='') = n" by (simp only: pad)
    from quad [OF this] show ?thesis by simp
  qed
  show "decode_quad (sextet n 18) (sextet n 12) (CHR ''='') (CHR ''='') = [char_of x]" if z: "y = 0" "z = 0"
  proof -
    have "n = 64 * (64 * (x * 16))" using assms(4) z by simp
    then have "sextet_value (sextet n 0) = 0" "sextet_value (sextet n 6) = 0" by simp_all
    with join have "((sextet_value (sextet n 18) * 64 + sextet_value (sextet n 12)) * 64 + sextet_value (CHR ''='')) * 64
        + sextet_value (CHR ''='') = n" by (simp only: pad)
    from quad [OF this] show ?thesis by simp
  qed
qed

lemma decode_chunk:
  "base64_decode (encode_chunk [a, b, c] @ rest) = a # b # c # base64_decode rest"
  "base64_decode (encode_chunk [a, b]) = [a, b]"
  "base64_decode (encode_chunk [a]) = [a]"
  using decode_quad_of_bytes [of "code a" "code b" "code c"] decode_quad_of_bytes [of "code a" "code b" 0]
    decode_quad_of_bytes [of "code a" 0 0]
  by (simp_all add: encode_chunk_def Let_def numeral_2_eq_2)

lemma base64_decode_encode: "base64_decode (base64_encode bytes) = bytes"
  by (induction bytes rule: chunks3.induct) (simp_all add: base64_encode_def decode_chunk)

lemma base64_length: "length (base64_encode bytes) = 4 * div_ceil (length bytes) 3"
proof (induction bytes rule: chunks3.induct)
  case (1 a b c rest)
  have "(length rest + 3 + 2) div 3 = Suc ((length rest + 2) div 3)" by simp
  then show ?case using 1 by (simp add: base64_encode_def encode_chunk_def Let_def div_ceil_def)
qed (simp_all add: base64_encode_def encode_chunk_def Let_def div_ceil_def)

section \<open>Generated values\<close>

lemma alphabet_format: "list_all (format_byte f) (alphabet f)"
  by (cases f) (simp_all, code_simp+)

lemma alphabet_length: "length (alphabet f) = (case f of Alphanumeric \<Rightarrow> 62 | Hex \<Rightarrow> 16 | Base64 \<Rightarrow> 65)"
  by (cases f) (simp_all add: alphabet_def SECRET_ALPHABET_def upper_letters_def lower_letters_def)

lemma take_bytes_format:
  assumes "list_all P alph" "alph \<noteq> []" "list_all P secret" "length secret \<le> len"
  shows "list_all P (take_bytes limit alph len secret buffer) \<and> length (take_bytes limit alph len secret buffer) \<le> len"
  using assms(3,4)
proof (induction buffer arbitrary: secret)
  case (Cons byte buffer)
  have "P (alph ! (code byte mod length alph))" using assms(1,2) by (auto simp: list_all_length)
  with Cons show ?case by auto
qed simp

lemma fill_secret_run:
  assumes "list_all P alph" "alph \<noteq> []" "list_all P secret" "length secret \<le> len"
  shows "case fill_secret limit alph len secret w of
      (Done v, w') \<Rightarrow> length v = len \<and> list_all P v
    | (Failed e, w') \<Rightarrow> e = No_random_source \<and> length (entropy w') < 64
    | (Crashed, w') \<Rightarrow> False"
  using assms
proof (induction limit alph len secret w rule: fill_secret.induct)
  case (1 limit alph len secret w)
  show ?case
  proof (cases "length secret < len")
    case True
    let ?w = "w\<lparr>entropy := drop 64 (entropy w)\<rparr>" and ?buffer = "take 64 (entropy w)"
    show ?thesis
    proof (cases "64 \<le> length (entropy w)")
      case enough: True
      have "case fill_secret limit alph len (take_bytes limit alph len secret ?buffer) ?w of
          (Done v, w') \<Rightarrow> length v = len \<and> list_all P v
        | (Failed e, w') \<Rightarrow> e = No_random_source \<and> length (entropy w') < 64
        | (Crashed, w') \<Rightarrow> False"
        by (rule "1.IH" [OF True]) (use enough take_bytes_format [OF "1.prems", of limit ?buffer] "1.prems"(1,2) in \<open>auto simp: random_bytes_def\<close>)
      then show ?thesis using True enough by (subst fill_secret.simps) (simp add: random_bytes_def)
    qed (use True in \<open>subst fill_secret.simps, simp add: random_bytes_def\<close>)
  qed (use 1 in \<open>subst fill_secret.simps, simp\<close>)
qed

lemma base64_chars: "list_all (format_byte Base64) (base64_encode bytes)"
proof -
  have t: "list_all (format_byte Base64) base64_table" "format_byte Base64 (CHR ''='')" by code_simp+
  have "format_byte Base64 (sextet n k)" for n k
    using t(1) by (simp add: sextet_def list_all_length base64_table_facts)
  then have "list_all (format_byte Base64) (encode_chunk c)" for c
    using t(2) by (simp add: encode_chunk_def Let_def)
  then show ?thesis by (auto simp: base64_encode_def list_all_iff)
qed

lemma generate_run:
  "case generate s w of
     (Done v, w') \<Rightarrow> secret_length s \<in> {16..256} \<and> accepts s v
   | (Failed Secret_length, w') \<Rightarrow> secret_length s \<notin> {16..256} \<and> w' = w
   | (Failed No_random_source, w') \<Rightarrow> secret_length s \<in> {16..256} \<and> length (entropy w') < max 64 (secret_length s)
   | (Crashed, w') \<Rightarrow> False"
proof (cases "secret_format s = Base64")
  case True
  then show ?thesis
    using base64_length base64_chars
    by (auto simp: generate_def generate_secret_with_format_def io_bind_def random_bytes_def accepts_def output_len_def)
next
  case False
  then have "alphabet (secret_format s) \<noteq> []" "output_len s = secret_length s"
    using alphabet_length [of "secret_format s"] by (auto simp: output_len_def split: secret_format.splits)
  then show ?thesis
    using False fill_secret_run [of "format_byte (secret_format s)" "alphabet (secret_format s)" "[]" "secret_length s"
        "sample_limit (secret_format s)" w]
    by (auto simp: generate_def generate_secret_with_format_def accepts_def alphabet_format
        split: secret_format.splits run.splits secret_fault.splits prod.splits)
qed


lemma residues_below:
  assumes "i < m"
  shows "length (filter (\<lambda>n. n mod m = i) [0 ..< k * m]) = k"
proof (induction k)
  case (Suc k)
  have "filter (\<lambda>n. n mod m = i) [0 ..< m] = filter (\<lambda>n. n = i) [0 ..< m]"
    by (rule filter_cong) auto
  also have "length \<dots> = 1" using assms by (induction m) (auto simp: less_Suc_eq filter_empty_conv)
  finally have block: "length (filter (\<lambda>n. n mod m = i) [0 ..< m]) = 1" .
  have "[0 ..< Suc k * m] = [0 ..< k * m] @ map (\<lambda>n. n + k * m) [0 ..< m]"
    using upt_add_eq_append [of 0 "k * m" m] by (simp add: map_add_upt add.commute)
  then show ?case using Suc block by (simp add: filter_map comp_def)
qed simp

definition all_bytes :: string where "all_bytes = map char_of [0 ..< (256 :: nat)]"

lemma preimages:
  assumes "distinct alph" "c \<in> set alph" "k * length alph \<le> 256"
  shows "length (filter (\<lambda>b. code b < k * length alph \<and> alph ! (code b mod length alph) = c) all_bytes) = k"
proof -
  obtain i where i: "i < length alph" "alph ! i = c" using assms(2) by (auto simp: in_set_conv_nth)
  have "(alph ! (n mod length alph) = c) = (n mod length alph = i)" for n
    using i nth_eq_iff_index_eq [OF assms(1), of "n mod length alph" i] by (cases "length alph") auto
  note same = this
  let ?P = "\<lambda>n. n < k * length alph \<and> n mod length alph = i"
  have "filter (\<lambda>b. code b < k * length alph \<and> alph ! (code b mod length alph) = c) all_bytes
      = map char_of (filter ?P [0 ..< 256])"
    unfolding all_bytes_def filter_map comp_def
    by (intro arg_cong [where f = "map char_of"] filter_cong) (auto simp: same)
  moreover have "filter ?P [0 ..< 256] = filter (\<lambda>n. n mod length alph = i) [0 ..< k * length alph]"
  proof -
    have "[0 ..< 256] = [0 ..< k * length alph] @ [k * length alph ..< 256]"
      using upt_add_eq_append [of 0 "k * length alph" "256 - k * length alph"] assms(3) by simp
    then show ?thesis by (auto simp: filter_empty_conv intro!: filter_cong)
  qed
  ultimately show ?thesis using residues_below [OF i(1), of k] by simp
qed

text \<open>Sampling is unbiased: whatever was drawn before, every character of the alphabet is appended by
  equally many of the 256 values of the next byte.\<close>

theorem secret_characters_equally_likely:
  assumes "f \<noteq> Base64" "c \<in> set (alphabet f)" "length secret < len"
  shows "length (filter (\<lambda>b. take_bytes (sample_limit f) (alphabet f) len secret [b] = secret @ [c]) all_bytes)
      = 256 div length (alphabet f)"
proof -
  have "distinct (alphabet f)" "sample_limit f = (256 div length (alphabet f)) * length (alphabet f)"
    using assms(1) by (cases f; simp add: alphabet_length sample_limit_def UNBIASED_LIMIT_def; code_simp)+
  moreover have "(256 div length (alphabet f)) * length (alphabet f) \<le> 256" by simp
  moreover have "(take_bytes (sample_limit f) (alphabet f) len secret [b] = secret @ [c])
      = (code b < sample_limit f \<and> alphabet f ! (code b mod length (alphabet f)) = c)" for b
    using assms(3) by simp
  ultimately show ?thesis
    using preimages [of "alphabet f" c "256 div length (alphabet f)"] assms(2) by simp
qed

theorem secret_characters_equally_likely_witness:
  "length (filter (\<lambda>b. take_bytes (sample_limit Hex) (alphabet Hex) 32 ''ab'' [b] = ''abf'') all_bytes) = 16"
  using secret_characters_equally_likely [of Hex "CHR ''f''" "''ab''" 32]
  by (simp add: alphabet_def)

section \<open>The rule check is not sound\<close>

text \<open>The check whether every generated value satisfies a rule says yes to a rule none of them satisfies:
  a rule of two classes is read as one, so a hexadecimal secret of 32 characters passes for
  \<^verbatim>\<open>^[0-9][0-9a-f]{32}$\<close>, which asks for 33.\<close>

theorem rule_check_not_sound:
  "every_value_matches \<lparr>secret_key = ''TOKEN'', secret_length = 32, secret_format = Hex\<rparr> ''^[0-9][0-9a-f]{32}$''
    \<and> {v. accepts \<lparr>secret_key = ''TOKEN'', secret_length = 32, secret_format = Hex\<rparr> v}
        \<inter> {c # cs | c cs. is_digit c \<and> length cs = 32 \<and> list_all (format_byte Hex) cs} = {}"
proof
  show "every_value_matches \<lparr>secret_key = ''TOKEN'', secret_length = 32, secret_format = Hex\<rparr> ''^[0-9][0-9a-f]{32}$''"
    by code_simp
qed (auto simp: accepts_def output_len_def)

end
