(* ===== verification/Setup.thy ===== *)
theory Setup
  imports Plan_Render Folders Secrets
begin

text \<open>
  Setup fields, templates and their resolution, the first half of \<^verbatim>\<open>src/setup.rs\<close>, and the projection
  of a template for the interface, \<^verbatim>\<open>src/setup/review.rs\<close>. The regular-expression engine and the
  questions \<^verbatim>\<open>share_folder\<close> asks the operating system are parameters, collected in \<open>setup_env\<close>.
\<close>

section \<open>Data\<close>

datatype field_kind =
    Text nat nat
  | Pattern string nat nat
  | Number int int
  | Boolean
  | Choice "string list"
  | Folder bool

record setup_field =
  field_key :: string
  field_label :: string
  field_kind :: field_kind
  field_required :: bool
  field_default :: "string option"
  field_sensitive :: bool

record seed_file =
  seed_path :: string
  seed_content :: string

record plan_template =
  template_plan :: deployment_plan
  template_fields :: "setup_field list"
  template_secrets :: "secret_spec list"
  template_seeds :: "seed_file list"
  first_start :: "nat option"

record field_error =
  error_key :: string
  error_message :: string

datatype seed_fault = TooManySeeds nat | SeedNotConfined string | SeedTooLarge string | SeedTwice string

datatype declare_fault =
    PatternBounds | PatternTooLong | PatternUnsupported | FieldKeyInvalid string | FieldReserved string
  | NoChoices string | DefaultInvalid string string | SecretLengthInvalid string | SecretKeyInvalid string
  | SecretReserved string | DeclaredTwice string

datatype use_fault =
    FolderUndeclared string | CommandPlaceholder string string | NoSuchCompanion string
  | NoSource string | Unused string

datatype setup_error =
    Seed seed_fault | Declare declare_fault | Usage use_fault | PlanRefused plan_error
  | AnswersRefused string | SecretMissing string | SecretMismatch string
  | ValueMissing string string | FolderMissing string

text \<open>What is outside the program: the \<^verbatim>\<open>regex\<close> crate within the limits the program sets (none for a
  pattern it refuses), the file system, and the folders of this computer.\<close>

record setup_env =
  regex_build :: "string \<Rightarrow> (string \<Rightarrow> bool) option"
  os_canonicalize :: "path \<Rightarrow> path option"
  os_is_dir :: "path \<Rightarrow> bool"
  home_folder :: "path option"
  records_root :: path

section \<open>Keys\<close>

definition is_key :: "string \<Rightarrow> bool" where
  "is_key v = (v \<noteq> [] \<and> list_all (\<lambda>c. is_upper c \<or> is_digit c \<or> c = CHR ''_'') v)"

definition PLATFORM_URL :: string where "PLATFORM_URL = ''LOCAL_STORE_URL''"
definition PLATFORM_HOST :: string where "PLATFORM_HOST = ''LOCAL_STORE_HOST''"
definition PLATFORM_PORT :: string where "PLATFORM_PORT = ''LOCAL_STORE_PORT''"

definition PLATFORM_KEYS :: "string list" where
  "PLATFORM_KEYS = [PLATFORM_URL, PLATFORM_HOST, PLATFORM_PORT]"

definition is_platform_key :: "string \<Rightarrow> bool" where
  "is_platform_key k = (k \<in> set PLATFORM_KEYS)"

definition COMPANION_URL :: string where "COMPANION_URL = ''LOCAL_STORE_URL_''"
definition COMPANION_PORT :: string where "COMPANION_PORT = ''LOCAL_STORE_PORT_''"

definition companion_service :: "string \<Rightarrow> string option" where
  "companion_service k =
     (case (case strip_prefix COMPANION_URL k of Some s \<Rightarrow> Some s | None \<Rightarrow> strip_prefix COMPANION_PORT k) of
        Some suffix \<Rightarrow> if suffix \<noteq> [] then Some suffix else None
      | None \<Rightarrow> None)"

definition companion_suffix :: "string \<Rightarrow> string" where
  "companion_suffix service = replace ''-'' ''_'' (uppercase service)"

definition is_reserved_key :: "string \<Rightarrow> bool" where
  "is_reserved_key k = (k \<in> set PLATFORM_KEYS \<or> companion_service k \<noteq> None)"

section \<open>Placeholders\<close>

record placeholder =
  hole_key :: string
  hole_default :: "string option"
  hole_start :: nat
  hole_stop :: nat

definition key_default :: "string \<Rightarrow> string \<times> string option" where
  "key_default inner =
     (case split_once '':-'' inner of Some (k, d) \<Rightarrow> (k, Some d) | None \<Rightarrow> (inner, None))"

definition slice :: "nat \<Rightarrow> nat \<Rightarrow> string \<Rightarrow> string" where
  "slice a b s = take (b - a) (drop a s)"

function placeholders_from :: "string \<Rightarrow> nat \<Rightarrow> placeholder list" where
  "placeholders_from v index =
     (case find_str ''${'' (drop index v) of
        None \<Rightarrow> []
      | Some start \<Rightarrow>
          (case find_str ''}'' (drop (index + start) v) of
             None \<Rightarrow> []
           | Some close \<Rightarrow>
               (let opens = index + start;
                    stop = opens + close + 1;
                    (k, d) = key_default (slice (opens + 2) (stop - 1) v);
                    rest = (if length v \<le> stop then [] else placeholders_from v stop)
                in if is_key k
                   then \<lparr>hole_key = k, hole_default = d, hole_start = opens, hole_stop = stop\<rparr> # rest
                   else rest)))"
  by pat_completeness auto
termination
  by (relation "measure (\<lambda>(v, index). length v - index)") auto

declare placeholders_from.simps [simp del]

definition placeholders :: "string \<Rightarrow> placeholder list" where
  "placeholders v = placeholders_from v 0"

text \<open>\<^verbatim>\<open>answers.get(key).or_else(|| secrets.get(key)).or(default)\<close>\<close>

definition source_of ::
  "(string, string) btree \<Rightarrow> (string, string) btree \<Rightarrow> string \<Rightarrow> string option \<Rightarrow> string option" where
  "source_of answers secrets k d =
     (case bt_get answers k of
        Some v \<Rightarrow> Some v
      | None \<Rightarrow> (case bt_get secrets k of Some v \<Rightarrow> Some v | None \<Rightarrow> d))"

fun substitute_loop ::
  "(string \<Rightarrow> string option \<Rightarrow> string option) \<Rightarrow> string \<Rightarrow> string \<Rightarrow> nat \<Rightarrow> placeholder list
   \<Rightarrow> (string, string) result" where
  "substitute_loop source v out cursor [] = Ok (out @ drop cursor v)"
| "substitute_loop source v out cursor (p # ps) =
     (case source (hole_key p) (hole_default p) of
        None \<Rightarrow> Err (hole_key p)
      | Some r \<Rightarrow> substitute_loop source v (out @ slice cursor (hole_start p) v @ r) (hole_stop p) ps)"

definition substitute ::
  "string \<Rightarrow> (string, string) btree \<Rightarrow> (string, string) btree \<Rightarrow> (string, string) result" where
  "substitute v answers secrets =
     (let found = placeholders v
      in if found = [] then Ok v
         else substitute_loop (source_of answers secrets) v [] 0 found)"

section \<open>The installer's own values\<close>

definition platform_values :: "deployment_plan \<Rightarrow> u16 \<Rightarrow> (string \<times> string) list" where
  "platform_values plan port =
     (let authority = ''localhost:'' @ show_nat (unat port)
      in [(PLATFORM_URL, ''http://'' @ authority), (PLATFORM_HOST, authority),
          (PLATFORM_PORT, show_nat (unat port))]
         @ concat (map (\<lambda>(s, q).
             [(COMPANION_URL @ companion_suffix (service_name s), ''http://localhost:'' @ show_nat (unat (host q))),
              (COMPANION_PORT @ companion_suffix (service_name s), show_nat (unat (host q)))]) (companions plan)))"

fun fill_value :: "(string \<times> string) list \<Rightarrow> string \<Rightarrow> string" where
  "fill_value [] v = v"
| "fill_value ((k, filled) # values) v =
     (let hole = ''${'' @ k @ ''}''
      in fill_value values (if contains hole v then replace hole filled v else v))"

definition fill_platform_values :: "deployment_plan \<Rightarrow> u16 \<Rightarrow> deployment_plan" where
  "fill_platform_values plan port =
     (let values = platform_values plan port
      in plan\<lparr>services :=
           map (\<lambda>s. s\<lparr>environment := map (\<lambda>(k, v). (k, fill_value values v)) (environment s)\<rparr>) (services plan)\<rparr>)"

section \<open>Answers\<close>

definition compile_setup_pattern :: "setup_env \<Rightarrow> string \<Rightarrow> (declare_fault, string \<Rightarrow> bool) result" where
  "compile_setup_pattern env pattern =
     (if int (length pattern) > 2048 then Err PatternTooLong
      else ok_or (regex_build env pattern) PatternUnsupported)"

text \<open>\<^verbatim>\<open>Path::to_string_lossy\<close> of a Unix path.\<close>

definition component_text :: "component \<Rightarrow> string" where
  "component_text c =
     (case c of Prefix s \<Rightarrow> s | RootDir \<Rightarrow> [] | CurDir \<Rightarrow> ''.'' | ParentDir \<Rightarrow> ''..'' | Normal n \<Rightarrow> n)"

definition path_string :: "path \<Rightarrow> string" where
  "path_string p =
     (case p of
        RootDir # rest \<Rightarrow> ''/'' @ join ''/'' (map component_text rest)
      | _ \<Rightarrow> join ''/'' (map component_text p))"

definition fail :: "setup_field \<Rightarrow> string \<Rightarrow> field_error" where
  "fail f msg = \<lparr>error_key = field_key f, error_message = msg\<rparr>"

definition accept_kind :: "setup_env \<Rightarrow> setup_field \<Rightarrow> string \<Rightarrow> (field_error, string) result" where
  "accept_kind env f v =
     (case field_kind f of
        Pattern pattern min_len max_len \<Rightarrow>
          if \<not> list_all is_ascii v \<or> length v < min_len \<or> length v > max_len
          then Err (fail f (''Use between '' @ show_nat min_len @ '' and '' @ show_nat max_len @ '' ASCII characters.''))
          else and_then (map_err (\<lambda>_. fail f ''The app's validation rule is unsupported.'')
                          (compile_setup_pattern env pattern)) (\<lambda>matches.
               if \<not> matches v then Err (fail f ''This value does not match the app's required format.'')
               else Ok v)
      | Text min_len max_len \<Rightarrow>
          if char_count v < min_len \<or> char_count v > max_len
          then Err (fail f (''Use between '' @ show_nat min_len @ '' and '' @ show_nat max_len @ '' characters.''))
          else Ok v
      | Number lo hi \<Rightarrow>
          and_then (ok_or (parse_i64 v) (fail f ''Enter a whole number.'')) (\<lambda>n.
          if n < lo \<or> n > hi
          then Err (fail f (''Enter a number between '' @ show_i64 lo @ '' and '' @ show_i64 hi @ ''.''))
          else Ok v)
      | Boolean \<Rightarrow>
          if v \<noteq> ''true'' \<and> v \<noteq> ''false'' then Err (fail f ''Choose either true or false.'') else Ok v
      | Choice options \<Rightarrow>
          if v \<notin> set options then Err (fail f (''Choose one of: '' @ join '', '' options @ ''.'')) else Ok v
      | Folder ro \<Rightarrow>
          and_then (map_err (fail f)
             (share_folder (os_canonicalize env) (os_is_dir env) (home_folder env) v ro (records_root env)))
            (\<lambda>shared. Ok (path_string (folder shared))))"

definition accept :: "setup_env \<Rightarrow> setup_field \<Rightarrow> string option \<Rightarrow> (field_error, string) result" where
  "accept env f answer =
     (let given = Option.bind answer (\<lambda>a. if trim a \<noteq> [] then Some (trim a) else None);
          checked = (\<lambda>v. if has_control v
                         then Err (fail f ''Remove line breaks and control characters.'')
                         else accept_kind env f v)
      in case given of
           Some v \<Rightarrow> checked v
         | None \<Rightarrow>
             (case field_default f of
                Some d \<Rightarrow> checked d
              | None \<Rightarrow> if field_required f then Err (fail f ''This is required.'') else Ok []))"

section \<open>Seeds\<close>

definition MAX_SEEDS :: nat where "MAX_SEEDS = 64"
definition MAX_SEED_BYTES :: int where "MAX_SEED_BYTES = 262144"

definition is_confined_seed_path :: "string \<Rightarrow> bool" where
  "is_confined_seed_path p =
     (starts_with ''data/'' p \<and> \<not> ends_with ''/'' p
      \<and> list_all (\<lambda>part. part \<noteq> [] \<and> part \<noteq> ''.'' \<and> part \<noteq> ''..'') (split_char (CHR ''/'') p)
      \<and> list_all (\<lambda>c. is_alnum c \<or> c \<in> {CHR ''.'', CHR ''_'', CHR ''-'', CHR ''/''}) p)"

fun seeds_validate :: "string list \<Rightarrow> seed_file list \<Rightarrow> setup_error check" where
  "seeds_validate seen [] = Ok ()"
| "seeds_validate seen (s # ss) =
     (if \<not> is_confined_seed_path (seed_path s) then Err (Seed (SeedNotConfined (seed_path s)))
      else if int (length (seed_content s)) > MAX_SEED_BYTES then Err (Seed (SeedTooLarge (seed_path s)))
      else if seed_path s \<in> set seen then Err (Seed (SeedTwice (seed_path s)))
      else seeds_validate (seed_path s # seen) ss)"

section \<open>Validation of a template\<close>

definition field_validate :: "setup_env \<Rightarrow> setup_field \<Rightarrow> setup_error check" where
  "field_validate env f =
     and_then
       (case field_kind f of
          Pattern pattern min_len max_len \<Rightarrow>
            if max_len < min_len \<or> int max_len > 4096 then Err (Declare PatternBounds)
            else and_then (map_err Declare (compile_setup_pattern env pattern)) (\<lambda>_. Ok ())
        | _ \<Rightarrow> Ok ()) (\<lambda>_.
     and_then (ensure (is_key (field_key f)) (Declare (FieldKeyInvalid (field_key f)))) (\<lambda>_.
     and_then (ensure (\<not> is_reserved_key (field_key f)) (Declare (FieldReserved (field_key f)))) (\<lambda>_.
     and_then (ensure (field_kind f \<noteq> Choice []) (Declare (NoChoices (field_key f)))) (\<lambda>_.
       if field_default f = None then Ok ()
       else and_then (map_err (\<lambda>e. Declare (DefaultInvalid (field_key f) (error_message e))) (accept env f None))
              (\<lambda>_. Ok ())))))"

definition secret_validate :: "setup_field list \<Rightarrow> secret_spec \<Rightarrow> setup_error check" where
  "secret_validate fs s =
     (if \<not> (16 \<le> secret_length s \<and> secret_length s \<le> 256) then Err (Declare (SecretLengthInvalid (secret_key s)))
      else if \<not> is_key (secret_key s) then Err (Declare (SecretKeyInvalid (secret_key s)))
      else if is_reserved_key (secret_key s) then Err (Declare (SecretReserved (secret_key s)))
      else if list_ex (\<lambda>f. field_key f = secret_key s) fs then Err (Declare (DeclaredTwice (secret_key s)))
      else Ok ())"

definition declared :: "plan_template \<Rightarrow> string list" where
  "declared t = map field_key (template_fields t) @ map secret_key (template_secrets t)"

definition mount_keys :: "plan_template \<Rightarrow> string list" where
  "mount_keys t =
     concat (map (\<lambda>s. concat (map (\<lambda>m. case m of Host source _ _ \<Rightarrow> map hole_key (placeholders source) | _ \<Rightarrow> [])
                              (mounts s))) (services (template_plan t)))"

definition environment_keys :: "plan_template \<Rightarrow> string list" where
  "environment_keys t =
     concat (map (\<lambda>s. concat (map (\<lambda>(k, v). map hole_key (placeholders v)) (environment s)))
       (services (template_plan t)))"

definition args_list :: "plan_args \<Rightarrow> string list" where
  "args_list a = (case a of Shell l \<Rightarrow> [l] | Exec parts \<Rightarrow> parts)"

definition command_parts :: "plan_service \<Rightarrow> string list" where
  "command_parts s =
     concat (map (\<lambda>a. case a of None \<Rightarrow> [] | Some args \<Rightarrow> args_list args)
       [command (overrides s), entrypoint (overrides s)])"

definition command_validate :: "plan_service \<Rightarrow> setup_error check" where
  "command_validate s =
     each (\<lambda>part. case placeholders part of
                    [] \<Rightarrow> Ok ()
                  | found # _ \<Rightarrow> Err (Usage (CommandPlaceholder (service_name s) (hole_key found))))
       (command_parts s)"

fun mark_used :: "(string \<Rightarrow> use_fault) \<Rightarrow> string list \<Rightarrow> string list \<Rightarrow> bool list
    \<Rightarrow> (setup_error, bool list) result" where
  "mark_used fault names [] used = Ok used"
| "mark_used fault names (k # ks) used =
     (case position (\<lambda>d. d = k) names of
        Some i \<Rightarrow> mark_used fault names ks (used[i := True])
      | None \<Rightarrow> Err (Usage (fault k)))"

fun mark_environment :: "string list \<Rightarrow> string list \<Rightarrow> string list \<Rightarrow> bool list
    \<Rightarrow> (setup_error, bool list) result" where
  "mark_environment names offered [] used = Ok used"
| "mark_environment names offered (k # ks) used =
     (if k \<in> set PLATFORM_KEYS then mark_environment names offered ks used
      else (case companion_service k of
              Some wanted \<Rightarrow>
                if wanted \<in> set offered then mark_environment names offered ks used
                else Err (Usage (NoSuchCompanion k))
            | None \<Rightarrow>
                and_then (mark_used NoSource names [k] used) (mark_environment names offered ks)))"

definition template_validate :: "setup_env \<Rightarrow> plan_template \<Rightarrow> setup_error check" where
  "template_validate env t =
     (if length (template_seeds t) > MAX_SEEDS then Err (Seed (TooManySeeds (length (template_seeds t))))
      else
        and_then (seeds_validate [] (template_seeds t)) (\<lambda>_.
        and_then (each (field_validate env) (template_fields t)) (\<lambda>_.
        and_then (each (secret_validate (template_fields t)) (template_secrets t)) (\<lambda>_.
        and_then (mark_used FolderUndeclared (declared t) (mount_keys t)
                    (replicate (length (declared t)) False)) (\<lambda>used.
        and_then (each command_validate (services (template_plan t))) (\<lambda>_.
        and_then (mark_environment (declared t)
                    (map (\<lambda>(s, q). companion_suffix (service_name s)) (companions (template_plan t)))
                    (environment_keys t) used) (\<lambda>used.
          (case position (\<lambda>u. \<not> u) used of
             Some i \<Rightarrow> Err (Usage (Unused (declared t ! i)))
           | None \<Rightarrow> map_err PlanRefused (validate (template_plan t))))))))))"

section \<open>Resolution\<close>

fun accept_fields ::
  "setup_env \<Rightarrow> (string, string) btree \<Rightarrow> setup_field list \<Rightarrow> (string, string) btree \<Rightarrow> field_error list
   \<Rightarrow> (string, string) btree \<times> field_error list" where
  "accept_fields env answers [] accepted errors = (accepted, errors)"
| "accept_fields env answers (f # fs) accepted errors =
     (case accept env f (bt_get answers (field_key f)) of
        Ok v \<Rightarrow> accept_fields env answers fs (bt_insert (field_key f) v accepted) errors
      | Err e \<Rightarrow> accept_fields env answers fs accepted (errors @ [e]))"

definition accept_answers ::
  "setup_env \<Rightarrow> plan_template \<Rightarrow> (string, string) btree \<Rightarrow> (field_error list, (string, string) btree) result" where
  "accept_answers env t answers =
     (let (accepted, errors) = accept_fields env answers (template_fields t) [] [];
          unknown = filter (\<lambda>k. \<not> list_ex (\<lambda>f. field_key f = k) (template_fields t)) (bt_keys answers);
          errors = errors @ map (\<lambda>k. \<lparr>error_key = k, error_message = ''This app has no such setup field.''\<rparr>) unknown
      in if errors = [] then Ok accepted else Err errors)"

fun generate_secrets ::
  "secret_spec list \<Rightarrow> (string, string) btree \<Rightarrow> (secret_fault, (string, string) btree) prog" where
  "generate_secrets [] made = io_return made"
| "generate_secrets (s # ss) made =
     io_bind (generate s) (\<lambda>v. generate_secrets ss (bt_insert (secret_key s) v made))"

definition secret_check :: "(string, string) btree \<Rightarrow> secret_spec \<Rightarrow> setup_error check" where
  "secret_check secrets s =
     (case bt_get secrets (secret_key s) of
        None \<Rightarrow> Err (SecretMissing (secret_key s))
      | Some v \<Rightarrow> ensure (accepts s v) (SecretMismatch (secret_key s)))"

definition resolve_environment ::
  "(string, string) btree \<Rightarrow> (string, string) btree \<Rightarrow> string \<times> string \<Rightarrow> (setup_error, string \<times> string) result" where
  "resolve_environment accepted secrets kv =
     and_then (map_err (ValueMissing (fst kv)) (substitute (snd kv) accepted secrets)) (\<lambda>filled.
       Ok (fst kv, filled))"

definition resolve_mount ::
  "(string, string) btree \<Rightarrow> (string, string) btree \<Rightarrow> plan_mount \<Rightarrow> (setup_error, plan_mount) result" where
  "resolve_mount accepted secrets m =
     (case m of
        Host source target ro \<Rightarrow>
          and_then (map_err FolderMissing (substitute source accepted secrets)) (\<lambda>filled.
            Ok (Host filled target ro))
      | _ \<Rightarrow> Ok m)"

definition answers_message :: "field_error list \<Rightarrow> string" where
  "answers_message errors = join ''; '' (sort (map (\<lambda>e. error_key e @ '': '' @ error_message e) errors))"

definition resolve ::
  "setup_env \<Rightarrow> plan_template \<Rightarrow> (string, string) btree \<Rightarrow> (string, string) btree
   \<Rightarrow> (setup_error, deployment_plan) result" where
  "resolve env t answers secrets =
     and_then (template_validate env t) (\<lambda>_.
     and_then (map_err (\<lambda>errors. AnswersRefused (answers_message errors)) (accept_answers env t answers)) (\<lambda>accepted.
     and_then (each (secret_check secrets) (template_secrets t)) (\<lambda>_.
     and_then (map_ok (\<lambda>s. and_then (map_ok (resolve_environment accepted secrets) (environment s)) (\<lambda>filled.
                 Ok (s\<lparr>environment := filled\<rparr>))) (services (template_plan t))) (\<lambda>filled.
     and_then (map_ok (\<lambda>s. and_then (map_ok (resolve_mount accepted secrets) (mounts s)) (\<lambda>ms.
                 Ok (s\<lparr>mounts := ms\<rparr>))) filled) (\<lambda>resolved.
     (let plan = (template_plan t)\<lparr>services := resolved\<rparr>
      in and_then (map_err PlanRefused (validate plan)) (\<lambda>_. Ok plan)))))))"

section \<open>Review\<close>

record setup_field_review =
  review_key :: string
  review_label :: string
  review_required :: bool
  review_sensitive :: bool
  has_default :: bool
  review_default :: "string option"
  control :: string
  server_validated :: bool
  review_min :: "int option"
  review_max :: "int option"
  review_options :: "string list"
  review_read_only :: "bool option"

record setup_review =
  review_fields :: "setup_field_review list"
  service_count :: nat
  generated_credential_count :: nat

definition field_review :: "setup_field \<Rightarrow> setup_field_review" where
  "field_review f =
     (let view = \<lparr>review_key = field_key f, review_label = field_label f, review_required = field_required f,
            review_sensitive = field_sensitive f, has_default = (field_default f \<noteq> None),
            review_default = (if field_sensitive f then None else field_default f), control = ''text'',
            server_validated = True, review_min = None, review_max = None, review_options = [],
            review_read_only = None\<rparr>
      in if field_sensitive f then view\<lparr>control := ''password''\<rparr>
         else (case field_kind f of
                 Boolean \<Rightarrow> view\<lparr>control := ''boolean''\<rparr>
               | Number lo hi \<Rightarrow> view\<lparr>control := ''number'', review_min := Some lo, review_max := Some hi\<rparr>
               | Choice options \<Rightarrow> view\<lparr>control := ''choice'', review_options := options\<rparr>
               | Folder ro \<Rightarrow> view\<lparr>control := ''folder'', review_read_only := Some ro\<rparr>
               | _ \<Rightarrow> view))"

definition template_review :: "setup_env \<Rightarrow> plan_template \<Rightarrow> (setup_error, setup_review) result" where
  "template_review env t =
     and_then (template_validate env t) (\<lambda>_.
       Ok \<lparr>review_fields = map field_review (template_fields t),
           service_count = length (services (template_plan t)),
           generated_credential_count = length (template_secrets t)\<rparr>)"

end
