(* ===== verification/Importers.thy ===== *)
theory Importers
  imports Setup
begin

text \<open>
  What the importers of upstream definitions share, \<^verbatim>\<open>src/importers/mod.rs\<close>: the reasons an app cannot
  be imported, the published port, commands and dependencies. Messages are kept as their pieces:
  text, a string in its debugging form, or the error of a rule the importer consults.
\<close>

section \<open>Outcomes\<close>

datatype detail_part = Txt string | Dbg string | Why setup_error

type_synonym detail = "detail_part list"

datatype limitation =
    Refused (feature: string) (detail: detail)
  | NotModelled (feature: string) (detail: detail)
  | NeedsInput (feature: string) (detail: detail)

definition category :: "limitation \<Rightarrow> string" where
  "category l =
     (case l of
        Refused _ _ \<Rightarrow> ''refused''
      | NotModelled _ _ \<Rightarrow> ''not modelled''
      | NeedsInput _ _ \<Rightarrow> ''needs input'')"

record import_outcome =
  import_id :: string
  import_template :: "plan_template option"
  limitations :: "limitation list"

definition is_importable :: "import_outcome \<Rightarrow> bool" where
  "is_importable out = (import_template out \<noteq> None)"

definition import_plan :: "import_outcome \<Rightarrow> deployment_plan option" where
  "import_plan out = map_option template_plan (import_template out)"

text \<open>What is outside the program: the JSON reader, the reader its derive macro generates for a health
  check, and the formatting of a message's pieces into its text, beside what setup needs.\<close>

record import_env =
  base_env :: setup_env
  parse_json :: "string \<Rightarrow> json option"
  read_health :: "json \<Rightarrow> raw_health option"
  show_detail :: "detail \<Rightarrow> string"

datatype import_error = Unreadable | NotAnObject | NoServicesDeclared | ConfigUnreadable | NoServicesAtAll

section \<open>Ports and commands\<close>

definition preferred_host_port :: "u16 \<Rightarrow> u16" where
  "preferred_host_port port = (if 1024 \<le> port then port else max (saturating_add port 8000) 1024)"

definition plan_args_of :: "json \<Rightarrow> plan_args option" where
  "plan_args_of v =
     (case v of
        JString l \<Rightarrow> Some (Shell l)
      | JArray parts \<Rightarrow>
          (case map_ok (\<lambda>p. ok_or (json_str p) ()) parts of Ok texts \<Rightarrow> Some (Exec texts) | Err _ \<Rightarrow> None)
      | _ \<Rightarrow> None)"

section \<open>Dependencies\<close>

record dependencies =
  dep_names :: "string list"
  dep_healthy :: "string list"
  dep_completed :: "string list"

definition dependencies_default :: dependencies where
  "dependencies_default = \<lparr>dep_names = [], dep_healthy = [], dep_completed = []\<rparr>"

datatype dependency_fault =
    DependencyNotText | DependencyOptions | DependencyOption | DependencyCondition
  | DependencyDeclaration | DependencyTwice

definition wait_condition ::
  "string \<Rightarrow> json option \<Rightarrow> dependencies \<Rightarrow> (dependency_fault, dependencies) result" where
  "wait_condition name condition deps =
     (case condition of
        None \<Rightarrow> Ok deps
      | Some (JString s) \<Rightarrow>
          if s = ''service_started'' then Ok deps
          else if s = ''service_healthy'' then Ok (deps\<lparr>dep_healthy := bs_insert name (dep_healthy deps)\<rparr>)
          else if s = ''service_completed_successfully''
          then Ok (deps\<lparr>dep_completed := bs_insert name (dep_completed deps)\<rparr>)
          else Err DependencyCondition
      | Some _ \<Rightarrow> Err DependencyCondition)"

fun object_dependencies ::
  "(string \<times> json) list \<Rightarrow> dependencies \<Rightarrow> (dependency_fault, dependencies) result" where
  "object_dependencies [] deps = Ok deps"
| "object_dependencies ((name, options) # rest) deps =
     and_then (ok_or (json_object options) DependencyOptions) (\<lambda>options.
     if list_ex (\<lambda>(k, _). k \<noteq> ''condition'') options then Err DependencyOption
     else and_then (wait_condition name (member_of options ''condition'') deps) (\<lambda>deps.
       object_dependencies rest (deps\<lparr>dep_names := dep_names deps @ [name]\<rparr>)))"

definition dependencies_of :: "json option \<Rightarrow> (dependency_fault, dependencies) result" where
  "dependencies_of v =
     and_then
       (case v of
          None \<Rightarrow> Ok dependencies_default
        | Some (JArray xs) \<Rightarrow>
            and_then (map_ok (\<lambda>x. ok_or (json_str x) DependencyNotText) xs) (\<lambda>ns.
              Ok (dependencies_default\<lparr>dep_names := ns\<rparr>))
        | Some (JObject kvs) \<Rightarrow> object_dependencies kvs dependencies_default
        | Some _ \<Rightarrow> Err DependencyDeclaration) (\<lambda>deps.
     if distinct (dep_names deps) then Ok deps else Err DependencyTwice)"

definition dependency_text :: "dependency_fault \<Rightarrow> string" where
  "dependency_text e =
     (case e of
        DependencyNotText \<Rightarrow> ''Dependency name must be text''
      | DependencyOptions \<Rightarrow> ''Dependency options must be an object''
      | DependencyOption \<Rightarrow> ''Unsupported dependency option''
      | DependencyCondition \<Rightarrow> ''Unsupported dependency condition''
      | DependencyDeclaration \<Rightarrow> ''Unsupported dependency declaration''
      | DependencyTwice \<Rightarrow> ''Duplicate dependency'')"

section \<open>Lemmas\<close>

text \<open>A preferred port is never privileged, and an unprivileged one is kept.\<close>

lemma preferred_host_port_unprivileged: "1024 \<le> preferred_host_port port"
  by (simp add: preferred_host_port_def)

lemma preferred_host_port_small:
  assumes "port < 1024"
  shows "unat (preferred_host_port port) = unat port + 8000"
proof -
  have "unat port < 1024" using assms by (simp add: word_less_nat_alt)
  then have "unat (saturating_add port 8000) = unat port + 8000"
    by (simp add: unat_saturating_add)
  moreover from this have "1024 \<le> saturating_add port 8000" by (simp add: word_le_nat_alt)
  ultimately show ?thesis using assms by (simp add: preferred_host_port_def max_def)
qed

lemma object_dependencies_bounds:
  "object_dependencies kvs deps = Ok deps' \<Longrightarrow>
   set (dep_healthy deps) \<union> set (dep_completed deps) \<subseteq> set (dep_names deps) \<Longrightarrow>
   set (dep_healthy deps') \<union> set (dep_completed deps') \<subseteq> set (dep_names deps')"
proof (induction kvs arbitrary: deps)
  case (Cons kv kvs)
  obtain name options where kv: "kv = (name, options)" by (cases kv)
  from Cons.prems(1) obtain condition deps1 where d: "wait_condition name condition deps = Ok deps1"
    "object_dependencies kvs (deps1\<lparr>dep_names := dep_names deps1 @ [name]\<rparr>) = Ok deps'"
    unfolding kv by (auto simp: and_then_Ok_iff split: if_splits)
  from d(1) have "dep_names deps1 = dep_names deps"
    "set (dep_healthy deps1) \<union> set (dep_completed deps1) \<subseteq> insert name (set (dep_healthy deps) \<union> set (dep_completed deps))"
    by (auto simp: wait_condition_def split: option.splits json.splits if_splits)
  with Cons.prems(2) show ?case by (intro Cons.IH [OF d(2)]) auto
qed simp

text \<open>What a service waits for healthy or completed, it waits for; and it waits for nothing twice.\<close>

lemma dependencies_of_Ok:
  assumes "dependencies_of v = Ok deps"
  shows "set (dep_healthy deps) \<union> set (dep_completed deps) \<subseteq> set (dep_names deps)" "distinct (dep_names deps)"
proof -
  show "distinct (dep_names deps)" using assms by (auto simp: dependencies_of_def and_then_Ok_iff split: if_splits)
  show "set (dep_healthy deps) \<union> set (dep_completed deps) \<subseteq> set (dep_names deps)"
    using assms object_dependencies_bounds [of _ dependencies_default deps]
    by (auto simp: dependencies_of_def and_then_Ok_iff dependencies_default_def
        split: if_splits option.splits json.splits)
qed

end
