(* ===== verification/Runtipi.thy ===== *)
theory Runtipi
  imports Importers
begin

text \<open>
  The importer of Runtipi app-store definitions, \<^verbatim>\<open>src/importers/runtipi.rs\<close>: shared folders, form
  fields, ports, platform values, and the map of one definition onto a template. Reading seed files from
  an app's folder is a walk of the file system and is not modelled.
\<close>

section \<open>Folders\<close>

definition APP_DATA_DIR :: string where "APP_DATA_DIR = ''${APP_DATA_DIR}/''"
definition CLOCK_FILES :: "string list" where "CLOCK_FILES = [''/etc/localtime'', ''/etc/timezone'']"
definition ROOT_FOLDER_HOST :: string where "ROOT_FOLDER_HOST = ''${ROOT_FOLDER_HOST}/''"

definition trim_end_slashes :: "string \<Rightarrow> string" where
  "trim_end_slashes s = rev (dropWhile (\<lambda>c. c = CHR ''/'') (rev s))"

definition trim_slashes :: "string \<Rightarrow> string" where
  "trim_slashes s = trim_end_slashes (dropWhile (\<lambda>c. c = CHR ''/'') s)"

definition SYSTEM :: "string list" where
  "SYSTEM = [''/etc'', ''/usr'', ''/bin'', ''/sbin'', ''/lib'', ''/lib64'', ''/boot'', ''/dev'', ''/proc'',
     ''/sys'', ''/run'', ''/var/run'']"

definition container_path_is_system :: "string \<Rightarrow> bool" where
  "container_path_is_system target =
     (let cleaned = trim_end_slashes target
      in if cleaned = [] \<or> cleaned = ''/'' then True
         else if cleaned = ''/usr/src'' \<or> starts_with ''/usr/src/'' cleaned then False
         else list_ex (\<lambda>system. cleaned = system \<or> starts_with (system @ ''/'') cleaned) SYSTEM)"

text \<open>One character of a key per character of the name, whose continuation bytes are dropped.\<close>

definition folder_key :: "string \<Rightarrow> string" where
  "folder_key name =
     map (\<lambda>c. if is_alnum c then to_upper c else CHR ''_'') (filter (\<lambda>c. \<not> (128 \<le> code c \<and> code c < 192)) name)"

definition capitalised :: "string \<Rightarrow> string" where
  "capitalised label =
     (case label of
        [] \<Rightarrow> []
      | c # cs \<Rightarrow> if is_char_boundary label 1 then to_upper c # cs else label)"

definition shared_folder_field :: "string \<Rightarrow> (string \<times> string) option" where
  "shared_folder_field subpath =
     (let cleaned = trim_slashes subpath
      in if cleaned = [] \<or> contains ''..'' cleaned then None
         else if cleaned \<noteq> ''media'' \<and> \<not> starts_with ''media/'' cleaned then None
         else
           (let parts = filter (\<lambda>p. p \<noteq> ''media'' \<and> p \<noteq> ''data'' \<and> p \<noteq> []) (split_char (CHR ''/'') cleaned);
                named = (if parts = [] then [''media''] else parts);
                k = folder_key (join ''_'' named)
            in if k = [] \<or> \<not> is_alpha (hd k) then None
               else (let label = capitalised (map (\<lambda>c. if c = CHR ''-'' \<or> c = CHR ''_'' then CHR '' '' else c)
                                                  (join '' '' named))
                     in Some (''FOLDER_'' @ k, label @ '' folder''))))"

section \<open>Vocabulary\<close>

definition REFUSED_KEYS :: "(string \<times> string) list" where
  "REFUSED_KEYS = [(''privileged'', ''runs the container with full host privileges''),
     (''capAdd'', ''adds Linux capabilities''), (''capDrop'', ''changes Linux capabilities''),
     (''devices'', ''passes host devices into the container''),
     (''securityOpt'', ''changes the container security profile''), (''sysctls'', ''sets kernel parameters''),
     (''pid'', ''shares a process namespace with the host''),
     (''networkMode'', ''bypasses the isolated app network'')]"

definition NOT_MODELLED_KEYS :: "(string \<times> string) list" where
  "NOT_MODELLED_KEYS = [(''user'', ''runs as a specific user''), (''extraLabels'', ''sets container labels''),
     (''logging'', ''configures a logging driver''), (''deploy'', ''sets deployment resources''),
     (''tty'', ''allocates a TTY''), (''stdinOpen'', ''keeps stdin open''),
     (''stopGracePeriod'', ''sets a stop grace period''), (''shmSize'', ''sets shared memory size''),
     (''workingDir'', ''sets a working directory''), (''ulimits'', ''sets resource limits'')]"

definition hole :: "string \<Rightarrow> string" where
  "hole k = ''${'' @ k @ ''}''"

definition tipi_platform_values :: "(string, string) btree" where
  "tipi_platform_values =
     foldl (\<lambda>m k. bt_insert k (hole PLATFORM_HOST) m)
       (bt_insert ''APP_PORT'' (hole PLATFORM_PORT) (bt_insert ''APP_PROTOCOL'' ''http'' []))
       [''APP_DOMAIN'', ''APP_HOST'', ''LOCAL_DOMAIN'', ''APP_LOCAL_DOMAIN'']"

section \<open>Form fields\<close>

record declared_inputs =
  input_fields :: "setup_field list"
  input_secrets :: "secret_spec list"
  input_limitations :: "limitation list"

definition no_inputs :: declared_inputs where
  "no_inputs = \<lparr>input_fields = [], input_secrets = [], input_limitations = []\<rparr>"

definition clamp_length :: "int \<Rightarrow> nat" where
  "clamp_length n = min 256 (max 16 (if n < 0 then 32 else nat (min n 256)))"

definition or_else :: "'a option \<Rightarrow> 'a option \<Rightarrow> 'a option" where
  "or_else a b = (case a of Some x \<Rightarrow> Some x | None \<Rightarrow> b)"

definition int_or :: "int \<Rightarrow> int option \<Rightarrow> int" where
  "int_or d v = (case v of Some n \<Rightarrow> n | None \<Rightarrow> d)"

text \<open>\<^verbatim>\<open>usize::try_from(n).unwrap_or(d)\<close>\<close>

definition usize_or :: "nat \<Rightarrow> int \<Rightarrow> nat" where
  "usize_or d n = (if n < 0 then d else nat n)"

definition form_default :: "json \<Rightarrow> string option" where
  "form_default entry =
     (case json_get entry ''default'' of
        Some (JString t) \<Rightarrow> Some t
      | Some (JBool b) \<Rightarrow> Some (bool_text b)
      | Some (JNumber n) \<Rightarrow> Some (number_text n)
      | _ \<Rightarrow> None)"

definition form_options :: "json \<Rightarrow> string list" where
  "form_options entry =
     List.map_filter (\<lambda>o'. or_else (get_str o' ''value'') (json_str o')) (get_list entry ''options'')"

definition form_kind :: "json \<Rightarrow> string \<Rightarrow> int option \<Rightarrow> int option \<Rightarrow> field_kind" where
  "form_kind entry kind_name lo hi =
     (if form_options entry \<noteq> [] then Choice (form_options entry)
      else if kind_name = ''boolean'' then Boolean
      else if kind_name = ''number'' then Number (int_or 0 lo) (int_or 4294967295 hi)
      else Text (usize_or 0 (int_or 0 lo)) (max (usize_or 255 (int_or 255 hi)) 1))"

definition secret_encoding :: "json \<Rightarrow> (string, secret_format) result" where
  "secret_encoding entry =
     (case get_str entry ''encoding'' of
        None \<Rightarrow> Ok Alphanumeric
      | Some e \<Rightarrow> if e = ''hex'' then Ok Hex else if e = ''base64'' then Ok Base64 else Err e)"

definition read_form_field :: "declared_inputs \<Rightarrow> json \<Rightarrow> declared_inputs" where
  "read_form_field d entry =
     (let k = text_or [] (get_str entry ''env_variable'')
      in if k = [] then d
         else
           (let kind_name = text_or ''text'' (get_str entry ''type'');
                label = text_or k (get_str entry ''label'');
                required = (Option.bind (json_get entry ''required'') json_bool = Some True);
                lo = Option.bind (json_get entry ''min'') json_i64;
                hi = Option.bind (json_get entry ''max'') json_i64;
                d = (if json_get entry ''regex'' \<noteq> None
                     then d\<lparr>input_limitations := input_limitations d
                            @ [NotModelled ''field pattern'' [Txt (k @ '' is validated by a regular expression'')]]\<rparr>
                     else d)
            in if kind_name = ''random''
               then (case secret_encoding entry of
                       Ok f \<Rightarrow> d\<lparr>input_secrets := input_secrets d
                                 @ [\<lparr>secret_key = k, secret_length = clamp_length (int_or 32 (or_else hi lo)),
                                     secret_format = f\<rparr>]\<rparr>
                     | Err other \<Rightarrow> d\<lparr>input_limitations := input_limitations d
                                 @ [NotModelled ''secret encoding'' [Txt (k @ '' asks for a '' @ other @ '' value'')]]\<rparr>)
               else d\<lparr>input_fields := input_fields d
                      @ [\<lparr>field_key = k, field_label = label, field_kind = form_kind entry kind_name lo hi,
                          field_required = required, field_default = form_default entry,
                          field_sensitive = (kind_name = ''password'')\<rparr>]\<rparr>))"

definition read_form_fields :: "import_env \<Rightarrow> string \<Rightarrow> (import_error, declared_inputs) result" where
  "read_form_fields env config =
     and_then (ok_or (parse_json env config) ConfigUnreadable) (\<lambda>root.
       Ok (foldl read_form_field no_inputs (get_list root ''form_fields'')))"

section \<open>Ports\<close>

definition usable_port :: "(string \<times> json) list \<Rightarrow> string \<Rightarrow> (string, u16) result" where
  "usable_port object k =
     ok_or
       (Option.bind (member_of object k) (\<lambda>v.
        Option.bind (json_u64 v) (\<lambda>n.
          if n < 65536 \<and> 0 < n then Some (of_nat n) else None)))
       (''declares no usable '' @ k)"

definition companion_port :: "json \<Rightarrow> (string, published_port) result" where
  "companion_port v =
     and_then (ok_or (json_array v) ''declares addPorts that are not a list'') (\<lambda>entries.
       (case entries of
          [entry] \<Rightarrow>
            and_then (ok_or (json_object entry) ''declares an extra port that is not an object'') (\<lambda>object.
              (case find (\<lambda>(k, _). k \<notin> {''hostPort'', ''containerPort'', ''tcp''}) object of
                 Some (k, _) \<Rightarrow> Err (''sets '' @ k @ '' on an extra port'')
               | None \<Rightarrow>
                   if (case member_of object ''tcp'' of Some t \<Rightarrow> t \<noteq> JBool True | None \<Rightarrow> False)
                   then Err ''publishes an extra port that is not TCP''
                   else
                     and_then (usable_port object ''hostPort'') (\<lambda>h.
                     and_then (usable_port object ''containerPort'') (\<lambda>c.
                       Ok \<lparr>host = (if h < 1024 then preferred_host_port h else h), container = c\<rparr>))))
        | _ \<Rightarrow> Err (''declares '' @ show_nat (length entries) @ '' extra ports; one is supported'')))"

definition main_port :: "string \<Rightarrow> json \<Rightarrow> published_port option \<times> limitation list" where
  "main_port name service =
     (case Option.bind (json_get service ''internalPort'') json_u64 of
        Some n \<Rightarrow>
          if 1024 \<le> n \<and> n < 65536 then (Some \<lparr>host = of_nat n, container = of_nat n\<rparr>, [])
          else if 1 \<le> n \<and> n < 1024
          then (Some \<lparr>host = preferred_host_port (of_nat n), container = of_nat n\<rparr>, [])
          else (None, [NotModelled ''internalPort'' [Txt (name @ '' is the main service but declares no usable port'')]])
      | None \<Rightarrow> (None, [NotModelled ''internalPort'' [Txt (name @ '' is the main service but declares no usable port'')]]))"

section \<open>Platform values\<close>

text \<open>The loop over \<^verbatim>\<open>${KEY:-fallback}\<close>: nothing in its shape ends it, so it is a partial function.\<close>

partial_function (option) fallback_loop :: "string \<Rightarrow> string \<Rightarrow> string \<Rightarrow> string option" where
  "fallback_loop pat replacement out =
     (case find_str pat out of
        None \<Rightarrow> Some out
      | Some start \<Rightarrow>
          (case find_str ''}'' (drop start out) of
             None \<Rightarrow> Some out
           | Some close \<Rightarrow>
               fallback_loop pat replacement (take start out @ replacement @ drop (start + close + 1) out)))"

declare fallback_loop.simps [code]

fun tipi_fill :: "(string \<times> string) list \<Rightarrow> string \<Rightarrow> string option" where
  "tipi_fill [] out = Some out"
| "tipi_fill ((k, replacement) # rest) out =
     Option.bind (fallback_loop (''${'' @ k @ '':-'') replacement (replace (hole k) replacement out)) (tipi_fill rest)"

function placeholder_keys :: "string \<Rightarrow> string list" where
  "placeholder_keys rest =
     (case find_str ''${'' rest of
        None \<Rightarrow> []
      | Some start \<Rightarrow>
          (let tail = drop (start + 2) rest
           in case find_str ''}'' tail of
                None \<Rightarrow> []
              | Some stop \<Rightarrow>
                  (let inner = take stop tail;
                       name = (case split_once '':-'' inner of Some (k, _) \<Rightarrow> k | None \<Rightarrow> inner)
                   in (if is_key name then [name] else []) @ placeholder_keys (drop (stop + 1) tail))))"
  by pat_completeness auto
termination
  by (relation "measure length") (auto dest: find_str_Some_split)

declare placeholder_keys.simps [simp del]

definition uses_placeholder :: "string list \<Rightarrow> string \<Rightarrow> bool" where
  "uses_placeholder environment_values k = list_ex (\<lambda>v. k \<in> set (placeholder_keys v)) environment_values"

section \<open>One service\<close>

record tipi_state =
  rt_limitations :: "limitation list"
  rt_fields :: "setup_field list"
  rt_clock :: bool
  rt_planned :: "plan_service list"
  rt_main :: nat

definition rt_report :: "limitation list \<Rightarrow> tipi_state \<Rightarrow> tipi_state" where
  "rt_report lims st = st\<lparr>rt_limitations := rt_limitations st @ lims\<rparr>"

definition tipi_key_limitations :: "string \<Rightarrow> json \<Rightarrow> limitation list" where
  "tipi_key_limitations name service =
     map (\<lambda>(k, why). Refused k [Txt (name @ '' '' @ why)])
       (filter (\<lambda>(k, _). json_get service k \<noteq> None) REFUSED_KEYS)
     @ map (\<lambda>(k, why). NotModelled k [Txt (name @ '' '' @ why)])
         (filter (\<lambda>(k, _). json_get service k \<noteq> None) NOT_MODELLED_KEYS)"

definition tipi_networks :: "string \<Rightarrow> json \<Rightarrow> string list \<times> limitation list" where
  "tipi_networks name service =
     (case json_get service ''networks'' of
        None \<Rightarrow> ([], [])
      | Some v \<Rightarrow>
          (case Option.bind (json_array v) (\<lambda>xs. case map_ok (\<lambda>x. ok_or (json_str x) ()) xs of Ok ns \<Rightarrow> Some ns | Err _ \<Rightarrow> None) of
             Some ns \<Rightarrow> (ns, [])
           | None \<Rightarrow> ([], [NotModelled ''networks'' [Txt (name @ '' lists networks this importer cannot read'')]])))"

definition tipi_environment :: "json \<Rightarrow> (string \<times> string) list" where
  "tipi_environment service =
     map (\<lambda>entry. (text_or [] (get_str entry ''key''),
       (case json_get entry ''value'' of
          Some (JString t) \<Rightarrow> t
        | Some (JNumber n) \<Rightarrow> number_text n
        | Some (JBool b) \<Rightarrow> bool_text b
        | _ \<Rightarrow> []))) (get_list service ''environment'')"

record mount_state =
  ms_environment :: "(string \<times> string) list"
  ms_mounts :: "plan_mount list"
  ms_fields :: "setup_field list"
  ms_clock :: bool
  ms_limitations :: "limitation list"

definition tipi_shared :: "string \<Rightarrow> string \<Rightarrow> string \<Rightarrow> bool \<Rightarrow> string \<Rightarrow> mount_state \<Rightarrow> mount_state" where
  "tipi_shared name host_path target ro subpath m =
     (if container_path_is_system target
      then m\<lparr>ms_limitations := ms_limitations m
             @ [Refused ''host path'' [Txt (name @ '' mounts a folder over ''), Dbg target,
                  Txt '', which is the container's own system'']]\<rparr>
      else (case shared_folder_field subpath of
              Some (k, label) \<Rightarrow>
                m\<lparr>ms_fields := (if list_ex (\<lambda>f. field_key f = k) (ms_fields m) then ms_fields m
                    else ms_fields m @ [\<lparr>field_key = k, field_label = label, field_kind = Folder ro,
                           field_required = True, field_default = None, field_sensitive = False\<rparr>]),
                  ms_mounts := ms_mounts m @ [Host (hole k) target ro]\<rparr>
            | None \<Rightarrow>
                m\<lparr>ms_limitations := ms_limitations m
                  @ [Refused ''host path'' [Txt (name @ '' mounts ''), Dbg host_path,
                       Txt '', which names no folder a person could choose'']]\<rparr>))"

definition tipi_mount :: "string \<Rightarrow> mount_state \<Rightarrow> json \<Rightarrow> mount_state" where
  "tipi_mount name m volume =
     (let host_path = text_or [] (get_str volume ''hostPath'');
          target = text_or [] (get_str volume ''containerPath'');
          ro = (Option.bind (json_get volume ''readOnly'') json_bool = Some True)
      in if host_path \<in> set CLOCK_FILES
         then m\<lparr>ms_clock := True,
               ms_environment := (if list_ex (\<lambda>(k, _). k = ''TZ'') (ms_environment m) then ms_environment m
                                  else ms_environment m @ [(''TZ'', ''${TZ}'')])\<rparr>
         else (case strip_prefix ROOT_FOLDER_HOST host_path of
                 Some subpath \<Rightarrow> tipi_shared name host_path target ro subpath m
               | None \<Rightarrow>
                   (case strip_prefix APP_DATA_DIR host_path of
                      Some (c # cs) \<Rightarrow> m\<lparr>ms_mounts := ms_mounts m @ [Directory (trim_end_slashes (c # cs)) target ro]\<rparr>
                    | _ \<Rightarrow> m\<lparr>ms_limitations := ms_limitations m
                             @ [Refused ''host path'' [Txt (name @ '' mounts ''), Dbg host_path,
                                  Txt '', which is outside the app's own storage'']]\<rparr>)))"

definition tipi_health_name :: "string \<Rightarrow> string option" where
  "tipi_health_name k =
     (if k = ''startPeriod'' then Some ''start_period''
      else if k = ''startInterval'' then Some ''start_interval''
      else if k \<in> {''test'', ''interval'', ''timeout'', ''retries'', ''disable''} then Some k
      else None)"

fun normalize_health :: "(string \<times> json) list \<Rightarrow> (string, json) btree \<Rightarrow> (string, json) btree option" where
  "normalize_health [] m = Some m"
| "normalize_health ((k, v) # rest) m =
     Option.bind (tipi_health_name k) (\<lambda>mapped. normalize_health rest (bt_insert mapped v m))"

definition tipi_health :: "import_env \<Rightarrow> string \<Rightarrow> json option \<Rightarrow> plan_healthcheck option \<times> limitation list" where
  "tipi_health env name v =
     (case v of
        None \<Rightarrow> (None, [])
      | Some v \<Rightarrow>
          (case json_object v of
             None \<Rightarrow> (None, [NotModelled ''healthCheck'' [Txt (name @ '': Health check must be an object'')]])
           | Some object \<Rightarrow>
               (case normalize_health object [] of
                  None \<Rightarrow> (None, [NotModelled ''healthCheck'' [Txt (name @ '': Unsupported Runtipi health check property'')]])
                | Some normalized \<Rightarrow>
                    (case health_from_compose (read_health env (JObject normalized)) of
                       Ok check \<Rightarrow> (Some check, [])
                     | Err reason \<Rightarrow> (None, [NotModelled ''healthCheck'' [Txt (name @ '': ''), Why (PlanRefused reason)]])))))"

definition tipi_startup :: "string \<Rightarrow> string \<Rightarrow> json option \<Rightarrow> plan_args option \<times> limitation list" where
  "tipi_startup name field v =
     (case v of
        None \<Rightarrow> (None, [])
      | Some v \<Rightarrow>
          (case plan_args_of v of
             Some args \<Rightarrow> (Some args, [])
           | None \<Rightarrow> (None, [NotModelled field [Txt (name @ '' declares a '' @ field @ '' this importer cannot read'')]])))"

definition tipi_text :: "string \<Rightarrow> string \<Rightarrow> string \<Rightarrow> json option \<Rightarrow> string option \<times> limitation list" where
  "tipi_text name field what v =
     (case v of
        None \<Rightarrow> (None, [])
      | Some v \<Rightarrow>
          (case json_str v of
             Some t \<Rightarrow> (Some t, [])
           | None \<Rightarrow> (None, [NotModelled field [Txt (name @ '' declares a '' @ what @ '' this importer cannot read'')]])))"

definition tipi_service :: "import_env \<Rightarrow> tipi_state \<Rightarrow> json \<Rightarrow> tipi_state" where
  "tipi_service env st service =
     (let name = text_or [] (get_str service ''name'');
          img = text_or [] (get_str service ''image'');
          is_main = (Option.bind (json_get service ''isMain'') json_bool = Some True);
          (main, l1) = (if is_main then main_port name service else (None, []));
          (extra, l2) =
            (case json_get service ''addPorts'' of
               None \<Rightarrow> (None, [])
             | Some v \<Rightarrow> (case companion_port v of
                           Ok port \<Rightarrow> (Some port, [])
                         | Err reason \<Rightarrow> (None, [NotModelled ''addPorts'' [Txt (name @ '' '' @ reason)]])));
          (nets, l3) = tipi_networks name service;
          m = foldl (tipi_mount name)
                \<lparr>ms_environment = tipi_environment service, ms_mounts = [], ms_fields = rt_fields st,
                 ms_clock = rt_clock st, ms_limitations = []\<rparr> (get_list service ''volumes'');
          (deps, l5) =
            (case dependencies_of (json_get service ''dependsOn'') of
               Ok deps \<Rightarrow> (deps, [])
             | Err reason \<Rightarrow> (dependencies_default,
                 [NotModelled ''dependsOn condition'' [Txt (name @ '': '' @ dependency_text reason)]]));
          (health, l6) = tipi_health env name (json_get service ''healthCheck'');
          (cmd, l7) = tipi_startup name ''command'' (json_get service ''command'');
          (entry, l8) = tipi_startup name ''entrypoint'' (json_get service ''entrypoint'');
          (hname, l9) = tipi_text name ''hostname'' ''hostname'' (json_get service ''hostname'');
          (signal, l10) = tipi_text name ''stopSignal'' ''stop signal'' (json_get service ''stopSignal'');
          made = \<lparr>service_name = name, service_image = img, digest = None, environment = ms_environment m,
            service_companion = extra, networks = nets, service_published = main, mounts = ms_mounts m,
            depends_on = dep_names deps,
            overrides = overrides_default\<lparr>healthy_dependencies := dep_healthy deps,
              completed_dependencies := dep_completed deps, healthcheck := health,
              command := cmd, entrypoint := entry, hostname := hname, stop_signal := signal\<rparr>\<rparr>
      in \<lparr>rt_limitations = rt_limitations st @ tipi_key_limitations name service @ l1 @ l2 @ l3
            @ ms_limitations m @ l5 @ l6 @ l7 @ l8 @ l9 @ l10,
          rt_fields = ms_fields m, rt_clock = ms_clock m, rt_planned = rt_planned st @ [made],
          rt_main = rt_main st + (if is_main then 1 else 0)\<rparr>)"

section \<open>The definition\<close>

definition tipi_root_networks :: "json \<Rightarrow> string list \<times> limitation list" where
  "tipi_root_networks root =
     (case json_get root ''networks'' of
        None \<Rightarrow> ([], [])
      | Some v \<Rightarrow>
          (case json_object v of
             None \<Rightarrow> ([], [NotModelled ''networks'' [Txt ''declares networks this importer cannot read'']])
           | Some nets \<Rightarrow>
               (map fst (filter (\<lambda>(_, options). options = JObject [(''internal'', JBool True)]) nets),
                map (\<lambda>(n, _). NotModelled ''networks'' [Txt (n @ '' is not declared as an internal network'')])
                  (filter (\<lambda>(_, options). options \<noteq> JObject [(''internal'', JBool True)]) nets))))"

definition timezone_field :: setup_field where
  "timezone_field = \<lparr>field_key = ''TZ'', field_label = ''Time zone (for example, Asia/Kolkata)'',
     field_kind = Text 1 128, field_required = False, field_default = Some ''UTC'', field_sensitive = False\<rparr>"

definition environment_values :: "plan_service list \<Rightarrow> string list" where
  "environment_values ss = concat (map (\<lambda>s. map snd (environment s)) ss)"

definition tipi_fields :: "tipi_state \<Rightarrow> secret_spec list \<Rightarrow> setup_field list" where
  "tipi_fields st secrets =
     (if (rt_clock st \<or> uses_placeholder (environment_values (rt_planned st)) ''TZ'')
          \<and> \<not> list_ex (\<lambda>f. field_key f = ''TZ'') (rt_fields st)
          \<and> \<not> list_ex (\<lambda>s. secret_key s = ''TZ'') secrets
      then rt_fields st @ [timezone_field] else rt_fields st)"

definition declared_key :: "setup_field list \<Rightarrow> secret_spec list \<Rightarrow> string list \<Rightarrow> string \<Rightarrow> bool" where
  "declared_key fs secrets companion_names k =
     (is_platform_key k
      \<or> (case companion_service k of
           Some wanted \<Rightarrow> list_ex (\<lambda>n. companion_suffix n = wanted) companion_names
         | None \<Rightarrow> False)
      \<or> list_ex (\<lambda>f. field_key f = k) fs
      \<or> list_ex (\<lambda>s. secret_key s = k) secrets)"

fun fill_environment :: "(string \<times> string) list \<Rightarrow> (string \<times> string) list option" where
  "fill_environment [] = Some []"
| "fill_environment ((k, v) # rest) =
     Option.bind (tipi_fill tipi_platform_values v) (\<lambda>v'.
       map_option ((#) (k, v')) (fill_environment rest))"

fun fill_services :: "plan_service list \<Rightarrow> plan_service list option" where
  "fill_services [] = Some []"
| "fill_services (s # ss) =
     Option.bind (fill_environment (environment s)) (\<lambda>env.
       map_option ((#) (s\<lparr>environment := env\<rparr>)) (fill_services ss))"

definition undeclared_limitations ::
  "setup_field list \<Rightarrow> secret_spec list \<Rightarrow> string list \<Rightarrow> plan_service list \<Rightarrow> limitation list" where
  "undeclared_limitations fs secrets companion_names ss =
     concat (map (\<lambda>s. concat (map (\<lambda>(k, v).
       map (\<lambda>p. NeedsInput ''platform placeholder''
                   [Txt (k @ '' expects '' @ p @ '', which this project does not supply'')])
         (filter (\<lambda>p. \<not> declared_key fs secrets companion_names p) (placeholder_keys v))) (environment s))) ss)"

definition host_sources :: "plan_service list \<Rightarrow> string list" where
  "host_sources ss =
     concat (map (\<lambda>s. List.map_filter (\<lambda>m. case m of Host src _ _ \<Rightarrow> Some src | _ \<Rightarrow> None) (mounts s)) ss)"

fun dedup_limitations :: "import_env \<Rightarrow> limitation list \<Rightarrow> limitation list" where
  "dedup_limitations env (a # b # rest) =
     (if feature a = feature b \<and> show_detail env (detail a) = show_detail env (detail b)
      then dedup_limitations env (a # rest) else a # dedup_limitations env (b # rest))"
| "dedup_limitations env short = short"

definition tipi_finish ::
  "import_env \<Rightarrow> string \<Rightarrow> string list \<Rightarrow> setup_field list \<Rightarrow> secret_spec list \<Rightarrow> plan_service list
   \<Rightarrow> limitation list \<Rightarrow> import_outcome" where
  "tipi_finish env i nets fs secrets planned lims =
     (let candidate =
        \<lparr>template_plan = \<lparr>plan_id = i, services = planned, named_volumes = [], internal_networks = nets\<rparr>,
         template_fields = filter (\<lambda>f. uses_placeholder (environment_values planned) (field_key f)
                                     \<or> uses_placeholder (host_sources planned) (field_key f)) fs,
         template_secrets = filter (\<lambda>s. uses_placeholder (environment_values planned) (secret_key s)) secrets,
         template_seeds = [], first_start = None\<rparr>;
          (made, lims) =
            (if lims \<noteq> [] then (None, lims)
             else (case template_validate (base_env env) candidate of
                     Ok _ \<Rightarrow> (Some candidate, lims)
                   | Err reason \<Rightarrow> (None, [Refused ''plan policy'' [Why reason]])))
      in \<lparr>import_id = i, import_template = made,
          limitations = dedup_limitations env
            (sort_key (\<lambda>l. (feature l, show_detail env (detail l))) lims)\<rparr>)"

text \<open>The outer option is none when the loop over fallbacks does not end.\<close>

definition tipi_import ::
  "import_env \<Rightarrow> string \<Rightarrow> string \<Rightarrow> string option \<Rightarrow> (import_error, import_outcome) result option" where
  "tipi_import env i text config =
     (case parse_json env text of
        None \<Rightarrow> Some (Err Unreadable)
      | Some root \<Rightarrow>
          (case (case config of None \<Rightarrow> Ok no_inputs | Some c \<Rightarrow> read_form_fields env c) of
             Err e \<Rightarrow> Some (Err e)
           | Ok inputs \<Rightarrow>
               (let (nets, l1) = tipi_root_networks root;
                    l2 = (if json_get root ''overrides'' \<noteq> None
                          then [NotModelled ''overrides'' [Txt ''declares architecture-specific overrides'']] else [])
                in case Option.bind (json_get root ''services'') json_array of
                     None \<Rightarrow> Some (Err NoServicesDeclared)
                   | Some [] \<Rightarrow> Some (Err NoServicesAtAll)
                   | Some srvs \<Rightarrow>
                       (let st = foldl (tipi_service env)
                              \<lparr>rt_limitations = input_limitations inputs @ l1 @ l2, rt_fields = input_fields inputs,
                               rt_clock = False, rt_planned = [], rt_main = 0\<rparr> srvs;
                            secrets = input_secrets inputs;
                            l3 = (if rt_main st \<noteq> 1
                                  then [NotModelled ''main service''
                                          [Txt (show_nat (rt_main st) @ '' services are marked as the main one'')]]
                                  else []);
                            fs = tipi_fields st secrets;
                            companion_names = map service_name
                              (filter (\<lambda>s. service_companion s \<noteq> None) (rt_planned st))
                        in Option.bind (fill_services (rt_planned st)) (\<lambda>planned.
                             Some (Ok (tipi_finish env i nets fs secrets planned
                               (rt_limitations st @ l3 @ undeclared_limitations fs secrets companion_names planned))))))))"

end
