(* ===== verification/Caprover.thy ===== *)
theory Caprover
  imports Importers
begin

text \<open>
  The importer of CapRover one-click apps, \<^verbatim>\<open>src/importers/caprover.rs\<close>: setup variables, validation
  patterns, generated secrets, the substitution of platform expressions, and the adapter that maps one
  definition onto a template or says why not.
\<close>

section \<open>Setup variables\<close>

datatype setup_input = Field_input setup_field | Secret_input secret_spec

definition normalized_key :: "string \<Rightarrow> string" where
  "normalized_key i = replace ''-'' ''_'' (uppercase i)"

text \<open>The characters a backslash may precede.\<close>

definition escapable :: string where
  "escapable = ''dDsSwW'' @ [backslash] @ ''.^$|?*+()[]{}-''"

fun convert_pattern :: "string \<Rightarrow> string option" where
  "convert_pattern [] = Some []"
| "convert_pattern (c # cs) =
     (if c = backslash then
        (case cs of
           [] \<Rightarrow> None
         | e # rest \<Rightarrow>
             if e = CHR ''/'' then map_option ((@) ''/'') (convert_pattern rest)
             else if e \<in> set escapable then map_option ((@) [backslash, e]) (convert_pattern rest)
             else None)
      else if c = CHR ''/'' then None
      else if c = CHR ''('' \<and> cs \<noteq> [] \<and> hd cs = CHR ''?'' then None
      else if code c < 32 \<or> code c = 127 then None
      else map_option ((#) c) (convert_pattern cs))"

definition unsupported_pattern :: string where
  "unsupported_pattern = ''Unsupported CapRover validation pattern''"

definition validation_pattern :: "setup_env \<Rightarrow> string \<Rightarrow> (string, field_kind) result" where
  "validation_pattern env literal =
     (if int (length literal) > 2048 \<or> \<not> list_all is_ascii literal then Err unsupported_pattern
      else
        and_then (ok_or (Option.bind (strip_prefix ''/'' literal) (strip_suffix ''/'')) unsupported_pattern) (\<lambda>body.
        and_then (ok_or (convert_pattern body) unsupported_pattern) (\<lambda>converted.
        and_then (map_err (\<lambda>_. unsupported_pattern) (compile_setup_pattern env converted)) (\<lambda>_.
          Ok (Pattern converted 0 4096)))))"

definition generated_secret :: "string \<Rightarrow> string \<Rightarrow> (string, secret_spec option) result" where
  "generated_secret k dflt =
     (if \<not> contains ''$$'' dflt then Ok None
      else
        and_then (ok_or
          (Option.bind (strip_prefix ''$$cap_gen_random_hex('' dflt) (\<lambda>v.
           Option.bind (strip_suffix '')'' v) (\<lambda>v.
           Option.bind (if v \<noteq> [] \<and> list_all is_digit v then Some v else None) (\<lambda>v.
           Option.bind (parse_usize v) (\<lambda>n. if 16 \<le> n \<and> n \<le> 256 then Some n else None)))))
          ''Unsupported generated-secret expression or length'') (\<lambda>len.
        if k = [] \<or> \<not> list_all (\<lambda>c. is_upper c \<or> is_digit c \<or> c = CHR ''_'') k \<or> is_digit (hd k)
        then Err ''Invalid generated-secret placeholder name''
        else Ok (Some \<lparr>secret_key = k, secret_length = len, secret_format = Hex\<rparr>)))"

definition variable_keys :: "string list" where
  "variable_keys = [''id'', ''label'', ''description'', ''defaultValue'', ''validRegex'']"

definition variable_id :: "(string \<times> json) list \<Rightarrow> string option" where
  "variable_id object =
     Option.bind (member_of object ''id'') (\<lambda>v.
     Option.bind (json_str v) (\<lambda>s.
     Option.bind (strip_prefix ''$$cap_'' s) (\<lambda>i.
       if i \<noteq> [] \<and> length i \<le> 100 \<and> list_all (\<lambda>b. is_alnum b \<or> b = CHR ''_'' \<or> b = CHR ''-'') i
       then Some i else None)))"

text \<open>The closure \<^verbatim>\<open>read\<close>.\<close>

definition read_text :: "(string \<times> json) list \<Rightarrow> string \<Rightarrow> (string, string option) result" where
  "read_text object name =
     (case member_of object name of
        None \<Rightarrow> Ok None
      | Some v \<Rightarrow> map_err (\<lambda>_. ''Setup metadata must be text'')
                    (and_then (ok_or (json_str v) ()) (\<lambda>s. Ok (Some s))))"

definition variable_default :: "(string \<times> json) list \<Rightarrow> (string, string option) result" where
  "variable_default object =
     (case member_of object ''defaultValue'' of
        None \<Rightarrow> Ok None
      | Some JNull \<Rightarrow> Ok None
      | Some (JString text) \<Rightarrow> Ok (Some text)
      | Some (JBool flag) \<Rightarrow> Ok (Some (bool_text flag))
      | Some (JNumber (Float _)) \<Rightarrow> Err ''Fractional default cannot be read back exactly''
      | Some (JNumber n) \<Rightarrow> Ok (Some (number_text n))
      | Some _ \<Rightarrow> Err ''Setup metadata must be text'')"

text \<open>A rule on a generated secret is honoured only when every value is proven to satisfy it.\<close>

definition secret_rule :: "setup_env \<Rightarrow> secret_spec \<Rightarrow> string option \<Rightarrow> string check" where
  "secret_rule env secret rule =
     (case rule of
        None \<Rightarrow> Ok ()
      | Some rule \<Rightarrow>
          and_then (validation_pattern env rule) (\<lambda>kind.
            (case kind of
               Pattern pattern _ _ \<Rightarrow>
                 ensure (every_value_matches secret pattern)
                   ''Generated secret is not proven to satisfy its validation rule''
             | _ \<Rightarrow> Err ''Generated secret with validation rule needs compatibility review'')))"

definition typed_field ::
  "setup_env \<Rightarrow> string \<Rightarrow> string \<Rightarrow> string option \<Rightarrow> string option \<Rightarrow> (string, setup_input) result" where
  "typed_field env k label dflt rule =
     and_then (case rule of None \<Rightarrow> Ok (Text 0 4096) | Some r \<Rightarrow> validation_pattern env r) (\<lambda>kind.
     and_then
       (case kind of
          Pattern pattern _ _ \<Rightarrow>
            and_then (map_err (\<lambda>e. if e = PatternTooLong then ''Setup validation pattern is too long''
                                   else ''Setup validation pattern uses unsupported syntax or exceeds limits'')
                        (compile_setup_pattern env pattern)) (\<lambda>matches. Ok (\<not> matches []))
        | _ \<Rightarrow> Ok False) (\<lambda>required.
     (let f = \<lparr>field_key = k, field_label = label, field_kind = kind, field_required = required,
               field_default = dflt, field_sensitive = True\<rparr>
      in case dflt of
           None \<Rightarrow> Ok (Field_input f)
         | Some d \<Rightarrow>
             and_then (map_err (\<lambda>_. ''Upstream default does not satisfy its setup rule'') (accept env f (Some d)))
               (\<lambda>_. Ok (Field_input f)))))"

definition setup_variable :: "setup_env \<Rightarrow> json \<Rightarrow> (string, setup_input) result" where
  "setup_variable env variable =
     and_then (ok_or (json_object variable) ''Expected setup variable object'') (\<lambda>object.
     if list_ex (\<lambda>(k, _). k \<notin> set variable_keys) object then Err ''Unsupported setup variable property''
     else
       and_then (ok_or (variable_id object) ''Invalid CapRover variable identifier'') (\<lambda>i.
       if i \<in> {''appname'', ''root_domain''} then Err ''Platform variable cannot be redeclared''
       else (let k = ''CAP_'' @ normalized_key i in
         and_then (read_text object ''label'') (\<lambda>l.
         (let label = (case l of Some t \<Rightarrow> t | None \<Rightarrow> i) in
          if length label > 256 then Err ''Setup label exceeds limit''
          else
            and_then (read_text object ''description'') (\<lambda>_.
            and_then (variable_default object) (\<lambda>dflt.
            and_then (read_text object ''validRegex'') (\<lambda>r.
            (let rule = (case r of Some t \<Rightarrow> if t \<noteq> [] then Some t else None | None \<Rightarrow> None) in
             and_then (case dflt of None \<Rightarrow> Ok None | Some d \<Rightarrow> generated_secret k d) (\<lambda>secret.
               (case secret of
                  Some s \<Rightarrow> and_then (secret_rule env s rule) (\<lambda>_. Ok (Secret_input s))
                | None \<Rightarrow> typed_field env k label dflt rule)))))))))))"

section \<open>The adapter's vocabulary\<close>

definition ROOT_KEYS :: "string list" where
  "ROOT_KEYS = [''captainVersion'', ''services'', ''caproverOneClickApp'', ''volumes'', ''networks'', ''version'']"

definition ONE_CLICK_KEYS :: "string list" where
  "ONE_CLICK_KEYS = [''instructions'', ''displayName'', ''description'', ''variables'', ''documentation'',
     ''isOfficial'', ''baseUrl'']"

definition SERVICE_KEYS :: "string list" where
  "SERVICE_KEYS = [''healthcheck'', ''image'', ''command'', ''entrypoint'', ''hostname'', ''environment'',
     ''volumes'', ''depends_on'', ''caproverExtra'', ''restart'', ''ports'', ''expose'', ''container_name'',
     ''documentation'']"

definition EXTRA_KEYS :: "string list" where
  "EXTRA_KEYS = [''notExposeAsWebApp'', ''containerHttpPort'', ''dockerfileLines'', ''websocketSupport'']"

definition UNMODELLED_SERVICE :: "(string \<times> string) list" where
  "UNMODELLED_SERVICE = [(''user'', ''runs as a specific user''), (''networks'', ''declares custom networks''),
     (''logging'', ''configures a log driver''), (''env_file'', ''reads environment from a file''),
     (''working_dir'', ''sets a working directory''), (''labels'', ''sets container labels''),
     (''stdin_open'', ''keeps standard input open''), (''tty'', ''allocates a terminal''),
     (''volume'', ''uses a misspelt volumes key'')]"

definition REFUSED_SERVICE :: "(string \<times> string) list" where
  "REFUSED_SERVICE = [(''cap_add'', ''adds Linux capabilities''), (''privileged'', ''runs privileged''),
     (''network_mode'', ''changes the network mode''), (''devices'', ''mounts host devices''),
     (''security_opt'', ''changes security options''), (''sysctls'', ''sets kernel parameters''),
     (''pid'', ''shares a process namespace'')]"

definition PUBLIC_DOMAIN :: string where "PUBLIC_DOMAIN = ''$$cap_root_domain''"
definition OWN_HOST :: string where "OWN_HOST = ''$$cap_appname.$$cap_root_domain''"

section \<open>Reading the variables\<close>

record declared_vars =
  var_fields :: "setup_field list"
  var_secrets :: "secret_spec list"
  var_placeholders :: "(string, string) btree"
  var_literals :: "(string, string) btree"

definition declared_default :: declared_vars where
  "declared_default = \<lparr>var_fields = [], var_secrets = [], var_placeholders = [], var_literals = []\<rparr>"

definition hole_for :: "string \<Rightarrow> string" where
  "hole_for k = ''${'' @ k @ ''}''"

definition declare_input :: "string \<Rightarrow> setup_input \<Rightarrow> declared_vars \<Rightarrow> declared_vars" where
  "declare_input i input d =
     (case input of
        Field_input f \<Rightarrow>
          d\<lparr>var_placeholders := bt_insert i (hole_for (field_key f)) (var_placeholders d),
            var_literals := (case field_default f of Some v \<Rightarrow> bt_insert i v (var_literals d) | None \<Rightarrow> var_literals d),
            var_fields := var_fields d @ [f]\<rparr>
      | Secret_input s \<Rightarrow>
          d\<lparr>var_placeholders := bt_insert i (hole_for (secret_key s)) (var_placeholders d),
            var_secrets := var_secrets d @ [s]\<rparr>)"

definition variable_limitation :: "json \<Rightarrow> string \<Rightarrow> limitation" where
  "variable_limitation variable reason =
     (if (case Option.bind (json_get variable ''defaultValue'') json_str of
            Some d \<Rightarrow> contains PUBLIC_DOMAIN d | None \<Rightarrow> False)
      then Refused ''public domain'' [Txt ''a setup value is built from the platform's own domain'']
      else NeedsInput ''setup variable'' [Txt reason])"

fun read_variable_list ::
  "setup_env \<Rightarrow> json list \<Rightarrow> string list \<Rightarrow> declared_vars \<Rightarrow> limitation list \<Rightarrow> declared_vars \<times> limitation list" where
  "read_variable_list env [] seen d lims = (d, lims)"
| "read_variable_list env (variable # rest) seen d lims =
     (case Option.bind (json_get variable ''id'') json_str of
        None \<Rightarrow> read_variable_list env rest seen d
                  (lims @ [NeedsInput ''setup variable'' [Txt ''a variable declares no id'']])
      | Some i \<Rightarrow>
          if normalized_key i \<in> set seen
          then read_variable_list env rest seen d
                 (lims @ [Refused ''setup variable''
                    [Txt ''declares '', Dbg i, Txt '' more than once, or twice under one key'']])
          else (case setup_variable env variable of
                  Ok input \<Rightarrow> read_variable_list env rest (normalized_key i # seen) (declare_input i input d) lims
                | Err reason \<Rightarrow> read_variable_list env rest (normalized_key i # seen) d
                                 (lims @ [variable_limitation variable reason])))"

definition read_variables :: "setup_env \<Rightarrow> (string \<times> json) list \<Rightarrow> declared_vars \<times> limitation list" where
  "read_variables env definition_object =
     (case Option.bind (member_of definition_object ''caproverOneClickApp'') json_object of
        None \<Rightarrow> (declared_default, [Refused ''caproverOneClickApp'' [Txt ''the definition declares no one-click block'']])
      | Some one_click \<Rightarrow>
          read_variable_list env
            (case Option.bind (member_of one_click ''variables'') json_array of Some vs \<Rightarrow> vs | None \<Rightarrow> []) []
            declared_default
            (map (\<lambda>(k, _). NotModelled ''one-click property'' [Txt ''declares unknown one-click property '', Dbg k])
              (filter (\<lambda>(k, _). k \<notin> set ONE_CLICK_KEYS) one_click)))"

section \<open>Platform expressions\<close>

definition rewrite_own_address :: "string \<Rightarrow> string" where
  "rewrite_own_address text =
     (let trimmed = (case strip_suffix ''/'' text of Some t \<Rightarrow> t | None \<Rightarrow> text);
          slash = (if ends_with ''/'' text then ''/'' else [])
      in if trimmed = ''https://'' @ OWN_HOST \<or> trimmed = ''http://'' @ OWN_HOST
         then hole_for PLATFORM_URL @ slash
         else if text = OWN_HOST then hole_for PLATFORM_HOST
         else text)"

datatype unfilled_reason = PublicDomain | UnknownExpression

fun replace_keys :: "string list \<Rightarrow> (string, string) btree \<Rightarrow> string \<Rightarrow> string" where
  "replace_keys [] values out = out"
| "replace_keys (k # ks) values out =
     replace_keys ks values (if contains k out then replace k (the (bt_get values k)) out else out)"

definition cap_substitute :: "string \<Rightarrow> (string, string) btree \<Rightarrow> (unfilled_reason, string) result" where
  "cap_substitute text values =
     (if contains PUBLIC_DOMAIN text then Err PublicDomain
      else (let out = replace_keys (sort_key (\<lambda>k. - int (length k)) (bt_keys values)) values text
            in if contains ''$$'' out then Err UnknownExpression else Ok out))"

definition unfilled :: "unfilled_reason \<Rightarrow> string \<Rightarrow> string \<Rightarrow> limitation" where
  "unfilled reason feat subject =
     (case reason of
        PublicDomain \<Rightarrow>
          Refused ''public domain'' [Txt (subject @ '' builds a public address from the platform's own domain'')]
      | UnknownExpression \<Rightarrow>
          NeedsInput feat [Txt (subject @ '' uses a platform expression this importer will not guess at'')])"

section \<open>One service\<close>

definition key_limitations :: "string \<Rightarrow> (string \<times> json) list \<Rightarrow> limitation list" where
  "key_limitations name service =
     concat (map (\<lambda>(k, _).
       if k \<in> set SERVICE_KEYS then []
       else (case map_of REFUSED_SERVICE k of
               Some why \<Rightarrow> [Refused k [Txt (name @ '' '' @ why)]]
             | None \<Rightarrow>
                 (case map_of UNMODELLED_SERVICE k of
                    Some why \<Rightarrow> [NotModelled k [Txt (name @ '' '' @ why)]]
                  | None \<Rightarrow> [NotModelled ''service property''
                              [Txt (name @ '' declares unknown property ''), Dbg k]]))) service)"

definition extra_limitations :: "string \<Rightarrow> (string \<times> json) list \<Rightarrow> limitation list" where
  "extra_limitations name extra =
     map (\<lambda>(k, _). NotModelled ''caproverExtra property''
                      [Txt (name @ '' declares unknown platform property ''), Dbg k])
       (filter (\<lambda>(k, _). k \<notin> set EXTRA_KEYS) extra)
     @ (if member_of extra ''dockerfileLines'' \<noteq> None
        then [Refused ''dockerfileLines'' [Txt (name @ '' is built from a Dockerfile rather than a published image'')]]
        else [])"

definition service_image_of ::
  "string \<Rightarrow> (string \<times> json) list \<Rightarrow> (string, string) btree \<Rightarrow> (limitation, string) result" where
  "service_image_of name service image_values =
     (case Option.bind (member_of service ''image'') json_str of
        Some img \<Rightarrow> map_err (\<lambda>reason. unfilled reason ''image'' name) (cap_substitute img image_values)
      | None \<Rightarrow> Err (Refused ''image'' [Txt (name @ '' declares no image to install'')]))"

definition scalar_text :: "json \<Rightarrow> string option" where
  "scalar_text v =
     (case v of
        JString t \<Rightarrow> Some t
      | JNumber n \<Rightarrow> Some (number_text n)
      | JBool b \<Rightarrow> Some (bool_text b)
      | JNull \<Rightarrow> Some []
      | _ \<Rightarrow> None)"

fun read_environment_pairs ::
  "string \<Rightarrow> (string, string) btree \<Rightarrow> (string \<times> json) list \<Rightarrow> (string \<times> string) list \<times> limitation list" where
  "read_environment_pairs name values [] = ([], [])"
| "read_environment_pairs name values ((k, v) # rest) =
     (let (env, lims) = read_environment_pairs name values rest
      in case scalar_text v of
           None \<Rightarrow> (env, NotModelled ''environment value'' [Txt (name @ '' sets '' @ k @ '' to a structured value'')] # lims)
         | Some text \<Rightarrow>
             (case cap_substitute (rewrite_own_address text) values of
                Ok filled \<Rightarrow> ((k, filled) # env, lims)
              | Err reason \<Rightarrow> (env, unfilled reason ''environment'' name # lims)))"

definition cap_environment ::
  "string \<Rightarrow> (string, string) btree \<Rightarrow> (string \<times> json) list \<Rightarrow> (string \<times> string) list \<times> limitation list" where
  "cap_environment name values service =
     (case member_of service ''environment'' of
        None \<Rightarrow> ([], [])
      | Some (JObject kvs) \<Rightarrow> read_environment_pairs name values kvs
      | Some _ \<Rightarrow> ([], [NotModelled ''environment''
                     [Txt (name @ '' declares environment in a form this importer does not read'')]]))"

fun cap_mounts ::
  "string \<Rightarrow> (string, string) btree \<Rightarrow> json list \<Rightarrow> string list \<Rightarrow> plan_mount list \<times> string list \<times> limitation list" where
  "cap_mounts name values [] volumes = ([], volumes, [])"
| "cap_mounts name values (m # rest) volumes =
     (let skip = (\<lambda>l. let (ms, vols, lims) = cap_mounts name values rest volumes in (ms, vols, l # lims))
      in case json_str m of
           None \<Rightarrow> skip (NotModelled ''volume'' [Txt (name @ '' declares a mount in long syntax'')])
         | Some text \<Rightarrow>
             (case split_once '':'' text of
                None \<Rightarrow> skip (Refused ''volume'' [Txt (name @ '' declares a bare mount'')])
              | Some (src, target) \<Rightarrow>
                  (let (target, ro) = (case strip_suffix '':ro'' target of Some p \<Rightarrow> (p, True) | None \<Rightarrow> (target, False))
                   in if starts_with ''/'' src \<or> starts_with ''.'' src
                      then skip (Refused ''host path'' [Txt (name @ '' mounts a path from this computer'')])
                      else (case cap_substitute src values of
                              Err reason \<Rightarrow> skip (unfilled reason ''volume'' name)
                            | Ok volume \<Rightarrow>
                                (let (ms, vols, lims) = cap_mounts name values rest
                                       (if volume \<in> set volumes then volumes else volumes @ [volume])
                                 in (Volume volume target ro # ms, vols, lims))))))"

record mapped_deps =
  wait_names :: "string list"
  wait_healthy :: "string list"
  wait_completed :: "string list"

fun map_dependencies ::
  "string \<Rightarrow> (string, string) btree \<Rightarrow> dependencies \<Rightarrow> string list \<Rightarrow> mapped_deps \<Rightarrow> mapped_deps \<times> limitation list" where
  "map_dependencies name names deps [] acc = (acc, [])"
| "map_dependencies name names deps (d # rest) acc =
     (case bt_get names d of
        Some mapped \<Rightarrow>
          map_dependencies name names deps rest
            \<lparr>wait_names = wait_names acc @ [mapped],
             wait_healthy = (if d \<in> set (dep_healthy deps) then bs_insert mapped (wait_healthy acc) else wait_healthy acc),
             wait_completed = (if d \<in> set (dep_completed deps) then bs_insert mapped (wait_completed acc)
                               else wait_completed acc)\<rparr>
      | None \<Rightarrow>
          (let (acc, lims) = map_dependencies name names deps rest acc
           in (acc, Refused ''depends_on''
                      [Txt (name @ '' waits on a service this definition does not declare'')] # lims)))"

definition cap_dependencies ::
  "string \<Rightarrow> (string, string) btree \<Rightarrow> (string \<times> json) list \<Rightarrow> mapped_deps \<times> limitation list" where
  "cap_dependencies name names service =
     (let (deps, lims) =
        (case dependencies_of (member_of service ''depends_on'') of
           Ok deps \<Rightarrow> (deps, [])
         | Err reason \<Rightarrow> (dependencies_default,
             [NotModelled ''depends_on'' [Txt (name @ '': '' @ dependency_text reason)]]));
        (acc, more) = map_dependencies name names deps (dep_names deps)
                        \<lparr>wait_names = [], wait_healthy = [], wait_completed = []\<rparr>
      in (acc, lims @ more))"

definition cap_args :: "(string, string) btree \<Rightarrow> json \<Rightarrow> plan_args option" where
  "cap_args values v =
     Option.bind (plan_args_of v) (\<lambda>args.
       (case args of
          Shell l \<Rightarrow> (case cap_substitute l values of Ok t \<Rightarrow> Some (Shell t) | Err _ \<Rightarrow> None)
        | Exec parts \<Rightarrow> (case map_ok (\<lambda>p. cap_substitute p values) parts of Ok ts \<Rightarrow> Some (Exec ts) | Err _ \<Rightarrow> None)))"

text \<open>One of \<^verbatim>\<open>command\<close> and \<^verbatim>\<open>entrypoint\<close>.\<close>

definition cap_startup ::
  "string \<Rightarrow> (string, string) btree \<Rightarrow> string \<Rightarrow> json option \<Rightarrow> plan_args option \<times> limitation list" where
  "cap_startup name values field v =
     (case v of
        None \<Rightarrow> (None, [])
      | Some v \<Rightarrow>
          (case cap_args values v of
             Some args \<Rightarrow> (Some args, [])
           | None \<Rightarrow> (None, [NotModelled field [Txt (name @ '' declares a '' @ field @ '' this importer cannot read'')]])))"

definition cap_health :: "import_env \<Rightarrow> string \<Rightarrow> json option \<Rightarrow> plan_healthcheck option \<times> limitation list" where
  "cap_health env name v =
     (case v of
        None \<Rightarrow> (None, [])
      | Some v \<Rightarrow>
          (case health_from_compose (read_health env v) of
             Ok check \<Rightarrow> (Some check, [])
           | Err reason \<Rightarrow> (None, [NotModelled ''healthcheck'' [Txt (name @ '': ''), Why (PlanRefused reason)]])))"

definition cap_hostname ::
  "string \<Rightarrow> (string, string) btree \<Rightarrow> json option \<Rightarrow> string option \<times> limitation list" where
  "cap_hostname name values v =
     (case v of
        None \<Rightarrow> (None, [])
      | Some v \<Rightarrow>
          (case json_str v of
             Some text \<Rightarrow>
               (case cap_substitute text values of
                  Ok h \<Rightarrow> (Some h, [])
                | Err reason \<Rightarrow> (None, [unfilled reason ''hostname'' name]))
           | None \<Rightarrow> (None, [NotModelled ''hostname'' [Txt (name @ '' declares a hostname this importer cannot read'')]])))"

definition hidden_service :: "(string \<times> json) list \<Rightarrow> bool option" where
  "hidden_service extra =
     (case member_of extra ''notExposeAsWebApp'' of
        None \<Rightarrow> Some False
      | Some (JBool flag) \<Rightarrow> Some flag
      | Some (JString text) \<Rightarrow>
          (let t = lowercase (trim text)
           in if t = ''true'' then Some True else if t = ''false'' then Some False else None)
      | Some _ \<Rightarrow> None)"

definition container_port :: "(string \<times> json) list \<Rightarrow> u16 option" where
  "container_port extra =
     Option.bind
       (case member_of extra ''containerHttpPort'' of
          None \<Rightarrow> Some 80
        | Some (JNumber (PosInt n)) \<Rightarrow> if n < 65536 then Some (of_nat n) else None
        | Some (JString text) \<Rightarrow> parse_u16 text
        | Some _ \<Rightarrow> None) (\<lambda>port. if 0 < port then Some port else None)"

section \<open>The definition\<close>

record import_state =
  st_limitations :: "limitation list"
  st_services :: "plan_service list"
  st_volumes :: "string list"
  st_endpoints :: "(string \<times> u16) list"
  st_dropped :: nat

definition report :: "limitation list \<Rightarrow> import_state \<Rightarrow> import_state" where
  "report lims st = st\<lparr>st_limitations := st_limitations st @ lims\<rparr>"

definition drop_service :: "import_state \<Rightarrow> import_state" where
  "drop_service st = st\<lparr>st_dropped := st_dropped st + 1\<rparr>"

definition cap_endpoint :: "string \<Rightarrow> (string \<times> json) list \<Rightarrow> (string \<times> json) list \<Rightarrow> import_state \<Rightarrow> import_state" where
  "cap_endpoint name service extra st =
     (case hidden_service extra of
        None \<Rightarrow> report [Refused ''notExposeAsWebApp''
                        [Txt (name @ '' declares web exposure in a form this importer cannot read'')]] st
      | Some hidden \<Rightarrow>
          (let st = (if hidden then st
                     else (case container_port extra of
                             Some port \<Rightarrow> st\<lparr>st_endpoints := st_endpoints st @ [(name, port)]\<rparr>
                           | None \<Rightarrow> report [Refused ''containerHttpPort''
                                            [Txt (name @ '' declares a port this importer cannot read'')]] st))
           in if member_of service ''ports'' \<noteq> None \<or> member_of service ''expose'' \<noteq> None
              then report [Refused ''ports'' [Txt (name @ '' publishes ports of its own beside the platform endpoint'')]] st
              else st))"

definition service_extra :: "(string \<times> json) list \<Rightarrow> (string \<times> json) list" where
  "service_extra service =
     (case Option.bind (member_of service ''caproverExtra'') json_object of Some kvs \<Rightarrow> kvs | None \<Rightarrow> [])"

definition import_named_service ::
  "import_env \<Rightarrow> (string, string) btree \<Rightarrow> (string, string) btree \<Rightarrow> (string, string) btree
   \<Rightarrow> string \<Rightarrow> (string \<times> json) list \<Rightarrow> import_state \<Rightarrow> import_state" where
  "import_named_service env names values image_values name service st =
     (let extra = service_extra service;
          st = report (key_limitations name service @ extra_limitations name extra) st
      in case service_image_of name service image_values of
           Err lim \<Rightarrow> drop_service (report [lim] st)
         | Ok img \<Rightarrow>
             (let (env_pairs, l1) = cap_environment name values service;
                  (ms, vols, l2) = cap_mounts name values
                    (case Option.bind (member_of service ''volumes'') json_array of Some xs \<Rightarrow> xs | None \<Rightarrow> [])
                    (st_volumes st);
                  (deps, l3) = cap_dependencies name names service;
                  (health, l4) = cap_health env name (member_of service ''healthcheck'');
                  (cmd, l5) = cap_startup name values ''command'' (member_of service ''command'');
                  (entry, l6) = cap_startup name values ''entrypoint'' (member_of service ''entrypoint'');
                  (hname, l7) = cap_hostname name values (member_of service ''hostname'');
                  made = \<lparr>service_name = name, service_image = img, digest = None, environment = env_pairs,
                    service_companion = None, networks = [], service_published = None, mounts = ms,
                    depends_on = wait_names deps,
                    overrides = overrides_default\<lparr>healthy_dependencies := wait_healthy deps,
                      completed_dependencies := wait_completed deps, healthcheck := health,
                      command := cmd, entrypoint := entry, hostname := hname\<rparr>\<rparr>;
                  st = cap_endpoint name service extra
                         (report (l1 @ l2 @ l3 @ l4 @ l5 @ l6 @ l7) (st\<lparr>st_volumes := vols\<rparr>))
              in st\<lparr>st_services := st_services st @ [made]\<rparr>))"

fun import_services ::
  "import_env \<Rightarrow> (string, string) btree \<Rightarrow> (string, string) btree \<Rightarrow> (string, string) btree
   \<Rightarrow> (string \<times> json) list \<Rightarrow> import_state \<Rightarrow> import_state" where
  "import_services env names values image_values [] st = st"
| "import_services env names values image_values ((platform, service) # rest) st =
     import_services env names values image_values rest
       (case json_object service of
          None \<Rightarrow> drop_service (report [Refused ''service'' [Txt ''declares a service that is not an object'']] st)
        | Some object \<Rightarrow>
            (case bt_get names platform of
               None \<Rightarrow> drop_service st
             | Some name \<Rightarrow> import_named_service env names values image_values name object st))"

fun map_names ::
  "string \<Rightarrow> (string \<times> json) list \<Rightarrow> (string, string) btree \<Rightarrow> (string, string) btree \<times> limitation list" where
  "map_names i [] names = (names, [])"
| "map_names i ((platform, _) # rest) names =
     (case (if platform = ''$$cap_appname'' then Some i else strip_prefix ''$$cap_appname-'' platform) of
        Some mapped \<Rightarrow> map_names i rest (bt_insert platform mapped names)
      | None \<Rightarrow>
          (let (names, lims) = map_names i rest names
           in (names, Refused ''service name'' [Txt ''names a service outside this app's own namespace''] # lims)))"

fun publish_on :: "string \<Rightarrow> published_port \<Rightarrow> plan_service list \<Rightarrow> plan_service list" where
  "publish_on n port [] = []"
| "publish_on n port (s # ss) =
     (if service_name s = n then s\<lparr>service_published := Some port\<rparr> # ss else s # publish_on n port ss)"

definition choose_endpoint :: "import_state \<Rightarrow> import_state" where
  "choose_endpoint st =
     (case st_endpoints st of
        [(service, port)] \<Rightarrow>
          st\<lparr>st_services := publish_on service
               \<lparr>host = preferred_host_port port, container = port\<rparr> (st_services st)\<rparr>
      | [] \<Rightarrow>
          if st_dropped st = 0
          then report [Refused ''endpoint'' [Txt ''declares no web endpoint, so there would be nothing to open'']] st
          else st
      | many \<Rightarrow>
          report [Refused ''endpoint''
            [Txt (''declares '' @ show_nat (length many) @ '' web endpoints and the plan model publishes one'')]] st)"

definition version_is_four :: "(string \<times> json) list \<Rightarrow> bool" where
  "version_is_four root =
     (case member_of root ''captainVersion'' of
        Some (JNumber (PosInt n)) \<Rightarrow> n = 4
      | Some (JString t) \<Rightarrow> t = ''4''
      | Some (JNumber (Float t)) \<Rightarrow> t = ''4.0''
      | _ \<Rightarrow> False)"

definition root_limitations :: "(string \<times> json) list \<Rightarrow> limitation list" where
  "root_limitations root =
     (if version_is_four root then []
      else [Refused ''captainVersion'' [Txt ''declares a captainVersion this importer does not understand'']])
     @ map (\<lambda>(k, _). NotModelled ''root property'' [Txt ''declares unknown root property '', Dbg k])
         (filter (\<lambda>(k, _). k \<notin> set ROOT_KEYS) root)
     @ (if member_of root ''networks'' \<noteq> None
        then [Refused ''networks'' [Txt ''declares custom networks, which the managed project does not model'']]
        else [])"

definition referenced :: "deployment_plan \<Rightarrow> string \<Rightarrow> bool" where
  "referenced plan k =
     list_ex (\<lambda>s. list_ex (\<lambda>(_, v). contains (hole_for k) v) (environment s)) (services plan)"

definition import_finish :: "import_env \<Rightarrow> string \<Rightarrow> declared_vars \<Rightarrow> import_state \<Rightarrow> import_outcome" where
  "import_finish env i vars st =
     (if st_limitations st \<noteq> []
      then \<lparr>import_id = i, import_template = None, limitations = st_limitations st\<rparr>
      else
        (let plan = \<lparr>plan_id = i, services = st_services st, named_volumes = sort (st_volumes st),
                     internal_networks = []\<rparr>;
             t = \<lparr>template_plan = plan,
                  template_fields = filter (\<lambda>f. referenced plan (field_key f)) (var_fields vars),
                  template_secrets = filter (\<lambda>s. referenced plan (secret_key s)) (var_secrets vars),
                  template_seeds = [], first_start = None\<rparr>;
             lims = (case template_validate (base_env env) t of
                       Err reason \<Rightarrow> [Refused ''plan rule'' [Why reason]]
                     | Ok _ \<Rightarrow>
                         (case to_compose plan of
                            Err reason \<Rightarrow> [Refused ''plan rule'' [Why (PlanRefused reason)]]
                          | Ok _ \<Rightarrow> []))
         in \<lparr>import_id = i, import_template = (if lims = [] then Some t else None), limitations = lims\<rparr>))"

definition cap_import :: "import_env \<Rightarrow> string \<Rightarrow> string \<Rightarrow> (import_error, import_outcome) result" where
  "cap_import env i text =
     and_then (ok_or (parse_json env text) Unreadable) (\<lambda>value.
     and_then (ok_or (json_object value) NotAnObject) (\<lambda>root.
     (let (vars, variable_lims) = read_variables (base_env env) root
      in and_then (ok_or (Option.bind (member_of root ''services'') json_object) NoServicesDeclared) (\<lambda>srvs.
           (let (names, name_lims) = map_names i srvs [];
                values = bt_insert ''$$cap_appname'' i
                  (foldl (\<lambda>m (platform, mapped). bt_insert (''srv-captain--'' @ platform) mapped m)
                     (var_placeholders vars) names);
                image_values = bt_insert ''$$cap_appname'' i (var_literals vars);
                st = import_services env names values image_values srvs
                  \<lparr>st_limitations = root_limitations root @ variable_lims @ name_lims, st_services = [],
                   st_volumes = [], st_endpoints = [], st_dropped = 0\<rparr>
            in Ok (import_finish env i vars (choose_endpoint st)))))))"

end
