(* ===== verification/Setup_Props.thy ===== *)
theory Setup_Props
  imports Setup Plan_Props
begin

text \<open>
  Properties of setup templates: substitution works piece by piece, a valid template is closed under
  its own declarations, resolution fills exactly the declared values and cannot miss one, the review
  does not depend on what is sensitive, and seed files stay in the data folder.
\<close>

section \<open>Substitution, piece by piece\<close>

text \<open>The grammar of a value: literal text and holes.\<close>

datatype piece = Lit string | Hole string "string option"

lemma split_once_shorter: "split_once p s = Some (a, r) \<Longrightarrow> length r \<le> length s - length p"
  by (auto dest: split_once_Some)

function pieces :: "string \<Rightarrow> piece list" where
  "pieces s =
     (case split_once ''${'' s of
        None \<Rightarrow> [Lit s]
      | Some (a, r) \<Rightarrow>
          (case split_once ''}'' r of
             None \<Rightarrow> [Lit s]
           | Some (inner, rest) \<Rightarrow>
               Lit a # (case key_default inner of (k, d) \<Rightarrow>
                          if is_key k then Hole k d else Lit (''${'' @ inner @ ''}'')) # pieces rest))"
  by pat_completeness auto
termination
  by (relation "measure length") (auto dest!: split_once_shorter split_once_Some)

declare pieces.simps [simp del]

fun fill_pieces :: "(string \<Rightarrow> string option \<Rightarrow> string option) \<Rightarrow> piece list \<Rightarrow> (string, string) result" where
  "fill_pieces source [] = Ok []"
| "fill_pieces source (Lit t # ps) = and_then (fill_pieces source ps) (\<lambda>rest. Ok (t @ rest))"
| "fill_pieces source (Hole k d # ps) =
     (case source k d of
        None \<Rightarrow> Err k
      | Some r \<Rightarrow> and_then (fill_pieces source ps) (\<lambda>rest. Ok (r @ rest)))"

definition holes :: "string \<Rightarrow> (string \<times> string option) list" where
  "holes v = map (\<lambda>p. (hole_key p, hole_default p)) (placeholders v)"

text \<open>One step of the scanner, on the rest of the value.\<close>

lemma find_split_once: "find_str p s = Some i \<Longrightarrow> split_once p s = Some (take i s, drop (i + length p) s)"
  by (simp add: split_once_def)

lemma substitute_loop_out:
  "substitute_loop source v (a @ out) cursor ps = and_then (substitute_loop source v out cursor ps) (\<lambda>t. Ok (a @ t))"
  by (induction ps arbitrary: out cursor) (auto split: option.splits)

lemma substitute_loop_moved:
  assumes "cursor \<le> index" "index \<le> length v" "list_all (\<lambda>p. index \<le> hole_start p) ps"
  shows "substitute_loop source v [] cursor ps
    = and_then (substitute_loop source v [] index ps) (\<lambda>t. Ok (slice cursor index v @ t))"
proof -
  have part: "slice cursor k v = slice cursor index v @ slice index k v" if "index \<le> k" for k
  proof -
    have "k - cursor = (index - cursor) + (k - index)" using assms(1) that by simp
    then show ?thesis using assms(1) by (simp only: slice_def take_add) (simp add: add.commute)
  qed
  show ?thesis
  proof (cases ps)
    case Nil
    have "drop cursor v = slice cursor index v @ drop index v"
      using assms(1) append_take_drop_id [of "index - cursor" "drop cursor v"] by (simp add: slice_def)
    with Nil show ?thesis by simp
  next
    case (Cons p ps')
    then have "index \<le> hole_start p" using assms(3) by simp
    from part [OF this] show ?thesis
      unfolding Cons by (auto simp: substitute_loop_out [of _ _ "slice cursor index v", simplified] split: option.splits)
  qed
qed

lemma placeholders_from_end: "length v \<le> index \<Longrightarrow> placeholders_from v index = []"
  by (subst placeholders_from.simps) simp

lemma split_once_iff: "split_once p s = Some (a, r) \<longleftrightarrow> find_str p s = Some (length a) \<and> s = a @ p @ r"
proof
  assume h: "split_once p s = Some (a, r)"
  then obtain i where i: "find_str p s = Some i" "a = take i s"
    by (auto simp: split_once_def split: option.splits)
  then have "length a = i" using find_str_Some_split [OF i(1)] by simp
  with i(1) split_once_Some [OF h] show "find_str p s = Some (length a) \<and> s = a @ p @ r" by blast
qed (auto simp: split_once_def)

text \<open>The scanner at one position, in terms of the rest of the value.\<close>

lemma scan_none:
  "split_once ''${'' (drop index v) = None \<Longrightarrow> placeholders_from v index = []"
  by (subst placeholders_from.simps) (simp add: split_once_def split: option.splits)

lemma scan_open:
  assumes "drop index v = a @ ''${'' @ r" "find_str ''${'' (drop index v) = Some (length a)"
  shows "placeholders_from v index =
    (case split_once ''}'' r of
       None \<Rightarrow> []
     | Some (inner, rest) \<Rightarrow>
         (let stop = index + length a + length inner + 3; (k, d) = key_default inner
          in (if is_key k then [\<lparr>hole_key = k, hole_default = d, hole_start = index + length a, hole_stop = stop\<rparr>] else [])
             @ placeholders_from v stop))"
proof -
  have at: "drop (index + length a + k) v = drop k (''${'' @ r)" for k
    using arg_cong [OF assms(1), of "drop (length a + k)"] by (simp add: add.assoc add.commute add.left_commute)
  from at [of 0] have close: "find_str ''}'' (drop (index + length a) v) = map_option (\<lambda>i. i + 2) (find_str ''}'' r)"
    by (simp add: option.map_comp comp_def)
  show ?thesis
  proof (cases "split_once ''}'' r")
    case None
    then have "find_str ''}'' r = None" by (simp add: split_once_def split: option.splits)
    with None close assms(2) show ?thesis by (subst placeholders_from.simps) simp
  next
    case (Some ir)
    obtain inner rest where ir: "ir = (inner, rest)" by (cases ir)
    have r: "find_str ''}'' r = Some (length inner)" "r = inner @ ''}'' @ rest"
      using Some unfolding ir split_once_iff by blast+
    have inner: "slice (index + length a + 2) (index + length a + (length inner + 2)) v = inner"
      using at [of 2] by (simp add: slice_def r(2))
    have "(if length v \<le> stop then [] else placeholders_from v stop) = placeholders_from v stop" for stop
      by (simp add: placeholders_from_end)
    then show ?thesis
      using Some close assms(2) inner
      by (subst placeholders_from.simps) (simp add: ir r(1) Let_def add.assoc numeral_3_eq_3 split: prod.split)
  qed
qed

lemma placeholders_from_starts: "list_all (\<lambda>p. index \<le> hole_start p) (placeholders_from v index)"
proof (induction "length v - index" arbitrary: index rule: less_induct)
  case less
  show ?case
  proof (cases "split_once ''${'' (drop index v)")
    case (Some ar)
    obtain a r where ar: "ar = (a, r)" by (cases ar)
    have o: "drop index v = a @ ''${'' @ r" "find_str ''${'' (drop index v) = Some (length a)"
      using Some by (auto simp: ar split_once_iff)
    then have "index < length v" by (metis drop_all append_is_Nil_conv list.distinct(1) not_le)
    then have "list_all (\<lambda>p. index \<le> hole_start p) (placeholders_from v stop)" if "index < stop" for stop
      using less [of stop] that by (fastforce simp: list_all_iff)
    then show ?thesis unfolding scan_open [OF o] by (auto simp: Let_def split: option.split prod.split)
  qed (simp add: scan_none)
qed

lemma substitute_loop_pieces:
  "index \<le> length v \<Longrightarrow>
   substitute_loop source v [] index (placeholders_from v index) = fill_pieces source (pieces (drop index v))"
proof (induction "length v - index" arbitrary: index rule: less_induct)
  case less
  show ?case
  proof (cases "split_once ''${'' (drop index v)")
    case None
    then show ?thesis by (subst pieces.simps) (simp add: scan_none)
  next
    case (Some ar)
    obtain a r where ar: "ar = (a, r)" by (cases ar)
    have o: "drop index v = a @ ''${'' @ r" "find_str ''${'' (drop index v) = Some (length a)"
      using Some by (auto simp: ar split_once_iff)
    note scan = scan_open [OF o]
    show ?thesis
    proof (cases "split_once ''}'' r")
      case None
      then show ?thesis using Some unfolding scan by (subst pieces.simps) (simp add: ar)
    next
      case (Some ir)
      obtain inner rest where ir: "ir = (inner, rest)" by (cases ir)
      let ?stop = "index + length a + length inner + 3"
      have r: "r = inner @ ''}'' @ rest" using Some by (simp add: ir split_once_iff)
      obtain k d where kd: "key_default inner = (k, d)" by (cases "key_default inner")
      have v: "drop index v = a @ ''${'' @ inner @ ''}'' @ rest" using o(1) r by simp
      have len: "length v = index + length (a @ ''${'' @ inner @ ''}'' @ rest)"
        using arg_cong [OF v, of length] less.prems by simp
      then have stop: "?stop \<le> length v" "index < ?stop" by simp_all
      have group: "a @ ''${'' @ inner @ ''}'' = take (length (a @ ''${'' @ inner @ ''}'')) (drop index v)"
          "rest = drop (length (a @ ''${'' @ inner @ ''}'')) (drop index v)"
        using append_eq_conv_conj [of "a @ ''${'' @ inner @ ''}''" rest "drop index v"] v by simp_all
      have width: "?stop = length (a @ ''${'' @ inner @ ''}'') + index" by simp
      have rest: "drop ?stop v = rest" unfolding group(2) width by (simp only: drop_drop)
      have IH: "substitute_loop source v [] ?stop (placeholders_from v ?stop) = fill_pieces source (pieces rest)"
        using less(1) [of ?stop] stop unfolding rest by simp
      have moved: "substitute_loop source v [] c (placeholders_from v ?stop)
          = and_then (fill_pieces source (pieces rest)) (\<lambda>t. Ok (slice c ?stop v @ t))" if "c \<le> ?stop" for c
        using substitute_loop_moved [OF that stop(1) placeholders_from_starts] IH by simp
      have whole: "slice index ?stop v = a @ ''${'' @ inner @ ''}''"
        unfolding width slice_def by (simp only: group(1) [symmetric] add_diff_cancel_right')
      have lit: "slice index (index + length a) v = a" using v by (simp add: slice_def)
      have shape: "pieces (drop index v) = Lit a # (if is_key k then Hole k d else Lit (''${'' @ inner @ ''}'')) # pieces rest"
        using \<open>split_once ''${'' (drop index v) = Some ar\<close> Some by (subst pieces.simps) (simp add: ar ir kd)
      have phs: "placeholders_from v index =
          (if is_key k then [\<lparr>hole_key = k, hole_default = d, hole_start = index + length a, hole_stop = ?stop\<rparr>] else [])
          @ placeholders_from v ?stop"
        unfolding scan by (simp add: Some ir kd Let_def)
      show ?thesis
      proof (cases "is_key k")
        case True
        have out: "substitute_loop source v (a @ t) ?stop (placeholders_from v ?stop)
            = and_then (fill_pieces source (pieces rest)) (\<lambda>u. Ok ((a @ t) @ u))" for t
          using substitute_loop_out [of source v "a @ t" "[]" ?stop "placeholders_from v ?stop"] by (simp only: IH append_Nil2)
        show ?thesis
          unfolding phs shape using True
          by (simp add: lit out and_then_def split: option.split result.split)
      next
        case False
        then show ?thesis
          using moved [of index] stop(2)
          unfolding phs shape by (simp add: whole and_then_def split: result.splits)
      qed
    qed
  qed
qed

lemma substitute_pieces:
  "substitute v answers secrets = fill_pieces (source_of answers secrets) (pieces v)"
proof -
  have "substitute v answers secrets = substitute_loop (source_of answers secrets) v [] 0 (placeholders_from v 0)"
    by (simp add: substitute_def placeholders_def Let_def)
  then show ?thesis using substitute_loop_pieces [of 0 v] by simp
qed

text \<open>Substitution is piecewise: the scan with byte positions computes exactly what filling the pieces of the
  value does, literal text is copied, each hole is replaced by its source, and the first hole without a
  source is the error.\<close>

theorem substitute_is_piecewise:
  "substitute v answers secrets = fill_pieces (source_of answers secrets) (pieces v)"
  by (rule substitute_pieces)

section \<open>A valid template is closed\<close>

lemma position_first: "position p xs = Some i \<Longrightarrow> j < i \<Longrightarrow> \<not> p (xs ! j)"
proof (induction xs arbitrary: i j)
  case (Cons x xs)
  then show ?case by (cases j) (auto split: if_splits)
qed simp

lemma mark_used_Ok:
  "mark_used fault names ks used = Ok used' \<Longrightarrow> set ks \<subseteq> set names \<and> length used' = length used
   \<and> (\<forall>i < length used. used' ! i \<longleftrightarrow> used ! i \<or> (\<exists>k \<in> set ks. position (\<lambda>d. d = k) names = Some i))"
proof (induction fault names ks used rule: mark_used.induct)
  case (2 fault names k ks used)
  then obtain i where i: "position (\<lambda>d. d = k) names = Some i" "mark_used fault names ks (used[i := True]) = Ok used'"
    by (auto split: option.splits)
  then have "k \<in> set names" using position_Some [OF i(1)] by auto
  moreover have "used[i := True] ! j \<longleftrightarrow> used ! j \<or> j = i" if "j < length used" for j
    using that by (cases "j = i") auto
  ultimately show ?case using 2(1) [OF i] i(1) by auto
qed simp

definition own_key :: "string \<Rightarrow> bool" where
  "own_key k = (k \<notin> set PLATFORM_KEYS \<and> companion_service k = None)"

lemma mark_environment_Ok:
  "mark_environment names offered ks used = Ok used' \<Longrightarrow>
   mark_used NoSource names (filter own_key ks) used = Ok used'
   \<and> (\<forall>k \<in> set ks. own_key k \<or> k \<in> set PLATFORM_KEYS \<or> (\<exists>w \<in> set offered. companion_service k = Some w))"
proof (induction names offered ks used rule: mark_environment.induct)
  case (2 names offered k ks used)
  show ?case
  proof (cases "k \<in> set PLATFORM_KEYS")
    case True
    with 2 show ?thesis by (auto simp: own_key_def)
  next
    case platform: False
    show ?thesis
    proof (cases "companion_service k")
      case None
      with platform 2(4) obtain used1 where m: "mark_used NoSource names [k] used = Ok used1"
        "mark_environment names offered ks used1 = Ok used'"
        by (auto simp: and_then_Ok_iff simp del: mark_used.simps)
      from 2(2) [OF platform None m(2)] m(1) platform None show ?thesis
        by (auto simp: own_key_def split: option.splits)
    next
      case (Some w)
      with platform 2(3,4) show ?thesis by (auto simp: own_key_def split: if_splits)
    qed
  qed
qed simp

lemma marks_distinct:
  assumes "\<forall>i < length names. \<exists>k. position (\<lambda>d. d = k) names = Some i"
  shows "distinct names"
  unfolding distinct_conv_nth
proof (intro allI impI)
  fix i j assume ij: "i < length names" "j < length names" "i \<noteq> j"
  have "names ! a \<noteq> names ! b" if ab: "a < b" "b < length names" for a b
  proof -
    obtain k where k: "position (\<lambda>d. d = k) names = Some b" using assms ab(2) by blast
    from position_Some [OF k] position_first [OF k ab(1)] show ?thesis by simp
  qed
  with ij show "names ! i \<noteq> names ! j" by (metis linorder_neq_iff)
qed

lemma template_validate_Ok:
  assumes "template_validate env t = Ok u"
  obtains used used' where
    "each (field_validate env) (template_fields t) = Ok ()"
    "each (secret_validate (template_fields t)) (template_secrets t) = Ok ()"
    "mark_used FolderUndeclared (declared t) (mount_keys t) (replicate (length (declared t)) False) = Ok used"
    "each command_validate (services (template_plan t)) = Ok ()"
    "mark_environment (declared t) (map (\<lambda>(s, q). companion_suffix (service_name s)) (companions (template_plan t)))
       (environment_keys t) used = Ok used'"
    "position (\<lambda>u. \<not> u) used' = None" "validate (template_plan t) = Ok ()"
    "length (template_seeds t) \<le> MAX_SEEDS" "seeds_validate [] (template_seeds t) = Ok ()"
  using assms unfolding template_validate_def
  by (auto simp: and_then_Ok_iff map_err_Ok_iff split: if_splits option.splits)

lemma declared_keys:
  assumes "each (field_validate env) (template_fields t) = Ok u"
    and "each (secret_validate (template_fields t)) (template_secrets t) = Ok u'"
    and "k \<in> set (declared t)"
  shows "is_key k \<and> \<not> is_reserved_key k"
  using assms
  by (auto simp: each_Ok_iff declared_def field_validate_def secret_validate_def and_then_Ok_iff split: if_splits)

lemma template_validate_closed:
  assumes "template_validate env t = Ok ()"
  shows "distinct (declared t)
    \<and> set (declared t) = set (mount_keys t) \<union> set (filter own_key (environment_keys t))
    \<and> (\<forall>k \<in> set (declared t). is_key k \<and> \<not> is_reserved_key k)
    \<and> (\<forall>k \<in> set (environment_keys t). own_key k \<or> k \<in> set PLATFORM_KEYS
         \<or> (\<exists>(s, q) \<in> set (companions (template_plan t)). companion_service k = Some (companion_suffix (service_name s))))
    \<and> (\<forall>s \<in> set (services (template_plan t)). \<forall>part \<in> set (command_parts s). placeholders part = [])
    \<and> validate (template_plan t) = Ok ()"
proof -
  obtain used used' where v:
    "each (field_validate env) (template_fields t) = Ok ()"
    "each (secret_validate (template_fields t)) (template_secrets t) = Ok ()"
    "mark_used FolderUndeclared (declared t) (mount_keys t) (replicate (length (declared t)) False) = Ok used"
    "each command_validate (services (template_plan t)) = Ok ()"
    "mark_environment (declared t) (map (\<lambda>(s, q). companion_suffix (service_name s)) (companions (template_plan t)))
       (environment_keys t) used = Ok used'"
    "position (\<lambda>u. \<not> u) used' = None" "validate (template_plan t) = Ok ()"
    by (rule template_validate_Ok [OF assms])
  note m = mark_used_Ok [OF v(3)]
  note e = mark_environment_Ok [OF v(5)]
  note m' = mark_used_Ok [OF e [THEN conjunct1]]
  have all: "\<exists>k \<in> set (mount_keys t) \<union> set (filter own_key (environment_keys t)). position (\<lambda>d. d = k) (declared t) = Some i"
    if "i < length (declared t)" for i
  proof -
    have "used' ! i" using v(6) m m' that by (simp add: position_None_iff all_set_conv_all_nth)
    with m m' that show ?thesis by auto
  qed
  then have "distinct (declared t)" by (intro marks_distinct) blast
  moreover have "set (declared t) = set (mount_keys t) \<union> set (filter own_key (environment_keys t))"
  proof
    show "set (declared t) \<subseteq> set (mount_keys t) \<union> set (filter own_key (environment_keys t))"
    proof
      fix k assume "k \<in> set (declared t)"
      then obtain i where i: "i < length (declared t)" "declared t ! i = k" by (auto simp: in_set_conv_nth)
      from all [OF i(1)] i(2) show "k \<in> set (mount_keys t) \<union> set (filter own_key (environment_keys t))"
        by (auto dest: position_Some)
    qed
  qed (use m m' in blast)
  moreover have "placeholders part = []" if "s \<in> set (services (template_plan t))" "part \<in> set (command_parts s)" for s part
    using v(4) that by (cases "placeholders part") (fastforce simp: each_Ok_iff command_validate_def)+
  moreover have "own_key k \<or> k \<in> set PLATFORM_KEYS
      \<or> (\<exists>(s, q) \<in> set (companions (template_plan t)). companion_service k = Some (companion_suffix (service_name s)))"
    if "k \<in> set (environment_keys t)" for k
    using e that by (auto simp: split_beta)
  ultimately show ?thesis using declared_keys [OF v(1,2)] v(7) by blast
qed

text \<open>Claim C35. A valid template is closed: its keys are distinct, well formed and not the installer's, every one of
  them is asked for by an environment value or a shared folder, every placeholder in an environment value
  is declared, the installer's, or a second address some service publishes, every placeholder in a shared
  folder is declared, no command holds one, and the plan itself is valid.\<close>

theorem template_closed:
  assumes "template_validate env t = Ok ()"
  shows "distinct (declared t)
    \<and> set (declared t) = set (mount_keys t) \<union> set (filter own_key (environment_keys t))
    \<and> (\<forall>k \<in> set (declared t). is_key k \<and> \<not> is_reserved_key k)
    \<and> (\<forall>k \<in> set (environment_keys t). own_key k \<or> k \<in> set PLATFORM_KEYS
         \<or> (\<exists>(s, q) \<in> set (companions (template_plan t)). companion_service k = Some (companion_suffix (service_name s))))
    \<and> (\<forall>s \<in> set (services (template_plan t)). \<forall>part \<in> set (command_parts s). placeholders part = [])
    \<and> validate (template_plan t) = Ok ()"
  using template_validate_closed [OF assms] .

section \<open>Resolution fills every declared value\<close>

lemma substitute_loop_total:
  "\<forall>p \<in> set ps. source (hole_key p) (hole_default p) \<noteq> None \<Longrightarrow> \<exists>t. substitute_loop source v out cursor ps = Ok t"
  by (induction ps arbitrary: out cursor) auto

text \<open>The value with every hole filled.\<close>

definition piece_text :: "(string \<Rightarrow> string option \<Rightarrow> string option) \<Rightarrow> piece \<Rightarrow> string" where
  "piece_text source p =
     (case p of Lit t \<Rightarrow> t | Hole k d \<Rightarrow> (case source k d of Some r \<Rightarrow> r | None \<Rightarrow> []))"

definition filled :: "(string \<Rightarrow> string option \<Rightarrow> string option) \<Rightarrow> string \<Rightarrow> string" where
  "filled source v = concat (map (piece_text source) (pieces v))"

lemma fill_pieces_Ok: "fill_pieces source ps = Ok t \<Longrightarrow> t = concat (map (piece_text source) ps)"
  by (induction source ps arbitrary: t rule: fill_pieces.induct)
     (auto simp: piece_text_def and_then_Ok_iff split: option.splits)

lemma substitute_filled:
  assumes "\<forall>p \<in> set (placeholders v). source_of answers secrets (hole_key p) (hole_default p) \<noteq> None"
  shows "substitute v answers secrets = Ok (filled (source_of answers secrets) v)"
proof -
  have "\<exists>t. substitute v answers secrets = Ok t"
    using substitute_loop_total [OF assms] by (simp add: substitute_def Let_def)
  then show ?thesis unfolding substitute_pieces filled_def using fill_pieces_Ok by blast
qed

lemma accept_fields_accepted:
  "accept_fields env answers fs acc errs = (acc', []) \<Longrightarrow> bt_ok acc \<Longrightarrow>
   errs = [] \<and> bt_ok acc' \<and> set (bt_keys acc') = set (bt_keys acc) \<union> set (map field_key fs)
   \<and> (\<forall>f \<in> set fs. \<exists>v. accept env f (bt_get answers (field_key f)) = Ok v)"
  by (induction env answers fs acc errs rule: accept_fields.induct)
     (auto simp: set_bt_keys_insert simp del: set_map split: result.splits)

lemma accept_answers_Ok:
  assumes "accept_answers env t answers = Ok accepted"
  shows "set (bt_keys accepted) = set (map field_key (template_fields t))"
    and "set (bt_keys answers) \<subseteq> set (map field_key (template_fields t))"
    and "\<forall>f \<in> set (template_fields t). \<exists>v. accept env f (bt_get answers (field_key f)) = Ok v"
proof -
  from assms have a: "accept_fields env answers (template_fields t) [] [] = (accepted, [])"
      "filter (\<lambda>k. \<not> list_ex (\<lambda>f. field_key f = k) (template_fields t)) (bt_keys answers) = []"
    by (auto simp: accept_answers_def Let_def split: prod.splits if_splits)
  from accept_fields_accepted [OF a(1)] a(2)
  show "set (bt_keys accepted) = set (map field_key (template_fields t))"
    "set (bt_keys answers) \<subseteq> set (map field_key (template_fields t))"
    "\<forall>f \<in> set (template_fields t). \<exists>v. accept env f (bt_get answers (field_key f)) = Ok v"
    by (fastforce simp: filter_empty_conv list_ex_iff)+
qed

lemma bt_get_key: "k \<in> set (bt_keys m) \<Longrightarrow> bt_get m k \<noteq> None"
  by (auto simp: map_of_eq_None_iff)

lemma secrets_present: "each (secret_check secrets) ss = Ok u \<Longrightarrow> s \<in> set ss \<Longrightarrow> bt_get secrets (secret_key s) \<noteq> None"
  by (fastforce simp: each_Ok_iff secret_check_def split: option.splits)

lemma declared_sourced:
  assumes "accept_answers env t answers = Ok accepted" "each (secret_check secrets) (template_secrets t) = Ok u"
    and "k \<in> set (declared t)"
  shows "source_of accepted secrets k d \<noteq> None"
  using assms(3) bt_get_key [of k accepted] secrets_present [OF assms(2)] accept_answers_Ok(1) [OF assms(1)]
  by (fastforce simp: declared_def source_of_def split: option.splits)

definition filled_mount :: "(string \<Rightarrow> string option \<Rightarrow> string option) \<Rightarrow> plan_mount \<Rightarrow> plan_mount" where
  "filled_mount source m = (case m of Host from target ro \<Rightarrow> Host (filled source from) target ro | _ \<Rightarrow> m)"

definition filled_plan :: "(string \<Rightarrow> string option \<Rightarrow> string option) \<Rightarrow> deployment_plan \<Rightarrow> deployment_plan" where
  "filled_plan source p = p\<lparr>services :=
     map (\<lambda>s. s\<lparr>environment := map (\<lambda>(k, v). (k, filled source v)) (environment s),
               mounts := map (filled_mount source) (mounts s)\<rparr>) (services p)\<rparr>"

lemma in_concat_map: "y \<in> set ys \<Longrightarrow> x \<in> set (g y) \<Longrightarrow> x \<in> set (concat (map g ys))"
  by auto

lemma environment_keysI:
  assumes "s \<in> set (services (template_plan t))" "kv \<in> set (environment s)" "p \<in> set (placeholders (snd kv))"
  shows "hole_key p \<in> set (environment_keys t)"
  unfolding environment_keys_def case_prod_beta
  by (rule in_concat_map [OF assms(1)], rule in_concat_map [OF assms(2)], simp add: assms(3))

lemma mount_keysI:
  assumes "s \<in> set (services (template_plan t))" "Host src target ro \<in> set (mounts s)" "p \<in> set (placeholders src)"
  shows "hole_key p \<in> set (mount_keys t)"
  unfolding mount_keys_def
  by (rule in_concat_map [OF assms(1)], rule in_concat_map [OF assms(2)], simp add: assms(3))

lemma map_ok_map: "\<forall>x \<in> set xs. f x = Ok (g x) \<Longrightarrow> map_ok f xs = Ok (map g xs)"
  by (induction xs) auto

text \<open>Claim C32. Resolution misses nothing: once a template is valid, every answer is accepted, every secret fits and the
  installer has filled its own placeholders, \<^verbatim>\<open>resolve\<close> returns exactly the plan with every hole filled, and
  its only remaining error is one of the filled plan itself.\<close>

theorem resolve_fills_everything:
  assumes "template_validate env t = Ok ()" "accept_answers env t answers = Ok accepted"
    and "each (secret_check secrets) (template_secrets t) = Ok ()"
    and "filter own_key (environment_keys t) = environment_keys t"
  shows "resolve env t answers secrets =
    (let plan = filled_plan (source_of accepted secrets) (template_plan t)
     in and_then (map_err PlanRefused (validate plan)) (\<lambda>_. Ok plan))"
proof -
  let ?source = "source_of accepted secrets" and ?ss = "services (template_plan t)"
  note closed = template_validate_closed [OF assms(1)]
  have source: "?source k d \<noteq> None" if "k \<in> set (mount_keys t) \<union> set (environment_keys t)" for k d
    using declared_sourced [OF assms(2,3)] closed that unfolding assms(4) by blast
  have env: "resolve_environment accepted secrets kv = Ok (case kv of (k, v) \<Rightarrow> (k, filled ?source v))"
    if "s \<in> set ?ss" "kv \<in> set (environment s)" for s kv
  proof -
    have "\<forall>p \<in> set (placeholders (snd kv)). ?source (hole_key p) (hole_default p) \<noteq> None"
      using environment_keysI [OF that] by (intro ballI source) blast
    from substitute_filled [OF this] show ?thesis by (simp add: resolve_environment_def split: prod.split)
  qed
  have mount: "resolve_mount accepted secrets m = Ok (filled_mount ?source m)" if "s \<in> set ?ss" "m \<in> set (mounts s)" for s m
  proof (cases m)
    case (Host src target ro)
    have "\<forall>p \<in> set (placeholders src). ?source (hole_key p) (hole_default p) \<noteq> None"
      using mount_keysI [OF that(1)] that(2) Host by (intro ballI source) blast
    from substitute_filled [OF this] Host show ?thesis by (simp add: resolve_mount_def filled_mount_def)
  qed (simp_all add: resolve_mount_def filled_mount_def)
  let ?e = "\<lambda>s. s\<lparr>environment := map (\<lambda>(k, v). (k, filled ?source v)) (environment s)\<rparr>"
  have 1: "map_ok (\<lambda>s. and_then (map_ok (resolve_environment accepted secrets) (environment s)) (\<lambda>filled.
                 Ok (s\<lparr>environment := filled\<rparr>))) ?ss = Ok (map ?e ?ss)"
    by (rule map_ok_map) (simp add: map_ok_map [OF ballI [OF env]])
  have 2: "map_ok (\<lambda>s. and_then (map_ok (resolve_mount accepted secrets) (mounts s)) (\<lambda>ms. Ok (s\<lparr>mounts := ms\<rparr>)))
      (map ?e ?ss) = Ok (map (\<lambda>s. s\<lparr>mounts := map (filled_mount ?source) (mounts s)\<rparr>) (map ?e ?ss))"
    by (rule map_ok_map) (auto simp: map_ok_map [OF ballI [OF mount]])
  have plan: "(template_plan t)\<lparr>services := map (\<lambda>s. s\<lparr>mounts := map (filled_mount ?source) (mounts s)\<rparr>) (map ?e ?ss)\<rparr>
      = filled_plan ?source (template_plan t)"
    by (simp add: filled_plan_def)
  show ?thesis
    unfolding resolve_def assms(1,2,3) and_then_simps map_err_simps 1 2 plan Let_def ..
qed

section \<open>Generated secrets fit\<close>

lemma generate_secrets_run:
  "generate_secrets ss made w = (Done m, w') \<Longrightarrow> bt_ok made \<Longrightarrow> distinct (map secret_key ss) \<Longrightarrow>
   (\<forall>k. k \<notin> set (map secret_key ss) \<longrightarrow> bt_get m k = bt_get made k)
   \<and> (\<forall>s \<in> set ss. \<exists>v. bt_get m (secret_key s) = Some v \<and> accepts s v)"
proof (induction ss made arbitrary: w rule: generate_secrets.induct)
  case (2 s ss made)
  then obtain v w1 where g: "generate s w = (Done v, w1)"
    "generate_secrets ss (bt_insert (secret_key s) v made) w1 = (Done m, w')"
    by (auto elim: io_bind_DoneE)
  from generate_run [of s w] g(1) have "accepts s v" by simp
  moreover note 2(1) [OF g(2)]
  ultimately show ?case using 2(3,4) by (auto simp: bt_get_insert)
qed (simp add: io_return_def)

text \<open>Generated secrets fit: for a valid template, whatever the random source yields, the secrets
  \<^verbatim>\<open>generate_secrets\<close> returns pass the check \<^verbatim>\<open>resolve\<close> makes of stored ones, so a first installation
  whose answers are accepted is refused only for what the filled plan itself violates.\<close>

theorem generated_secrets_fit:
  assumes "template_validate env t = Ok ()" "generate_secrets (template_secrets t) [] w = (Done secrets, w')"
  shows "each (secret_check secrets) (template_secrets t) = Ok ()"
proof -
  have "distinct (map secret_key (template_secrets t))"
    using template_validate_closed [OF assms(1)] by (simp add: declared_def)
  from generate_secrets_run [OF assms(2) bt_ok_Nil this]
  show ?thesis by (fastforce simp: each_Ok_iff secret_check_def)
qed

section \<open>Seed files\<close>

lemma seeds_validate_Ok:
  "seeds_validate seen ss = Ok u \<Longrightarrow> distinct (map seed_path ss) \<and> set (map seed_path ss) \<inter> set seen = {}
   \<and> (\<forall>s \<in> set ss. is_confined_seed_path (seed_path s) \<and> int (length (seed_content s)) \<le> MAX_SEED_BYTES)"
  by (induction seen ss rule: seeds_validate.induct) (auto split: if_splits)

lemma confined_components:
  assumes "is_confined_seed_path p"
  shows "\<exists>rest. rest \<noteq> [] \<and> parse_path p = Normal ''data'' # map Normal rest \<and> list_all (\<lambda>n. n \<noteq> [] \<and> n \<noteq> ''.'' \<and> n \<noteq> ''..'') rest"
proof -
  obtain t where p: "p = ''data/'' @ t" using assms by (auto simp: is_confined_seed_path_def starts_with_iff)
  have parts: "list_all (\<lambda>n. n \<noteq> [] \<and> n \<noteq> ''.'' \<and> n \<noteq> ''..'') (split_char (CHR ''/'') p)"
    using assms by (simp add: is_confined_seed_path_def)
  have split: "split_char (CHR ''/'') p = ''data'' # split_char (CHR ''/'') t" unfolding p by simp
  let ?r = "split_char (CHR ''/'') t"
  have r: "list_all (\<lambda>n. n \<noteq> [] \<and> n \<noteq> ''.'' \<and> n \<noteq> ''..'') ?r" using parts unfolding split by simp
  then have "filter (\<lambda>w. w \<noteq> [] \<and> w \<noteq> ''.'') ?r = ?r" "map piece_component ?r = map Normal ?r"
    by (auto simp: list_all_iff filter_id_conv piece_component_def)
  then have "parse_path p = Normal ''data'' # map Normal ?r"
    unfolding parse_path_def Let_def split by (simp add: p piece_component_def)
  with r show ?thesis by (intro exI [of _ ?r]) simp
qed

text \<open>Seed files stay in the data folder: each is a chain of plain names below \<^verbatim>\<open>data\<close>, without a parent or
  current directory, no two share a path, and there are at most 64 of at most 256 KiB.\<close>

theorem seeds_confined:
  assumes "template_validate env t = Ok ()" "s \<in> set (template_seeds t)"
  shows "(\<exists>rest. rest \<noteq> [] \<and> parse_path (seed_path s) = Normal ''data'' # map Normal rest
        \<and> list_all (\<lambda>n. n \<noteq> [] \<and> n \<noteq> ''.'' \<and> n \<noteq> ''..'') rest)
    \<and> distinct (map seed_path (template_seeds t)) \<and> length (template_seeds t) \<le> 64
    \<and> int (length (seed_content s)) \<le> 262144"
proof -
  have v: "seeds_validate [] (template_seeds t) = Ok ()" "length (template_seeds t) \<le> MAX_SEEDS"
    by (rule template_validate_Ok [OF assms(1)], assumption)+
  from seeds_validate_Ok [OF v(1)] have "distinct (map seed_path (template_seeds t))"
    "is_confined_seed_path (seed_path s)" "int (length (seed_content s)) \<le> 262144"
    using assms(2) by (simp_all add: MAX_SEED_BYTES_def)
  with confined_components [of "seed_path s"] v(2) show ?thesis by (simp add: MAX_SEEDS_def)
qed

section \<open>The review\<close>

text \<open>Two fields a person reviewing may not tell apart: everything but the rule and the value of a sensitive default
  agrees.\<close>

definition same_public :: "setup_field \<Rightarrow> setup_field \<Rightarrow> bool" where
  "same_public f g =
     (field_key f = field_key g \<and> field_label f = field_label g \<and> field_required f = field_required g
      \<and> field_sensitive f = field_sensitive g \<and> (field_default f = None) = (field_default g = None)
      \<and> (field_sensitive f \<or> field_default f = field_default g \<and> field_kind f = field_kind g))"

lemma field_review_public: "same_public f g \<Longrightarrow> field_review f = field_review g"
  by (cases "field_sensitive f") (simp_all add: same_public_def field_review_def)

text \<open>The review hides what is sensitive: two valid templates whose fields differ only in the rules and default
  values of sensitive fields, and whose plans and secrets differ in anything but their number, give the
  same review.\<close>

theorem review_hides_sensitive:
  assumes "template_validate env t = Ok ()" "template_validate env' t' = Ok ()"
    and "list_all2 same_public (template_fields t) (template_fields t')"
    and "length (services (template_plan t)) = length (services (template_plan t'))"
    and "length (template_secrets t) = length (template_secrets t')"
  shows "template_review env t = template_review env' t'"
proof -
  have "map field_review (template_fields t) = map field_review (template_fields t')"
    using assms(3) by (induction rule: list_all2_induct) (simp_all add: field_review_public)
  with assms(1,2,4,5) show ?thesis by (simp add: template_review_def)
qed

section \<open>An example\<close>

definition sample_env :: setup_env where
  "sample_env = \<lparr>regex_build = (\<lambda>p. if p = ''^[a-z]+$'' then Some (list_all is_lower) else None),
     os_canonicalize = Some, os_is_dir = (\<lambda>_. True), home_folder = Some [RootDir, Normal ''home'', Normal ''me''],
     records_root = [RootDir, Normal ''home'', Normal ''me'', Normal ''.config'']\<rparr>"

definition sample_template :: plan_template where
  "sample_template = \<lparr>template_plan = \<lparr>plan_id = ''app'',
       services = [(sample_service ''app'')\<lparr>service_published := Some \<lparr>host = 5230, container = 80\<rparr>,
         environment := [(''TITLE'', ''My ${SITE:-site}''), (''KEY'', ''${APP_KEY}'')],
         mounts := [Host ''${MUSIC}'' ''/music'' True]\<rparr>],
       named_volumes = [], internal_networks = []\<rparr>,
     template_fields =
       [\<lparr>field_key = ''SITE'', field_label = ''Site'', field_kind = Pattern ''^[a-z]+$'' 1 20,
          field_required = False, field_default = Some ''notes'', field_sensitive = True\<rparr>,
        \<lparr>field_key = ''MUSIC'', field_label = ''Music'', field_kind = Folder True,
          field_required = True, field_default = None, field_sensitive = False\<rparr>],
     template_secrets = [\<lparr>secret_key = ''APP_KEY'', secret_length = 16, secret_format = Hex\<rparr>],
     template_seeds = [\<lparr>seed_path = ''data/app/settings.ini'', seed_content = ''a=1''\<rparr>],
     first_start = None\<rparr>"

lemma sample_template_valid: "template_validate sample_env sample_template = Ok ()"
  by code_simp

theorem template_closed_witness:
  "declared sample_template = [''SITE'', ''MUSIC'', ''APP_KEY''] \<and> distinct (declared sample_template)
    \<and> set (declared sample_template) = set (mount_keys sample_template) \<union> set (filter own_key (environment_keys sample_template))"
proof -
  have "declared sample_template = [''SITE'', ''MUSIC'', ''APP_KEY'']" by code_simp
  with template_closed [OF sample_template_valid] show ?thesis by (intro conjI) simp_all
qed

definition sample_answers :: "(string, string) btree" where
  "sample_answers = [(''MUSIC'', ''/data/music'')]"

definition sample_secrets :: "(string, string) btree" where
  "sample_secrets = [(''APP_KEY'', ''0123456789abcdef'')]"

lemma sample_accepted:
  "accept_answers sample_env sample_template sample_answers = Ok [(''MUSIC'', ''/data/music''), (''SITE'', ''notes'')]"
  by code_simp

theorem resolve_fills_everything_witness:
  "\<exists>plan. resolve sample_env sample_template sample_answers sample_secrets = Ok plan
    \<and> concat (map environment (services plan)) = [(''TITLE'', ''My notes''), (''KEY'', ''0123456789abcdef'')]
    \<and> concat (map mounts (services plan)) = [Host ''/data/music'' ''/music'' True]"
proof -
  have fits: "each (secret_check sample_secrets) (template_secrets sample_template) = Ok ()" by code_simp
  have own: "filter own_key (environment_keys sample_template) = environment_keys sample_template" by code_simp
  let ?plan = "filled_plan (source_of [(''MUSIC'', ''/data/music''), (''SITE'', ''notes'')] sample_secrets)
      (template_plan sample_template)"
  have valid: "validate ?plan = Ok ()" by code_simp
  have "resolve sample_env sample_template sample_answers sample_secrets = Ok ?plan"
    using resolve_fills_everything [OF sample_template_valid sample_accepted fits own] valid by (simp add: Let_def)
  moreover have "concat (map environment (services ?plan)) = [(''TITLE'', ''My notes''), (''KEY'', ''0123456789abcdef'')]"
    "concat (map mounts (services ?plan)) = [Host ''/data/music'' ''/music'' True]" by code_simp+
  ultimately show ?thesis by blast
qed

theorem generated_secrets_fit_witness:
  "\<exists>secrets w'. generate_secrets (template_secrets sample_template) []
       \<lparr>files = (\<lambda>_. None), dirs = {}, locked = {}, clock_secs = None, clock_nanos = 0,
         entropy = replicate 64 (CHR ''A''), faults = []\<rparr> = (Done secrets, w')
     \<and> secrets = [(''APP_KEY'', replicate 16 (CHR ''1''))]
     \<and> each (secret_check secrets) (template_secrets sample_template) = Ok ()"
proof -
  let ?w = "\<lparr>files = (\<lambda>_. None), dirs = {}, locked = {}, clock_secs = None, clock_nanos = 0,
         entropy = replicate 64 (CHR ''A''), faults = []\<rparr> :: world"
  have "fst (generate_secrets (template_secrets sample_template) [] ?w) = Done [(''APP_KEY'', replicate 16 (CHR ''1''))]"
    by code_simp
  then obtain w' where "generate_secrets (template_secrets sample_template) [] ?w
      = (Done [(''APP_KEY'', replicate 16 (CHR ''1''))], w')" by (metis prod.collapse)
  from generated_secrets_fit [OF sample_template_valid this] this show ?thesis by blast
qed

theorem seeds_confined_witness:
  "\<exists>rest. parse_path ''data/app/settings.ini'' = Normal ''data'' # map Normal rest \<and> rest \<noteq> []"
  using seeds_confined [OF sample_template_valid, of "\<lparr>seed_path = ''data/app/settings.ini'', seed_content = ''a=1''\<rparr>"]
  by (auto simp: sample_template_def)

definition masked_template :: plan_template where
  "masked_template = sample_template\<lparr>template_fields :=
     map (\<lambda>f. if field_sensitive f then f\<lparr>field_kind := Choice [''hidden''], field_default := Some ''hidden''\<rparr> else f)
       (template_fields sample_template)\<rparr>"

theorem review_hides_sensitive_witness:
  "template_review sample_env sample_template = template_review sample_env masked_template
    \<and> template_fields sample_template \<noteq> template_fields masked_template"
proof
  have valid: "template_validate sample_env masked_template = Ok ()" by code_simp
  show "template_review sample_env sample_template = template_review sample_env masked_template"
    by (rule review_hides_sensitive [OF sample_template_valid valid])
       (simp_all add: masked_template_def sample_template_def same_public_def)
  show "template_fields sample_template \<noteq> template_fields masked_template"
    by (simp add: masked_template_def sample_template_def)
qed

section \<open>What is filled is only what looks like a key\<close>

text \<open>A shared folder can reach Compose unfilled: a mount source such as \<^verbatim>\<open>${home}\<close> passes the plan as a
  placeholder but is not one to the template, whose keys are in capitals, so it needs no declaration and
  \<^verbatim>\<open>resolve\<close> returns a plan that mounts whatever Compose reads for the variable.\<close>

theorem unfilled_host_mount:
  "resolve env \<lparr>template_plan = \<lparr>plan_id = ''app'',
       services = [(sample_service ''app'')\<lparr>service_published := Some \<lparr>host = 5230, container = 80\<rparr>,
         mounts := [Host ''${home}'' ''/host'' False]\<rparr>],
       named_volumes = [], internal_networks = []\<rparr>,
     template_fields = [], template_secrets = [], template_seeds = [], first_start = None\<rparr> [] []
   = Ok \<lparr>plan_id = ''app'',
       services = [(sample_service ''app'')\<lparr>service_published := Some \<lparr>host = 5230, container = 80\<rparr>,
         mounts := [Host ''${home}'' ''/host'' False]\<rparr>],
       named_volumes = [], internal_networks = []\<rparr>"
  by code_simp

end
