(* ===== verification/Caprover_Props.thy ===== *)
theory Caprover_Props
  imports Caprover Setup_Props
begin

text \<open>
  Properties of the CapRover importer: it gives a template or reasons and never both, a template it gives
  is valid and confined, nothing of the definition was passed over unread, and where it falls short.
\<close>

section \<open>Limitations only grow\<close>

definition grows :: "import_state \<Rightarrow> import_state \<Rightarrow> bool" where
  "grows st st' = (\<exists>l. st_limitations st' = st_limitations st @ l)"

lemma grows_refl [simp, intro]: "grows st st"
  by (simp add: grows_def)

lemma grows_trans: "grows a b \<Longrightarrow> grows b c \<Longrightarrow> grows a c"
  by (auto simp: grows_def)

lemma grows_Nil: "grows st st' \<Longrightarrow> st_limitations st' = [] \<Longrightarrow> st_limitations st = []"
  by (auto simp: grows_def)

lemma grows_report [simp, intro]: "grows st (report l st)"
  by (simp add: grows_def report_def)

lemma report_fields [simp]:
  "st_limitations (report l st) = st_limitations st @ l" "st_services (report l st) = st_services st"
  "st_volumes (report l st) = st_volumes st" "st_endpoints (report l st) = st_endpoints st"
  by (simp_all add: report_def)

lemma drop_service_fields [simp]:
  "st_limitations (drop_service st) = st_limitations st" "st_services (drop_service st) = st_services st"
  by (simp_all add: drop_service_def)

lemma cap_endpoint_grows: "grows st (cap_endpoint name service extra st)"
  by (auto simp: cap_endpoint_def Let_def grows_def split: option.splits)

lemma cap_endpoint_services [simp]: "st_services (cap_endpoint name service extra st) = st_services st"
  by (auto simp: cap_endpoint_def Let_def split: option.splits)

lemma choose_endpoint_grows: "grows st (choose_endpoint st)"
  by (auto simp: choose_endpoint_def grows_def split: list.splits)

section \<open>What one service becomes\<close>

definition clean :: "string \<Rightarrow> bool" where
  "clean v = (\<not> contains ''$$'' v)"

lemma cap_substitute_clean: "cap_substitute text vals = Ok v \<Longrightarrow> clean v"
  by (auto simp: cap_substitute_def Let_def clean_def split: if_splits)

definition clean_args :: "plan_args option \<Rightarrow> bool" where
  "clean_args a = (case a of None \<Rightarrow> True | Some (Shell l) \<Rightarrow> clean l | Some (Exec ps) \<Rightarrow> list_all clean ps)"

definition confined_service :: "plan_service \<Rightarrow> bool" where
  "confined_service s =
     (list_all (\<lambda>m. case m of Volume _ _ _ \<Rightarrow> True | _ \<Rightarrow> False) (mounts s)
      \<and> service_companion s = None \<and> networks s = []
      \<and> list_all (\<lambda>(k, v). clean v) (environment s)
      \<and> clean_args (command (overrides s)) \<and> clean_args (entrypoint (overrides s))
      \<and> (case hostname (overrides s) of None \<Rightarrow> True | Some h \<Rightarrow> clean h))"

lemma environment_clean: "list_all (\<lambda>(k, v). clean v) (fst (cap_environment name vals service))"
proof -
  have "list_all (\<lambda>(k, v). clean v) (fst (read_environment_pairs name vals kvs))" for kvs
    by (induction name vals kvs rule: read_environment_pairs.induct)
       (auto simp: Let_def case_prod_beta dest: cap_substitute_clean split: option.splits result.splits)
  then show ?thesis by (auto simp: cap_environment_def split: option.splits json.splits)
qed

lemma mounts_volumes:
  "list_all (\<lambda>m. case m of Volume _ _ _ \<Rightarrow> True | _ \<Rightarrow> False) (fst (cap_mounts name vals xs vols))"
proof (induction xs arbitrary: vols)
  case (Cons x xs)
  have rest: "list_all (\<lambda>m. case m of Volume _ _ _ \<Rightarrow> True | _ \<Rightarrow> False) (fst (cap_mounts name vals xs vols'))" for vols'
    by (rule Cons)
  show ?case
    by (auto simp: Let_def case_prod_beta rest split: option.splits result.splits)
qed simp

lemma cap_args_clean: "cap_args vals v = Some args \<Longrightarrow> clean_args (Some args)"
proof -
  have "list_all clean ts" if "map_ok (\<lambda>p. cap_substitute p vals) ps = Ok ts" for ps ts
    using that by (auto simp: map_ok_Ok_iff list_all2_conv_all_nth list_all_length intro: cap_substitute_clean)
  then show "cap_args vals v = Some args \<Longrightarrow> clean_args (Some args)"
    by (cases "plan_args_of v") (auto simp: cap_args_def clean_args_def dest: cap_substitute_clean
        split: plan_args.splits result.splits)
qed

lemma args_clean: "clean_args (fst (cap_startup name vals field v))"
  by (cases v) (auto simp: cap_startup_def dest: cap_args_clean split: option.splits, simp_all add: clean_args_def)

lemma cap_hostname_clean: "case fst (cap_hostname name vals v) of None \<Rightarrow> True | Some h \<Rightarrow> clean h"
  by (auto simp: cap_hostname_def dest: cap_substitute_clean split: option.splits result.splits)

lemma import_named_service_steps:
  obtains
    (no_image) lim where "import_named_service env names vals image_vals name service st =
        drop_service (report [lim] (report (key_limitations name service @ extra_limitations name (service_extra service)) st))"
  | (made) made lims vols where "confined_service made" "service_published made = None"
      "import_named_service env names vals image_vals name service st =
        (let st' = cap_endpoint name service (service_extra service)
           (report lims ((report (key_limitations name service @ extra_limitations name (service_extra service)) st)
              \<lparr>st_volumes := vols\<rparr>))
         in st'\<lparr>st_services := st_services st' @ [made]\<rparr>)"
proof (cases "service_image_of name service image_vals")
  case (Err lim)
  show ?thesis by (rule no_image) (simp add: import_named_service_def Let_def Err)
next
  case (Ok img)
  obtain env_pairs l1 where e: "cap_environment name vals service = (env_pairs, l1)" by (metis prod.exhaust)
  let ?mounts = "cap_mounts name vals
      (case Option.bind (member_of service ''volumes'') json_array of Some xs \<Rightarrow> xs | None \<Rightarrow> []) (st_volumes st)"
  obtain ms vols l2 where m: "?mounts = (ms, vols, l2)" by (metis prod.exhaust)
  obtain deps l3 where d: "cap_dependencies name names service = (deps, l3)" by (metis prod.exhaust)
  obtain health l4 where h: "cap_health env name (member_of service ''healthcheck'') = (health, l4)" by (metis prod.exhaust)
  obtain cmd l5 where c: "cap_startup name vals ''command'' (member_of service ''command'') = (cmd, l5)" by (metis prod.exhaust)
  obtain entry l6 where en: "cap_startup name vals ''entrypoint'' (member_of service ''entrypoint'') = (entry, l6)" by (metis prod.exhaust)
  obtain hname l7 where hn: "cap_hostname name vals (member_of service ''hostname'') = (hname, l7)" by (metis prod.exhaust)
  let ?made = "\<lparr>service_name = name, service_image = img, digest = None, environment = env_pairs,
                    service_companion = None, networks = [], service_published = None, mounts = ms,
                    depends_on = wait_names deps,
                    overrides = overrides_default\<lparr>healthy_dependencies := wait_healthy deps,
                      completed_dependencies := wait_completed deps, healthcheck := health,
                      command := cmd, entrypoint := entry, hostname := hname\<rparr>\<rparr>"
  show ?thesis
  proof (rule made)
    have "list_all (\<lambda>(k, v). clean v) env_pairs" using environment_clean [of name vals service] by (simp only: e fst_conv)
    moreover have "list_all (\<lambda>m. case m of Volume _ _ _ \<Rightarrow> True | _ \<Rightarrow> False) ms"
      using mounts_volumes [of name vals "case Option.bind (member_of service ''volumes'') json_array of Some xs \<Rightarrow> xs | None \<Rightarrow> []"
          "st_volumes st"] by (simp only: m fst_conv)
    moreover have "clean_args cmd" using args_clean [of name vals "''command''" "member_of service ''command''"] by (simp only: c fst_conv)
    moreover have "clean_args entry" using args_clean [of name vals "''entrypoint''" "member_of service ''entrypoint''"] by (simp only: en fst_conv)
    moreover have "case hname of None \<Rightarrow> True | Some h \<Rightarrow> clean h"
      using cap_hostname_clean [of name vals "member_of service ''hostname''"] by (simp only: hn fst_conv)
    ultimately show "confined_service ?made" by (simp add: confined_service_def)
    show "service_published ?made = None" by simp
    show "import_named_service env names vals image_vals name service st =
        (let st' = cap_endpoint name service (service_extra service)
           (report (l1 @ l2 @ l3 @ l4 @ l5 @ l6 @ l7)
             ((report (key_limitations name service @ extra_limitations name (service_extra service)) st)\<lparr>st_volumes := vols\<rparr>))
         in st'\<lparr>st_services := st_services st' @ [?made]\<rparr>)"
      by (simp add: import_named_service_def Let_def Ok e m d h c en hn)
  qed
qed

section \<open>All services\<close>

lemma import_named_service_grows: "grows st (import_named_service env names vals image_vals name service st)"
proof (cases rule: import_named_service_steps [of env names vals image_vals name service st])
  case (no_image lim)
  then show ?thesis by (simp add: grows_def)
next
  case (made made lims vols)
  let ?st = "report lims ((report (key_limitations name service @ extra_limitations name (service_extra service)) st)
        \<lparr>st_volumes := vols\<rparr>)"
  have "grows st ?st" by (simp add: grows_def)
  then have "grows st (cap_endpoint name service (service_extra service) ?st)" by (rule grows_trans) (rule cap_endpoint_grows)
  then show ?thesis unfolding made(3) Let_def by (simp add: grows_def)
qed

lemma import_named_service_confined:
  "list_all confined_service (st_services st) \<Longrightarrow>
   list_all confined_service (st_services (import_named_service env names vals image_vals name service st))"
  by (cases rule: import_named_service_steps [of env names vals image_vals name service st]) (simp_all add: Let_def)

text \<open>What the importer has read of a service it reports nothing about.\<close>

definition understood :: "(string \<times> json) list \<Rightarrow> bool" where
  "understood service =
     (fst ` set service \<subseteq> set SERVICE_KEYS
      \<and> fst ` set (service_extra service) \<subseteq> set EXTRA_KEYS - {''dockerfileLines''}
      \<and> member_of service ''image'' \<noteq> None
      \<and> member_of service ''ports'' = None \<and> member_of service ''expose'' = None)"

lemma key_limitations_Nil: "key_limitations name service = [] \<Longrightarrow> fst ` set service \<subseteq> set SERVICE_KEYS"
  by (force simp: key_limitations_def split: if_splits option.splits)

lemma extra_limitations_Nil:
  "extra_limitations name extra = [] \<Longrightarrow> fst ` set extra \<subseteq> set EXTRA_KEYS - {''dockerfileLines''}"
  by (force simp: extra_limitations_def filter_empty_conv map_of_eq_None_iff split: if_splits)

lemma cap_endpoint_Nil:
  "st_limitations (cap_endpoint name service extra st) = [] \<Longrightarrow>
   member_of service ''ports'' = None \<and> member_of service ''expose'' = None"
  by (auto simp: cap_endpoint_def Let_def split: option.splits if_splits)

lemma import_named_service_Nil:
  assumes "st_limitations (import_named_service env names vals image_vals name service st) = []"
  shows "understood service"
proof (cases rule: import_named_service_steps [of env names vals image_vals name service st])
  case (no_image lim)
  with assms show ?thesis by simp
next
  case (made made lims vols)
  let ?st = "report lims ((report (key_limitations name service @ extra_limitations name (service_extra service)) st)
        \<lparr>st_volumes := vols\<rparr>)"
  have e: "st_limitations (cap_endpoint name service (service_extra service) ?st) = []"
    using assms unfolding made(3) by (simp add: Let_def)
  then have "st_limitations ?st = []" by (rule grows_Nil [OF cap_endpoint_grows])
  then have "fst ` set service \<subseteq> set SERVICE_KEYS"
    "fst ` set (service_extra service) \<subseteq> set EXTRA_KEYS - {''dockerfileLines''}"
    by (intro key_limitations_Nil [of name] extra_limitations_Nil [of name]; simp)+
  moreover have "member_of service ''image'' \<noteq> None"
  proof
    assume "member_of service ''image'' = None"
    then have "st_limitations (import_named_service env names vals image_vals name service st) \<noteq> []"
      by (simp add: import_named_service_def Let_def service_image_of_def)
    with assms show False by contradiction
  qed
  ultimately show ?thesis
    using cap_endpoint_Nil [OF e] by (simp add: understood_def)
qed

lemma import_services_grows: "grows st (import_services env names vals image_vals srvs st)"
proof (induction srvs arbitrary: st)
  case (Cons s srvs)
  obtain p v where s: "s = (p, v)" by (cases s)
  have "grows st (case json_object v of
          None \<Rightarrow> drop_service (report [Refused ''service'' [Txt ''declares a service that is not an object'']] st)
        | Some object \<Rightarrow> (case bt_get names p of None \<Rightarrow> drop_service st
             | Some name \<Rightarrow> import_named_service env names vals image_vals name object st))"
    using import_named_service_grows by (auto simp: grows_def split: option.splits)
  from grows_trans [OF this Cons] show ?case unfolding s by simp
qed simp

lemma import_services_confined:
  "list_all confined_service (st_services st) \<Longrightarrow>
   list_all confined_service (st_services (import_services env names vals image_vals srvs st))"
  by (induction srvs arbitrary: st) (auto simp: import_named_service_confined split: option.splits)

lemma import_services_Nil:
  "st_limitations (import_services env names vals image_vals srvs st) = [] \<Longrightarrow>
   (platform, v) \<in> set srvs \<Longrightarrow> bt_get names platform \<noteq> None \<Longrightarrow> \<exists>service. v = JObject service \<and> understood service"
proof (induction srvs arbitrary: st)
  case (Cons s srvs)
  obtain p u where s: "s = (p, u)" by (cases s)
  note prems = Cons.prems(1) [unfolded s import_services.simps]
  show ?case
  proof (cases "(platform, v) = s")
    case True
    then have pv: "p = platform" "u = v" using s by auto
    then obtain name where name: "bt_get names p = Some name" using Cons.prems(3) by auto
    note now = grows_Nil [OF import_services_grows prems]
    then obtain service where "json_object v = Some service"
      "st_limitations (import_named_service env names vals image_vals name service st) = []"
      using pv name by (cases "json_object v") auto
    with import_named_service_Nil show ?thesis by (auto simp: json_object_def split: json.splits)
  next
    case False
    with Cons.prems(2) have "(platform, v) \<in> set srvs" by auto
    from Cons.IH [OF prems this Cons.prems(3)] show ?thesis .
  qed
qed simp

lemma map_names_Nil:
  "map_names i srvs names = (names', []) \<Longrightarrow> bt_ok names \<Longrightarrow>
   bt_ok names' \<and> set (bt_keys names') = set (bt_keys names) \<union> fst ` set srvs"
proof (induction i srvs names arbitrary: names' rule: map_names.induct)
  case (2 i platform v rest names)
  then show ?case by (auto simp: set_bt_keys_insert simp del: set_map split: option.splits if_splits prod.splits)
qed auto

section \<open>Answers stay masked\<close>

lemma and_then_OkE: "and_then r k = Ok y \<Longrightarrow> (\<And>x. r = Ok x \<Longrightarrow> k x = Ok y \<Longrightarrow> thesis) \<Longrightarrow> thesis"
  by (auto simp: and_then_Ok_iff)

lemma typed_field_sensitive:
  assumes "typed_field env k label d rule = Ok input"
  shows "\<exists>f. input = Field_input f \<and> field_sensitive f"
proof -
  define made where "made kind required = \<lparr>field_key = k, field_label = label, field_kind = kind,
      field_required = required, field_default = d, field_sensitive = True\<rparr>" for kind required
  obtain kind required where "(case d of None \<Rightarrow> Ok (Field_input (made kind required))
      | Some v \<Rightarrow> and_then (map_err (\<lambda>_. ''Upstream default does not satisfy its setup rule'')
          (accept env (made kind required) (Some v))) (\<lambda>_. Ok (Field_input (made kind required)))) = Ok input"
    using assms unfolding typed_field_def Let_def made_def [symmetric] by (elim and_then_OkE) (rule that)
  then have "input = Field_input (made kind required)" by (cases d) (auto elim: and_then_OkE)
  then show ?thesis by (simp add: made_def)
qed

lemma setup_variable_sensitive: "setup_variable env v = Ok (Field_input f) \<Longrightarrow> field_sensitive f"
  unfolding setup_variable_def Let_def
  by (auto elim!: and_then_OkE dest!: typed_field_sensitive split: if_split_asm option.split_asm)

lemma read_variable_list_sensitive:
  "list_all field_sensitive (var_fields d) \<Longrightarrow>
   list_all field_sensitive (var_fields (fst (read_variable_list env vs seen d lims)))"
proof (induction vs arbitrary: seen d lims)
  case (Cons v vs)
  have "list_all field_sensitive (var_fields (declare_input i input d))" if "setup_variable env v = Ok input" for i input
    using that Cons.prems setup_variable_sensitive by (auto simp: declare_input_def split: setup_input.splits)
  with Cons show ?case by (auto split: option.splits result.splits)
qed simp

lemma read_variables_sensitive: "list_all field_sensitive (var_fields (fst (read_variables env root)))"
  by (auto simp: read_variables_def declared_default_def split: option.splits intro!: read_variable_list_sensitive)

section \<open>The whole definition\<close>

lemma publish_on_confined:
  "list_all confined_service ss \<Longrightarrow> list_all confined_service (publish_on n port ss)"
  by (induction ss) (auto simp: confined_service_def)

lemma choose_endpoint_confined:
  "list_all confined_service (st_services st) \<Longrightarrow> list_all confined_service (st_services (choose_endpoint st))"
  by (auto simp: choose_endpoint_def publish_on_confined split: list.splits)

lemma cap_import_Ok:
  assumes "cap_import env i text = Ok out"
  obtains root srvs vars variable_lims names name_lims vals image_vals st where
    "parse_json env text = Some (JObject root)" "member_of root ''services'' = Some (JObject srvs)"
    "read_variables (base_env env) root = (vars, variable_lims)" "map_names i srvs [] = (names, name_lims)"
    "st = import_services env names vals image_vals srvs
       \<lparr>st_limitations = root_limitations root @ variable_lims @ name_lims, st_services = [],
        st_volumes = [], st_endpoints = [], st_dropped = 0\<rparr>"
    "out = import_finish env i vars (choose_endpoint st)"
proof -
  from assms obtain j root where r: "parse_json env text = Some j" "json_object j = Some root"
    by (auto simp: cap_import_def and_then_Ok_iff)
  obtain vars variable_lims where v: "read_variables (base_env env) root = (vars, variable_lims)" by (metis prod.exhaust)
  from assms r v obtain sv srvs where sv: "member_of root ''services'' = Some sv" "json_object sv = Some srvs"
    by (auto simp: cap_import_def bind_eq_Some_conv and_then_Ok_iff)
  obtain names name_lims where n: "map_names i srvs [] = (names, name_lims)" by (metis prod.exhaust)
  show thesis
    by (rule that [OF _ _ v n refl])
       (use assms r sv v n in \<open>auto simp: cap_import_def json_object_def Let_def split: json.splits\<close>)
qed

lemma import_finish_outcome:
  "(import_template (import_finish env i vars st) = None) = (limitations (import_finish env i vars st) \<noteq> [])"
  "import_id (import_finish env i vars st) = i"
  by (simp_all add: import_finish_def Let_def)

lemma import_finish_template:
  assumes "import_template (import_finish env i vars st) = Some t"
  shows "st_limitations st = []" "template_validate (base_env env) t = Ok ()"
    "\<exists>compose. to_compose (template_plan t) = Ok compose"
    "plan_id (template_plan t) = i" "services (template_plan t) = st_services st"
    "template_seeds t = []" "set (template_fields t) \<subseteq> set (var_fields vars)"
  using assms by (auto simp: import_finish_def Let_def split: if_splits result.splits)


text \<open>Nothing of an imported definition was passed over unread: its version is four, it has no unknown root property
  and no custom networks, and every service of it is an object of known properties, with an image, without
  ports of its own and without a Dockerfile, whatever the importer's other parameters do.\<close>

theorem cap_import_reads_everything:
  assumes "cap_import env i text = Ok out" "import_template out = Some t"
  shows "\<exists>root srvs. parse_json env text = Some (JObject root) \<and> version_is_four root
    \<and> fst ` set root \<subseteq> set ROOT_KEYS - {''networks''}
    \<and> member_of root ''services'' = Some (JObject srvs)
    \<and> (\<forall>v \<in> snd ` set srvs. \<exists>service. v = JObject service \<and> understood service)"
proof -
  obtain root srvs vars variable_lims names name_lims vals image_vals st where
    root: "parse_json env text = Some (JObject root)" "member_of root ''services'' = Some (JObject srvs)"
    and "read_variables (base_env env) root = (vars, variable_lims)" and names: "map_names i srvs [] = (names, name_lims)"
    and st: "st = import_services env names vals image_vals srvs
       \<lparr>st_limitations = root_limitations root @ variable_lims @ name_lims, st_services = [],
        st_volumes = [], st_endpoints = [], st_dropped = 0\<rparr>"
    and out: "out = import_finish env i vars (choose_endpoint st)"
    by (rule cap_import_Ok [OF assms(1)])
  have none: "st_limitations st = []"
    using import_finish_template(1) assms(2) unfolding out by (blast intro: grows_Nil [OF choose_endpoint_grows])
  then have init: "root_limitations root = []" "name_lims = []"
    using grows_Nil [OF import_services_grows none [unfolded st]] by simp_all
  have keys: "set (bt_keys names) = fst ` set srvs"
    using map_names_Nil [OF names [unfolded init(2)]] by simp
  have "\<exists>service. v = JObject service \<and> understood service" if "(p, v) \<in> set srvs" for p v
  proof -
    have "p \<in> set (bt_keys names)" unfolding keys using that by force
    then have "bt_get names p \<noteq> None" by (auto simp: map_of_eq_None_iff)
    from import_services_Nil [OF none [unfolded st] that this] show ?thesis .
  qed
  moreover have "version_is_four root" "fst ` set root \<subseteq> set ROOT_KEYS - {''networks''}"
    using init(1) by (auto simp: root_limitations_def filter_empty_conv map_of_eq_None_iff split: if_splits) force+
  ultimately show ?thesis using root by force
qed

section \<open>Examples\<close>

definition sample_definition :: "json \<Rightarrow> json" where
  "sample_definition volumes = JObject
     [(''captainVersion'', JNumber (PosInt 4)),
      (''caproverOneClickApp'', JObject [(''variables'', JArray
         [JObject [(''defaultValue'', JString ''$$cap_gen_random_hex(32)''), (''id'', JString ''$$cap_pass'')]])]),
      (''services'', JObject [(''$$cap_appname'', JObject
         [(''caproverExtra'', JObject [(''containerHttpPort'', JString ''80'')]),
          (''environment'', JObject [(''PASS'', JString ''$$cap_pass''), (''URL'', JString ''http://$$cap_appname.$$cap_root_domain'')]),
          (''image'', JString ''notes:2''), (''volumes'', volumes)])])]"

definition sample_import_env :: "json \<Rightarrow> import_env" where
  "sample_import_env volumes = \<lparr>base_env = sample_env,
     parse_json = (\<lambda>t. if t = ''app.json'' then Some (sample_definition volumes) else None), read_health = (\<lambda>_. None),
     show_detail = (\<lambda>_. [])\<rparr>"

definition sample_imported :: "string list \<Rightarrow> plan_mount list \<Rightarrow> plan_template" where
  "sample_imported volumes ms = \<lparr>template_plan = \<lparr>plan_id = ''notes'',
       services = [(sample_service ''notes'')\<lparr>service_image := ''notes:2'',
         service_published := Some \<lparr>host = 8080, container = 80\<rparr>,
         environment := [(''PASS'', ''${CAP_PASS}''), (''URL'', ''${LOCAL_STORE_URL}'')], mounts := ms\<rparr>],
       named_volumes = volumes, internal_networks = []\<rparr>,
     template_fields = [], template_secrets = [\<lparr>secret_key = ''CAP_PASS'', secret_length = 32, secret_format = Hex\<rparr>],
     template_seeds = [], first_start = None\<rparr>"

lemma sample_import:
  "cap_import (sample_import_env (JArray [JString ''$$cap_appname-data:/data''])) ''notes'' ''app.json''
   = Ok \<lparr>import_id = ''notes'', import_template = Some (sample_imported [''notes-data''] [Volume ''notes-data'' ''/data'' False]),
         limitations = []\<rparr>"
  by code_simp


theorem cap_import_reads_everything_witness:
  "\<exists>root. Some (sample_definition (JArray [JString ''$$cap_appname-data:/data''])) = Some (JObject root)
     \<and> version_is_four root \<and> fst ` set root \<subseteq> set ROOT_KEYS - {''networks''}"
  using cap_import_reads_everything [OF sample_import] by (simp add: sample_import_env_def) blast

section \<open>Shortfalls\<close>

text \<open>A service whose \<^verbatim>\<open>volumes\<close> is not a list, which Compose does not allow but the importer does not look
  for, is imported without any volume and without a limitation: the app is offered and keeps no data.\<close>

theorem cap_volumes_passed_over:
  "cap_import (sample_import_env (JObject [(''data'', JString ''/data'')])) ''notes'' ''app.json''
   = Ok \<lparr>import_id = ''notes'', import_template = Some (sample_imported [] []), limitations = []\<rparr>"
  by code_simp

text \<open>A variable that was never declared is not reported when a declared one is a prefix of it: with only
  \<^verbatim>\<open>$$cap_db\<close> declared, \<^verbatim>\<open>$$cap_db_password\<close> becomes the answer for the database followed by
  \<^verbatim>\<open>_password\<close>.\<close>

theorem cap_undeclared_guessed:
  "cap_substitute ''$$cap_db_password'' [(''$$cap_db'', ''${CAP_DB}'')] = Ok ''${CAP_DB}_password''
   \<and> cap_substitute ''$$cap_db_password'' [(''$$cap_host'', ''${CAP_HOST}'')] = Err UnknownExpression"
  by code_simp

end
