(* ===== verification/Runtipi_Props.thy ===== *)
theory Runtipi_Props
  imports Runtipi Caprover_Props
begin

text \<open>
  Properties of the Runtipi importer: it always ends, a template it gives is valid and its mounts are
  confined, nothing it refuses got through, and where it falls short.
\<close>

section \<open>The loop over fallbacks ends\<close>

lemma found_after:
  assumes "find_str [c] (a @ b) = Some i" "c \<notin> set a"
  shows "length a \<le> i"
proof (rule ccontr)
  assume less: "\<not> length a \<le> i"
  obtain x y where split: "a @ b = x @ c # y" "length x = i"
    using find_str_Some_split [OF assms(1)] by (metis append_Cons append_Nil length_take min.absorb2 add_leD1)
  have "a ! i = (a @ b) ! i" using less by (simp add: nth_append)
  also have "\<dots> = c" unfolding split(1) using split(2) by (simp add: nth_append)
  finally have "c \<in> set a" using less nth_mem [of i a] by simp
  with assms(2) show False by contradiction
qed

lemma fallback_loop_ends:
  assumes "CHR ''-'' \<in> set pat" "CHR ''}'' \<notin> set pat" "CHR ''-'' \<notin> set replacement"
  shows "\<exists>v. fallback_loop pat replacement out = Some v"
proof (induction "count_list out (CHR ''-'')" arbitrary: out rule: less_induct)
  case less
  show ?case
  proof (cases "find_str pat out")
    case None
    then show ?thesis by (simp add: fallback_loop.simps)
  next
    case (Some start)
    define a b where "a = take start out" and "b = drop (start + length pat) out"
    from find_str_Some_split [OF Some] have out: "out = a @ pat @ b" and a: "length a = start"
      by (simp_all add: a_def b_def)
    have tail: "drop start out = pat @ b" by (simp add: out a [symmetric])
    show ?thesis
    proof (cases "find_str ''}'' (drop start out)")
      case None
      with Some show ?thesis by (simp add: fallback_loop.simps)
    next
      case (Some close)
      then have found: "find_str ''}'' (pat @ b) = Some close" by (simp only: tail)
      have "length pat \<le> close" by (rule found_after [OF found assms(2)])
      then have "drop (start + close + 1) out = drop (close + 1 - length pat) b"
        using a by (simp add: out drop_append)
      then have step: "fallback_loop pat replacement out = fallback_loop pat replacement (a @ replacement @ drop (close + 1 - length pat) b)"
        using \<open>find_str pat out = Some start\<close> Some a a_def by (subst fallback_loop.simps) simp
      have "count_list (drop (close + 1 - length pat) b) (CHR ''-'') \<le> count_list b (CHR ''-'')"
        using count_list_append [of "take (close + 1 - length pat) b" "drop (close + 1 - length pat) b" "CHR ''-''"] by simp
      moreover have "0 < count_list pat (CHR ''-'')" using assms(1) by (metis count_list_0_iff gr0I)
      ultimately have "count_list (a @ replacement @ drop (close + 1 - length pat) b) (CHR ''-'') < count_list out (CHR ''-'')"
        using assms(3) by (simp add: out count_notin)
      from less [OF this] show ?thesis unfolding step .
    qed
  qed
qed

definition plain_platform :: "string \<times> string \<Rightarrow> bool" where
  "plain_platform kv = (CHR ''}'' \<notin> set (fst kv) \<and> CHR ''-'' \<notin> set (snd kv))"

lemma tipi_fill_ends: "list_all plain_platform kvs \<Longrightarrow> \<exists>v. tipi_fill kvs out = Some v"
proof (induction kvs out rule: tipi_fill.induct)
  case (2 k r rest out)
  obtain v where "fallback_loop (''${'' @ k @ '':-'') r (replace (hole k) r out) = Some v"
    using fallback_loop_ends [of "''${'' @ k @ '':-''" r] "2.prems" by (auto simp: plain_platform_def)
  with 2 show ?case by simp
qed simp

lemma platform_values_plain: "list_all plain_platform tipi_platform_values"
  by code_simp

lemma fill_environment_ends: "\<exists>env. fill_environment kvs = Some env \<and> map fst env = map fst kvs"
  by (induction kvs rule: fill_environment.induct)
     (use tipi_fill_ends [OF platform_values_plain] in \<open>force+\<close>)

lemma fill_services_ends:
  "\<exists>ss'. fill_services ss = Some ss' \<and> list_all2 (\<lambda>s s'. \<exists>env. s' = s\<lparr>environment := env\<rparr>) ss ss'"
proof (induction ss)
  case (Cons s ss)
  with fill_environment_ends [of "environment s"] show ?case by fastforce
qed simp

section \<open>Folders\<close>

lemma to_upper_key: "is_alnum c \<Longrightarrow> is_upper (to_upper c) \<or> is_digit (to_upper c)"
  by (cases "is_lower c") (auto simp: to_upper_def is_alnum_def is_alpha_def is_lower_def is_upper_def)

lemma folder_key_key: "folder_key name \<noteq> [] \<Longrightarrow> is_key (''FOLDER_'' @ folder_key name)"
proof -
  have "list_all (\<lambda>c. is_upper c \<or> is_digit c \<or> c = CHR ''_'') (folder_key name)"
    by (auto simp: folder_key_def list_all_iff dest: to_upper_key)
  moreover have "list_all (\<lambda>c. is_upper c \<or> is_digit c \<or> c = CHR ''_'') ''FOLDER_''" by code_simp
  ultimately show ?thesis by (simp only: is_key_def list_all_append simp_thms append_is_Nil_conv list.distinct)
qed

lemma shared_folder_form: "shared_folder_field sub = Some (k, label) \<Longrightarrow> \<exists>name. folder_key name \<noteq> [] \<and> k = ''FOLDER_'' @ folder_key name"
  unfolding shared_folder_field_def Let_def by (simp only: split: if_splits)
    (simp_all only: option.distinct option.inject prod.inject de_Morgan_disj simp_thms,
     (elim conjE, rule exI, rule conjI, assumption, erule sym)+)

lemma shared_folder_key: "shared_folder_field sub = Some (k, label) \<Longrightarrow> is_key k"
  using folder_key_key shared_folder_form by blast

text \<open>A mount of the app's own folder, or of a folder the fields ask for, off the system of the container.\<close>

definition confined_mount :: "setup_field list \<Rightarrow> plan_mount \<Rightarrow> bool" where
  "confined_mount fs m =
     (case m of
        Directory _ _ _ \<Rightarrow> True
      | Volume _ _ _ \<Rightarrow> False
      | Host source target _ \<Rightarrow> \<not> container_path_is_system target
          \<and> list_ex (\<lambda>f. source = hole (field_key f) \<and> is_key (field_key f)) fs)"

definition mounts_confined :: "setup_field list \<Rightarrow> plan_mount list \<Rightarrow> bool" where
  "mounts_confined fs = list_all (confined_mount fs)"

lemma mounts_confined_mono: "mounts_confined fs ms \<Longrightarrow> set fs \<subseteq> set fs' \<Longrightarrow> mounts_confined fs' ms"
  unfolding mounts_confined_def confined_mount_def
  by (erule list.pred_mono_strong) (auto simp: list_ex_iff split: plan_mount.splits)

lemma mounts_confined_append [simp]:
  "mounts_confined fs (ms @ ms') = (mounts_confined fs ms \<and> mounts_confined fs ms')"
  by (simp add: mounts_confined_def)

lemma mounts_confined_Nil [simp]: "mounts_confined fs []"
  by (simp add: mounts_confined_def)

lemma mounts_confined_Directory [simp]: "mounts_confined fs [Directory a b c]"
  by (simp add: mounts_confined_def confined_mount_def)

lemma tipi_shared_confined:
  assumes "mounts_confined (ms_fields m) (ms_mounts m)"
  shows "set (ms_fields m) \<subseteq> set (ms_fields (tipi_shared name host_path target ro sub m))
    \<and> mounts_confined (ms_fields (tipi_shared name host_path target ro sub m)) (ms_mounts (tipi_shared name host_path target ro sub m))"
proof (cases "container_path_is_system target \<or> shared_folder_field sub = None")
  case True
  with assms show ?thesis by (auto simp: tipi_shared_def)
next
  case False
  then obtain k label where k: "\<not> container_path_is_system target" "shared_folder_field sub = Some (k, label)" by auto
  define fs where "fs = ms_fields (tipi_shared name host_path target ro sub m)"
  have "set (ms_fields m) \<subseteq> set fs" "list_ex (\<lambda>f. field_key f = k) fs"
    by (auto simp: fs_def tipi_shared_def k)
  then have "mounts_confined fs (ms_mounts m @ [Host (hole k) target ro])"
    using mounts_confined_mono [OF assms] k shared_folder_key [OF k(2)]
    by (auto simp: mounts_confined_def confined_mount_def list_ex_iff)
  moreover have "ms_mounts (tipi_shared name host_path target ro sub m) = ms_mounts m @ [Host (hole k) target ro]"
    by (simp add: tipi_shared_def k)
  ultimately show ?thesis using \<open>set (ms_fields m) \<subseteq> set fs\<close> by (simp add: fs_def)
qed

lemma tipi_mount_confined:
  "mounts_confined (ms_fields m) (ms_mounts m) \<Longrightarrow>
   set (ms_fields m) \<subseteq> set (ms_fields (tipi_mount name m v))
   \<and> mounts_confined (ms_fields (tipi_mount name m v)) (ms_mounts (tipi_mount name m v))"
  by (auto simp: tipi_mount_def Let_def dest: tipi_shared_confined split: option.split list.split)

lemma tipi_mounts_confined:
  "mounts_confined (ms_fields m) (ms_mounts m) \<Longrightarrow>
   set (ms_fields m) \<subseteq> set (ms_fields (foldl (tipi_mount name) m vs))
   \<and> mounts_confined (ms_fields (foldl (tipi_mount name) m vs)) (ms_mounts (foldl (tipi_mount name) m vs))"
proof (induction vs arbitrary: m)
  case (Cons v vs)
  from tipi_mount_confined [OF Cons.prems, of name v] Cons.IH [of "tipi_mount name m v"] show ?case by auto
qed simp

section \<open>Services\<close>

definition main_service :: "json \<Rightarrow> bool" where
  "main_service s = (Option.bind (json_get s ''isMain'') json_bool = Some True)"

definition service_text :: "json \<Rightarrow> string" where
  "service_text s = text_or [] (get_str s ''name'')"

lemma tipi_service_fields:
  "\<exists>made rest ms clock fs.
     tipi_service env st s = \<lparr>rt_limitations = rt_limitations st @ tipi_key_limitations (service_text s) s @ rest,
       rt_fields = fs, rt_clock = clock, rt_planned = rt_planned st @ [made],
       rt_main = rt_main st + (if main_service s then 1 else 0)\<rparr>
     \<and> service_name made = service_text s \<and> digest made = None
     \<and> set (rt_fields st) \<subseteq> set fs \<and> mounts_confined fs (mounts made)"
proof -
  define m where "m = foldl (tipi_mount (service_text s))
      \<lparr>ms_environment = tipi_environment s, ms_mounts = [], ms_fields = rt_fields st,
       ms_clock = rt_clock st, ms_limitations = []\<rparr> (get_list s ''volumes'')"
  have "set (rt_fields st) \<subseteq> set (ms_fields m) \<and> mounts_confined (ms_fields m) (ms_mounts m)"
    unfolding m_def by (rule tipi_mounts_confined [of "\<lparr>ms_environment = tipi_environment s, ms_mounts = [],
       ms_fields = rt_fields st, ms_clock = rt_clock st, ms_limitations = []\<rparr>", simplified])
  then show ?thesis
    unfolding tipi_service_def Let_def case_prod_beta
      service_text_def [symmetric] main_service_def [symmetric] m_def [symmetric]
    by (simp add: service_text_def)
qed

lemma tipi_services_state:
  assumes "st' = foldl (tipi_service env) st srvs"
    "list_all (\<lambda>s. digest s = None \<and> mounts_confined (rt_fields st) (mounts s)) (rt_planned st)"
  shows "list_all (\<lambda>s. digest s = None \<and> mounts_confined (rt_fields st') (mounts s)) (rt_planned st')
    \<and> map service_name (rt_planned st') = map service_name (rt_planned st) @ map service_text srvs
    \<and> rt_main st' = rt_main st + length (filter main_service srvs)
    \<and> (\<exists>rest. rt_limitations st' = rt_limitations st @ rest
         \<and> (rest = [] \<longrightarrow> list_all (\<lambda>s. tipi_key_limitations (service_text s) s = []) srvs))"
  using assms
proof (induction srvs arbitrary: st)
  case (Cons s srvs)
  obtain made rest ms clock fs where step: "tipi_service env st s =
      \<lparr>rt_limitations = rt_limitations st @ tipi_key_limitations (service_text s) s @ rest,
       rt_fields = fs, rt_clock = clock, rt_planned = rt_planned st @ [made],
       rt_main = rt_main st + (if main_service s then 1 else 0)\<rparr>"
    and made: "service_name made = service_text s" "digest made = None"
    and fs: "set (rt_fields st) \<subseteq> set fs" "mounts_confined fs (mounts made)"
    using tipi_service_fields by metis
  have "list_all (\<lambda>s. digest s = None \<and> mounts_confined fs (mounts s)) (rt_planned st @ [made])"
    using Cons.prems(2) fs made by (auto simp: list_all_iff intro: mounts_confined_mono)
  with Cons.IH [of "tipi_service env st s"] Cons.prems(1) show ?case
    by (auto simp: step made)
qed simp

section \<open>The whole import\<close>

lemma placeholder_keys_hole:
  assumes "is_key k"
  shows "placeholder_keys (hole k) = [k]"
proof -
  have no: "CHR ''}'' \<notin> set k" "CHR '':'' \<notin> set k"
    using assms by (auto simp: is_key_def list_all_iff is_upper_def is_digit_def)
  have "split_once '':-'' k = None"
  proof (rule ccontr)
    assume "split_once '':-'' k \<noteq> None"
    then obtain a b where "split_once '':-'' k = Some (a, b)" by auto
    from split_once_Some [OF this] no(2) show False by simp
  qed
  moreover have "find_str ''}'' (k @ ''}'') = Some (length k)" by (rule find_str_single_append [OF no(1)])
  moreover have "find_str ''${'' (hole k) = Some 0" "drop (Suc (Suc 0)) (hole k) = k @ ''}''" by (simp_all add: hole_def)
  moreover have "placeholder_keys [] = []" by code_simp
  ultimately show ?thesis using assms by (subst placeholder_keys.simps) (simp add: Let_def)
qed

lemma sort_key_Nil_iff [simp]: "(sort_key f xs = []) = (xs = [])"
  by (metis length_0_conv length_sort)

lemma dedup_limitations_Nil [simp]: "(dedup_limitations env ls = []) = (ls = [])"
  by (induction env ls rule: dedup_limitations.induct) auto

lemma tipi_finish_outcome:
  "(import_template (tipi_finish env i nets fs secrets planned lims) = None)
   = (limitations (tipi_finish env i nets fs secrets planned lims) \<noteq> [])"
  by (simp add: tipi_finish_def Let_def split: result.split)

lemma tipi_finish_template:
  assumes "import_template (tipi_finish env i nets fs secrets planned lims) = Some t"
  shows "lims = []" "template_validate (base_env env) t = Ok ()" "plan_id (template_plan t) = i"
    "services (template_plan t) = planned" "named_volumes (template_plan t) = []" "template_seeds t = []"
    "template_fields t = filter (\<lambda>f. uses_placeholder (environment_values planned) (field_key f)
       \<or> uses_placeholder (host_sources planned) (field_key f)) fs"
  using assms by (auto simp: tipi_finish_def Let_def split: if_splits result.splits)

text \<open>A field a mount asks for is used, so it is kept.\<close>

lemma used_mount_kept:
  assumes "s \<in> set planned" "mounts_confined fs (mounts s)"
  shows "mounts_confined (filter (\<lambda>f. P f \<or> uses_placeholder (host_sources planned) (field_key f)) fs) (mounts s)"
proof -
  have "confined_mount (filter (\<lambda>f. P f \<or> uses_placeholder (host_sources planned) (field_key f)) fs) m"
    if "m \<in> set (mounts s)" for m
  proof (cases m)
    case (Host source target ro)
    have "confined_mount fs m" using assms(2) that by (simp add: mounts_confined_def list_all_iff)
    with Host obtain f where f: "\<not> container_path_is_system target" "f \<in> set fs"
      "source = hole (field_key f)" "is_key (field_key f)"
      by (auto simp: confined_mount_def list_ex_iff)
    have "source \<in> set (host_sources planned)"
      using assms(1) that Host by (force simp: host_sources_def map_filter_def)
    then have "uses_placeholder (host_sources planned) (field_key f)"
      using placeholder_keys_hole [OF f(4)] by (auto simp: uses_placeholder_def list_ex_iff f(3) intro!: bexI [of _ source])
    with f Host show ?thesis by (auto simp: confined_mount_def list_ex_iff)
  qed (use assms(2) that in \<open>auto simp: mounts_confined_def confined_mount_def list_all_iff\<close>)
  then show ?thesis by (simp add: mounts_confined_def list_all_iff)
qed

lemma json_array_Some: "json_array v = Some xs \<Longrightarrow> v = JArray xs"
  by (cases v) (simp_all add: json_array_def)

lemma tipi_import_cases:
  obtains (err) e where "tipi_import env i source config = Some (Err e)"
  | (out) root srvs st secrets fs nets names planned l where
      "parse_json env source = Some root" "json_get root ''services'' = Some (JArray srvs)"
      "st = foldl (tipi_service env) \<lparr>rt_limitations = l, rt_fields = input_fields (secrets :: declared_inputs),
         rt_clock = False, rt_planned = [], rt_main = 0\<rparr> srvs"
      "fs = tipi_fields st (input_secrets secrets)" "fill_services (rt_planned st) = Some planned"
      "json_get root ''overrides'' \<noteq> None \<longrightarrow> l \<noteq> []"
      "tipi_import env i source config = Some (Ok (tipi_finish env i nets fs (input_secrets secrets) planned
         (rt_limitations st
          @ (if rt_main st \<noteq> 1 then [NotModelled ''main service'' [Txt (show_nat (rt_main st) @ '' services are marked as the main one'')]] else [])
          @ undeclared_limitations fs (input_secrets secrets) names planned)))"
proof (cases "parse_json env source")
  case None
  then show ?thesis by (intro err) (simp add: tipi_import_def)
next
  case (Some root)
  note root = this
  show ?thesis
  proof (cases "case config of None \<Rightarrow> Ok no_inputs | Some c \<Rightarrow> read_form_fields env c")
    case (Err e)
    then show ?thesis by (intro err) (simp add: tipi_import_def root)
  next
    case (Ok inputs)
    note inputs = this
    obtain nets l1 where nets: "tipi_root_networks root = (nets, l1)" by (cases "tipi_root_networks root")
    show ?thesis
    proof (cases "Option.bind (json_get root ''services'') json_array")
      case None
      then show ?thesis by (intro err) (simp add: tipi_import_def root inputs nets Let_def)
    next
      case (Some srvs)
      note srvs = this
      show ?thesis
      proof (cases srvs)
        case Nil
        with srvs show ?thesis by (intro err) (simp add: tipi_import_def root inputs nets Let_def)
      next
        case (Cons a as)
        define l where "l = input_limitations inputs @ l1 @ (if json_get root ''overrides'' \<noteq> None
            then [NotModelled ''overrides'' [Txt ''declares architecture-specific overrides'']] else [])"
        define st where "st = foldl (tipi_service env) \<lparr>rt_limitations = l, rt_fields = input_fields inputs,
           rt_clock = False, rt_planned = [], rt_main = 0\<rparr> srvs"
        obtain planned where planned: "fill_services (rt_planned st) = Some planned" using fill_services_ends by blast
        show ?thesis
        proof (rule out)
          show "parse_json env source = Some root" by (rule root)
          show "json_get root ''services'' = Some (JArray srvs)"
            using json_array_Some srvs unfolding bind_eq_Some_conv by blast
          show "st = foldl (tipi_service env) \<lparr>rt_limitations = l, rt_fields = input_fields inputs,
             rt_clock = False, rt_planned = [], rt_main = 0\<rparr> srvs" by (rule st_def)
          show "tipi_fields st (input_secrets inputs) = tipi_fields st (input_secrets inputs)" by (rule refl)
          show "fill_services (rt_planned st) = Some planned" by (rule planned)
          show "json_get root ''overrides'' \<noteq> None \<longrightarrow> l \<noteq> []" by (simp add: l_def)
          show "tipi_import env i source config = Some (Ok (tipi_finish env i nets (tipi_fields st (input_secrets inputs))
             (input_secrets inputs) planned (rt_limitations st
               @ (if rt_main st \<noteq> 1 then [NotModelled ''main service'' [Txt (show_nat (rt_main st) @ '' services are marked as the main one'')]] else [])
               @ undeclared_limitations (tipi_fields st (input_secrets inputs)) (input_secrets inputs)
                   (map service_name (filter (\<lambda>s. service_companion s \<noteq> None) (rt_planned st))) planned)))"
            unfolding tipi_import_def root inputs nets srvs Let_def prod.case option.case result.case Cons list.case
              l_def [symmetric]
            unfolding Cons [symmetric] st_def [symmetric] planned by simp
        qed
      qed
    qed
  qed
qed

lemma filled_services:
  "list_all2 (\<lambda>s s'. \<exists>env. s' = s\<lparr>environment := env\<rparr>) ss ss' \<Longrightarrow>
   map service_name ss' = map service_name ss
   \<and> (list_all (\<lambda>s. digest s = None \<and> mounts_confined fs (mounts s)) ss
      \<longrightarrow> list_all (\<lambda>s. digest s = None \<and> mounts_confined fs (mounts s)) ss')"
  by (induction rule: list_all2_induct) auto

lemma tipi_import_template:
  assumes "tipi_import env i source config = Some (Ok out)" "import_template out = Some t"
  shows "template_validate (base_env env) t = Ok ()" "plan_id (template_plan t) = i"
    "named_volumes (template_plan t) = []" "template_seeds t = []"
    "list_all (\<lambda>s. digest s = None \<and> mounts_confined (template_fields t) (mounts s)) (services (template_plan t))"
    "\<exists>root srvs. parse_json env source = Some root \<and> json_get root ''services'' = Some (JArray srvs)
      \<and> json_get root ''overrides'' = None
      \<and> map service_name (services (template_plan t)) = map service_text srvs
      \<and> length (filter main_service srvs) = 1
      \<and> list_all (\<lambda>s. tipi_key_limitations (service_text s) s = []) srvs"
proof -
  obtain root srvs st inputs fs nets names planned l where
    root: "parse_json env source = Some root" "json_get root ''services'' = Some (JArray srvs)"
    and st: "st = foldl (tipi_service env) \<lparr>rt_limitations = l, rt_fields = input_fields (inputs :: declared_inputs),
         rt_clock = False, rt_planned = [], rt_main = 0\<rparr> srvs"
    and fs: "fs = tipi_fields st (input_secrets inputs)" and planned: "fill_services (rt_planned st) = Some planned"
    and l: "json_get root ''overrides'' \<noteq> None \<longrightarrow> l \<noteq> []"
    and out: "out = tipi_finish env i nets fs (input_secrets inputs) planned
         (rt_limitations st
          @ (if rt_main st \<noteq> 1 then [NotModelled ''main service'' [Txt (show_nat (rt_main st) @ '' services are marked as the main one'')]] else [])
          @ undeclared_limitations fs (input_secrets inputs) names planned)"
  proof (cases rule: tipi_import_cases [of env i source config])
    case (err e)
    with assms(1) show ?thesis by simp
  next
    case (out root srvs st inputs fs nets names planned l)
    from assms(1) out(7) have "out = tipi_finish env i nets fs (input_secrets inputs) planned
         (rt_limitations st
          @ (if rt_main st \<noteq> 1 then [NotModelled ''main service'' [Txt (show_nat (rt_main st) @ '' services are marked as the main one'')]] else [])
          @ undeclared_limitations fs (input_secrets inputs) names planned)" by (simp only: option.inject result.inject)
    from that [OF out(1-6) this] show ?thesis .
  qed
  note made = tipi_finish_template [OF assms(2) [unfolded out]]
  from made show "template_validate (base_env env) t = Ok ()" "plan_id (template_plan t) = i"
    "named_volumes (template_plan t) = []" "template_seeds t = []" by blast+
  have none: "rt_limitations st = []" "rt_main st = 1" using made(1) by (auto split: if_splits)
  have state: "list_all (\<lambda>s. digest s = None \<and> mounts_confined (rt_fields st) (mounts s)) (rt_planned st)"
    "map service_name (rt_planned st) = map service_text srvs" "rt_main st = length (filter main_service srvs)"
    "\<exists>rest. rt_limitations st = l @ rest
         \<and> (rest = [] \<longrightarrow> list_all (\<lambda>s. tipi_key_limitations (service_text s) s = []) srvs)"
    using tipi_services_state [OF st] by simp_all
  have "list_all2 (\<lambda>s s'. \<exists>env. s' = s\<lparr>environment := env\<rparr>) (rt_planned st) planned"
    using fill_services_ends [of "rt_planned st"] planned by simp
  note filled = filled_services [OF this]
  have "list_all (\<lambda>s. digest s = None \<and> mounts_confined (rt_fields st) (mounts s)) planned" using filled state(1) by blast
  moreover have "set (rt_fields st) \<subseteq> set fs" by (auto simp: fs tipi_fields_def)
  ultimately have "list_all (\<lambda>s. digest s = None \<and> mounts_confined fs (mounts s)) planned"
    by (auto simp: list_all_iff intro: mounts_confined_mono)
  then show "list_all (\<lambda>s. digest s = None \<and> mounts_confined (template_fields t) (mounts s)) (services (template_plan t))"
    unfolding made(4,7) by (auto simp: list_all_iff intro: used_mount_kept)
  show "\<exists>root srvs. parse_json env source = Some root \<and> json_get root ''services'' = Some (JArray srvs)
      \<and> json_get root ''overrides'' = None
      \<and> map service_name (services (template_plan t)) = map service_text srvs
      \<and> length (filter main_service srvs) = 1
      \<and> list_all (\<lambda>s. tipi_key_limitations (service_text s) s = []) srvs"
  proof (intro exI conjI)
    show "parse_json env source = Some root" "json_get root ''services'' = Some (JArray srvs)" by (fact root)+
    show "json_get root ''overrides'' = None" using l state(4) none by auto
    show "map service_name (services (template_plan t)) = map service_text srvs" using filled made(4) state(2) by simp
    show "length (filter main_service srvs) = 1" using none(2) state(3) by simp
    show "list_all (\<lambda>s. tipi_key_limitations (service_text s) s = []) srvs" using none(1) state(4) by simp
  qed
qed

text \<open>Claim C34. The Runtipi importer always returns, although nothing in the shape of its loop over fallbacks ends it,
  and gives a template or reasons, never both and never neither. A template it gives is valid, keeps the
  identifier asked for, ships no file and names no volume; every mount of it is the app's own folder, or the
  answer of a setup field mounted off the system directories of the container.\<close>

theorem tipi_import_confined:
  "\<exists>r. tipi_import env i source config = Some r
     \<and> (case r of
          Err e \<Rightarrow> True
        | Ok out \<Rightarrow> (import_template out = None) = (limitations out \<noteq> [])
            \<and> (case import_template out of
                 None \<Rightarrow> True
               | Some t \<Rightarrow> template_validate (base_env env) t = Ok () \<and> plan_id (template_plan t) = i
                   \<and> named_volumes (template_plan t) = [] \<and> template_seeds t = []
                   \<and> list_all (\<lambda>s. digest s = None \<and> mounts_confined (template_fields t) (mounts s))
                       (services (template_plan t))))"
proof (cases rule: tipi_import_cases [of env i source config])
  case (err e)
  then show ?thesis by simp
next
  case (out root srvs st inputs fs nets names planned l)
  then show ?thesis
    using tipi_import_template(1-5) [OF out(7)] tipi_finish_outcome by (simp split: option.split)
qed

text \<open>What an imported definition cannot contain: a service that asks for host privileges, capabilities, devices,
  another namespace or any of the settings the plan has no field for; architecture overrides; and any
  number of main services but one. Every service of the definition is in the template, in order.\<close>

theorem tipi_import_refuses:
  assumes "tipi_import env i source config = Some (Ok out)" "import_template out = Some t"
  shows "\<exists>root srvs. parse_json env source = Some root \<and> json_get root ''services'' = Some (JArray srvs)
    \<and> json_get root ''overrides'' = None
    \<and> map service_name (services (template_plan t)) = map service_text srvs
    \<and> length (filter main_service srvs) = 1
    \<and> (\<forall>s \<in> set srvs. \<forall>k \<in> fst ` set (REFUSED_KEYS @ NOT_MODELLED_KEYS). json_get s k = None)"
proof -
  obtain root srvs where r: "parse_json env source = Some root" "json_get root ''services'' = Some (JArray srvs)"
    "json_get root ''overrides'' = None" "map service_name (services (template_plan t)) = map service_text srvs"
    "length (filter main_service srvs) = 1" "list_all (\<lambda>s. tipi_key_limitations (service_text s) s = []) srvs"
    using tipi_import_template(6) [OF assms] by blast
  have "json_get s k = None" if "tipi_key_limitations (service_text s) s = []" "(k, why) \<in> set (REFUSED_KEYS @ NOT_MODELLED_KEYS)" for s k why
    using that by (fastforce simp: tipi_key_limitations_def filter_empty_conv)
  with r(6) have "\<forall>s \<in> set srvs. \<forall>k \<in> fst ` set (REFUSED_KEYS @ NOT_MODELLED_KEYS). json_get s k = None"
    unfolding list_all_iff by (metis (no_types, lifting) imageE prod.collapse)
  with r(1-5) show ?thesis by blast
qed

section \<open>Examples\<close>

definition music_volume :: "string \<Rightarrow> bool \<Rightarrow> json" where
  "music_volume target ro = JObject
     [(''containerPath'', JString target), (''hostPath'', JString ''${ROOT_FOLDER_HOST}/media/data/music''),
      (''readOnly'', JBool ro)]"

definition tipi_definition :: "(string \<times> json) list \<Rightarrow> json list \<Rightarrow> json" where
  "tipi_definition extra volumes = JObject
     [(''services'', JArray [JObject
        ([(''environment'', JArray [JObject [(''key'', JString ''URL''), (''value'', JString ''http://${APP_DOMAIN:-none}'')]])]
         @ extra
         @ [(''image'', JString ''player:1''), (''internalPort'', JNumber (PosInt 80)), (''isMain'', JBool True),
            (''name'', JString ''player''), (''volumes'', JArray volumes)])])]"

definition tipi_config :: json where
  "tipi_config = JObject [(''form_fields'', JArray [JObject
     [(''default'', JString ''/etc''), (''env_variable'', JString ''FOLDER_MUSIC''), (''type'', JString ''text'')]])]"

definition tipi_env :: "json \<Rightarrow> import_env" where
  "tipi_env root = \<lparr>base_env = sample_env,
     parse_json = (\<lambda>t. if t = ''app.json'' then Some root else if t = ''config.json'' then Some tipi_config else None),
     read_health = (\<lambda>_. None), show_detail = (\<lambda>_. [])\<rparr>"

definition music_field :: "field_kind \<Rightarrow> string \<Rightarrow> bool \<Rightarrow> string option \<Rightarrow> setup_field" where
  "music_field fk label required d = \<lparr>field_key = ''FOLDER_MUSIC'', field_label = label, field_kind = fk,
     field_required = required, field_default = d, field_sensitive = False\<rparr>"

definition tipi_template :: "setup_field list \<Rightarrow> plan_mount list \<Rightarrow> plan_template" where
  "tipi_template fs ms = \<lparr>template_plan = \<lparr>plan_id = ''player'',
       services = [(sample_service ''player'')\<lparr>service_image := ''player:1'',
         service_published := Some \<lparr>host = 8080, container = 80\<rparr>,
         environment := [(''URL'', ''http://${LOCAL_STORE_HOST}'')], mounts := ms\<rparr>],
       named_volumes = [], internal_networks = []\<rparr>,
     template_fields = fs, template_secrets = [], template_seeds = [], first_start = None\<rparr>"

definition imported :: "plan_template \<Rightarrow> (import_error, import_outcome) result option" where
  "imported t = Some (Ok \<lparr>import_id = ''player'', import_template = Some t, limitations = []\<rparr>)"

definition on_port :: "u16 \<Rightarrow> plan_template \<Rightarrow> plan_template" where
  "on_port port t = t\<lparr>template_plan := fill_platform_values (template_plan t) port\<rparr>"

lemma sample_tipi:
  "tipi_import (tipi_env (tipi_definition [] [music_volume ''/music'' True])) ''player'' ''app.json'' None
   = imported (tipi_template [music_field (Folder True) ''Music folder'' True None] [Host ''${FOLDER_MUSIC}'' ''/music'' True])"
  by code_simp

theorem tipi_import_refuses_witness:
  "map service_name (services (template_plan (tipi_template
      [music_field (Folder True) ''Music folder'' True None] [Host ''${FOLDER_MUSIC}'' ''/music'' True]))) = [''player'']"
proof -
  have "\<exists>root srvs. parse_json (tipi_env (tipi_definition [] [music_volume ''/music'' True])) ''app.json'' = Some root
      \<and> json_get root ''services'' = Some (JArray srvs)
      \<and> map service_name (services (template_plan (tipi_template
          [music_field (Folder True) ''Music folder'' True None] [Host ''${FOLDER_MUSIC}'' ''/music'' True]))) = map service_text srvs"
    using tipi_import_refuses [OF sample_tipi [unfolded imported_def]] by (simp only: import_outcome.simps option.inject) blast
  then obtain srvs where
    "json_get (tipi_definition [] [music_volume ''/music'' True]) ''services'' = Some (JArray srvs)"
    and names: "map service_name (services (template_plan (tipi_template
          [music_field (Folder True) ''Music folder'' True None] [Host ''${FOLDER_MUSIC}'' ''/music'' True]))) = map service_text srvs"
    by (auto simp: tipi_env_def)
  moreover from this(1) have "map service_text srvs = [''player'']"
    by (auto simp: json_get_def json_object_def tipi_definition_def service_text_def get_str_def json_str_def text_or_def)
  ultimately show ?thesis by simp
qed

section \<open>Shortfalls\<close>

definition shadowed_template :: plan_template where
  "shadowed_template = tipi_template [music_field (Text 0 255) ''FOLDER_MUSIC'' False (Some ''/etc'')]
     [Host ''${FOLDER_MUSIC}'' ''/music'' False]"

lemma show_port: "show_nat (unat (8080 :: u16)) = ''8080''"
  by (simp add: show_nat.simps, code_simp)

lemma shadowed_filled:
  "on_port 8080 shadowed_template = shadowed_template\<lparr>template_plan := (template_plan shadowed_template)
     \<lparr>services := map (\<lambda>s. s\<lparr>environment := [(''URL'', ''http://localhost:8080'')]\<rparr>)
        (services (template_plan shadowed_template))\<rparr>\<rparr>"
  unfolding on_port_def fill_platform_values_def platform_values_def Let_def show_port by code_simp


text \<open>The question asked about a library is that of its first mount: when a later mount of the same library is
  writable, the review still says the folder is shared read-only.\<close>

theorem tipi_first_mount_decides:
  "tipi_import (tipi_env (tipi_definition [] [music_volume ''/music'' True, music_volume ''/inbox'' False])) ''player'' ''app.json'' None
     = imported (tipi_template [music_field (Folder True) ''Music folder'' True None]
         [Host ''${FOLDER_MUSIC}'' ''/music'' True, Host ''${FOLDER_MUSIC}'' ''/inbox'' False])
   \<and> review_read_only (field_review (music_field (Folder True) ''Music folder'' True None)) = Some True"
  by code_simp

text \<open>A property of a service the importer has never heard of is neither expressed nor reported.\<close>

theorem tipi_unknown_ignored:
  "tipi_import (tipi_env (tipi_definition [(''extraHosts'', JArray [JString ''db:10.0.0.1''])] [])) ''player'' ''app.json'' None
   = imported (tipi_template [] [])"
  by code_simp

end
