(* ===== verification/Engine.thy ===== *)
theory Engine
  imports Json_Store Folders
begin

text \<open>
  The saved choice of a Docker engine, \<^verbatim>\<open>src/runtime/engine.rs\<close>, and the transport of commands to the
  owned WSL distribution, \<^verbatim>\<open>src/runtime/engine/wsl.rs\<close>. Commands are data; running them, resolving
  paths and the environment are parameters.
\<close>

section \<open>Commands\<close>

record command_spec =
  program :: string
  args :: "string list"
  cwd :: "path option"
  timeout :: nat
  remove_env :: "string list"

record process_output =
  success :: bool
  stdout :: string
  stderr :: string
  truncated :: bool

definition command_new :: "string \<Rightarrow> string list \<Rightarrow> path option \<Rightarrow> nat \<Rightarrow> command_spec" where
  "command_new prog as dir t = \<lparr>program = prog, args = as, cwd = dir, timeout = t, remove_env = []\<rparr>"

definition command_docker :: "string list \<Rightarrow> path option \<Rightarrow> nat \<Rightarrow> command_spec" where
  "command_docker as dir t = command_new ''docker'' as dir t"

text \<open>\<^verbatim>\<open>if !names.contains(name) { names.push(name) }\<close> for each name in turn.\<close>

definition push_missing :: "string list \<Rightarrow> string list \<Rightarrow> string list" where
  "push_missing names present = fold (\<lambda>n acc. if n \<in> set acc then acc else acc @ [n]) names present"

section \<open>The owned WSL distribution\<close>

definition DISTRO :: string where "DISTRO = ''local-store-engine-v1''"
definition COMPOSE_FILE :: string where "COMPOSE_FILE = ''compose.wsl.yaml''"

definition trim_end_char :: "char \<Rightarrow> string \<Rightarrow> string" where
  "trim_end_char c s = rev (dropWhile (\<lambda>d. d = c) (rev s))"

definition bad_drive_part :: "string \<Rightarrow> bool" where
  "bad_drive_part part =
     (part = [] \<or> part = ''.'' \<or> part = ''..'' \<or> last part \<in> {CHR '' '', CHR ''.''}
      \<or> list_ex (\<lambda>c. c \<in> {CHR '':'', dquote, CHR ''<'', CHR ''>'', CHR ''|'', CHR ''?'', CHR ''*''}) part)"

definition windows_drive_path :: "string \<Rightarrow> (app_error, string) result" where
  "windows_drive_path given =
     (let p = (case strip_prefix verbatim given of Some q \<Rightarrow> q | None \<Rightarrow> given)
      in if length p < 3 \<or> \<not> is_alpha (p ! 0) \<or> p ! 1 \<noteq> CHR '':'' \<or> p ! 2 \<notin> {CHR ''/'', backslash}
            \<or> has_control p \<or> int (length p) > 32768
         then Err (app_error_invalid ''WSL requires an absolute local Windows drive path.'')
         else (let tail = map (\<lambda>c. if c = backslash then CHR ''/'' else c) (drop 3 p);
                   parts = split_char (CHR ''/'') (trim_end_char (CHR ''/'') tail)
               in if tail \<noteq> [] \<and> list_ex bad_drive_part parts
                  then Err (app_error_invalid
                    ''The Windows path cannot be translated unambiguously for WSL.'')
                  else Ok (''/mnt/'' @ [to_lower (p ! 0)] @ ''/'' @ join ''/'' parts)))"

definition wsl_wrap :: "command_spec \<Rightarrow> string \<Rightarrow> string list \<Rightarrow> command_spec" where
  "wsl_wrap spec dir as =
     \<lparr>program = ''wsl.exe'',
      args = [''--distribution'', DISTRO, ''--user'', ''root'', ''--cd'', dir, ''--exec'', ''/usr/bin/env'', ''-i'',
        ''PATH=/usr/sbin:/usr/bin:/sbin:/bin'', ''HOME=/root'', ''LANG=C.UTF-8'', ''/usr/bin/docker'',
        ''--host'', ''unix:///var/run/docker.sock''] @ as,
      cwd = None, timeout = timeout spec,
      remove_env = push_missing [''WSLENV'', ''DOCKER_HOST'', ''DOCKER_CONTEXT'', ''DOCKER_TLS_VERIFY'',
        ''DOCKER_CERT_PATH''] (remove_env spec)\<rparr>"

definition diagnostic_command :: "command_spec \<Rightarrow> (app_error, command_spec) result" where
  "diagnostic_command spec =
     (if program spec \<noteq> ''docker'' \<or> cwd spec \<noteq> None
         \<or> args spec \<notin> {[''version'', ''--format'', ''{{.Server.Version}}''], [''compose'', ''version'', ''--short''],
               [''info'', ''--format'', ''{{.ID}}'']}
      then Err (app_error_invalid (''WSL transport currently supports engine diagnostics only; app ''
        @ ''operations require Compose and bind-path projection.''))
      else Ok (wsl_wrap spec ''/'' (args spec)))"

text \<open>\<open>canonicalize\<close> and \<open>is_file\<close> ask the file system; \<open>path_text\<close> is \<^verbatim>\<open>Path::to_str\<close>.\<close>

definition wsl_compose_command ::
  "(path \<Rightarrow> (io_error, path) result) \<Rightarrow> (path \<Rightarrow> bool) \<Rightarrow> (path \<Rightarrow> string option) \<Rightarrow> command_spec
   \<Rightarrow> (app_error, command_spec) result" where
  "wsl_compose_command canonicalize is_file path_text spec =
     and_then (ok_or (cwd spec) (app_error_invalid ''WSL Compose requires its managed project directory.'')) (\<lambda>project.
       (let unsupported = app_error_invalid ''Unsupported WSL Compose invocation.'' in
        if length (args spec) < 6 \<or> args spec ! 1 \<noteq> ''-f'' then Err unsupported
        else and_then (map_err from_io (canonicalize (parse_path (args spec ! 2)))) (\<lambda>given.
             and_then (map_err from_io (canonicalize (path_join project ''compose.yaml''))) (\<lambda>own.
        if given \<noteq> own \<or> args spec ! 3 \<noteq> ''-p'' \<or> \<not> starts_with ''local-store-'' (args spec ! 4)
        then Err unsupported
        else (let projected = path_join project COMPOSE_FILE;
                  missing = app_error_invalid (''The WSL Compose artifact is missing or outside its project; ''
                    @ ''restore it before operating on this app.'')
              in if \<not> is_file projected then Err missing
                 else and_then (map_err from_io (canonicalize projected)) (\<lambda>cp.
                      and_then (map_err from_io (canonicalize project)) (\<lambda>cproject.
                      if path_parent cp \<noteq> Some cproject then Err missing
                      else and_then (ok_or (path_text (docker_path cproject))
                                       (app_error_invalid ''Project path must be Unicode.'')) (\<lambda>text.
                           and_then (windows_drive_path text) (\<lambda>linux.
                             Ok (wsl_wrap spec linux
                                  ((args spec)[2 := linux @ ''/'' @ COMPOSE_FILE])))))))))))"

definition runtime_command ::
  "(path \<Rightarrow> (io_error, path) result) \<Rightarrow> (path \<Rightarrow> bool) \<Rightarrow> (path \<Rightarrow> string option) \<Rightarrow> command_spec
   \<Rightarrow> (app_error, command_spec) result" where
  "runtime_command canonicalize is_file path_text spec =
     (case diagnostic_command spec of
        Ok c \<Rightarrow> Ok c
      | Err _ \<Rightarrow>
          if program spec \<noteq> ''docker'' then Err (app_error_invalid ''WSL binding requires a Docker command.'')
          else if args spec \<noteq> [] \<and> hd (args spec) = ''compose''
          then wsl_compose_command canonicalize is_file path_text spec
          else if cwd spec \<noteq> None \<or> args spec = []
            \<or> hd (args spec) \<notin> {''pull'', ''inspect'', ''image'', ''container'', ''network'', ''volume'', ''stats''}
          then Err (app_error_invalid ''Unsupported WSL engine command.'')
          else Ok (wsl_wrap spec ''/'' (args spec)))"

section \<open>Engine bindings\<close>

record engine_binding =
  schema_version :: u32
  engine_program :: string
  endpoint :: string

definition managed_wsl :: engine_binding where
  "managed_wsl = \<lparr>schema_version = 2, engine_program = ''wsl.exe'', endpoint = ''wsl://'' @ DISTRO\<rparr>"

definition is_wsl :: "engine_binding \<Rightarrow> bool" where
  "is_wsl b = (b = managed_wsl)"

definition is_local_endpoint :: "string \<Rightarrow> bool" where
  "is_local_endpoint e =
     ((case strip_prefix ''unix:///'' e of None \<Rightarrow> False | Some p \<Rightarrow> p \<noteq> [])
      \<or> (case strip_prefix ''npipe:////./pipe/'' e of None \<Rightarrow> False | Some p \<Rightarrow> p \<noteq> [] \<and> CHR ''/'' \<notin> set p))"

definition binding_validate :: "engine_binding \<Rightarrow> app_error check" where
  "binding_validate b =
     (if is_wsl b then Ok ()
      else if schema_version b \<noteq> 1 \<or> engine_program b = [] \<or> int (length (engine_program b)) > 4096
         \<or> has_control (engine_program b) \<or> \<not> is_local_endpoint (endpoint b) \<or> int (length (endpoint b)) > 4096
         \<or> has_control (endpoint b)
      then Err (app_error_invalid (''Invalid or unsupported stored engine binding. Restore it before ''
        @ ''operating on this app.''))
      else Ok ())"

definition discover_ambient ::
  "(string \<Rightarrow> string option) \<Rightarrow> (command_spec \<Rightarrow> (process_error, process_output) result)
   \<Rightarrow> (string \<Rightarrow> string option) \<Rightarrow> nat \<Rightarrow> (app_error, engine_binding) result" where
  "discover_ambient env run json_string diagnostic_timeout =
     (let nonempty = (\<lambda>v. Option.bind (env v) (\<lambda>s. if s = [] then None else Some s));
          context = nonempty ''DOCKER_CONTEXT'';
          from_env = (if context = None then nonempty ''DOCKER_HOST'' else None)
      in and_then
           (case from_env of
              Some e \<Rightarrow> Ok e
            | None \<Rightarrow>
                and_then (map_err from_process (run (command_new ''docker''
                    ([''context'', ''inspect''] @ (case context of None \<Rightarrow> [] | Some c \<Rightarrow> [c])
                     @ [''--format'', ''{{json .Endpoints.docker.Host}}'']) None diagnostic_timeout))) (\<lambda>out.
                  if \<not> success out \<or> truncated out
                  then Err (app_error_invalid ''Could not determine the selected Docker endpoint.'')
                  else ok_or (json_string (trim (stdout out)))
                         (app_error_invalid ''Docker returned an invalid endpoint.'')))
           (\<lambda>e. let b = \<lparr>schema_version = 1, engine_program = ''docker'', endpoint = e\<rparr>
                in and_then (binding_validate b) (\<lambda>_. Ok b)))"

definition engine_env :: "string list" where
  "engine_env = [''DOCKER_HOST'', ''DOCKER_CONTEXT'', ''DOCKER_TLS_VERIFY'', ''DOCKER_CERT_PATH'']"

definition binding_command ::
  "(command_spec \<Rightarrow> (app_error, command_spec) result) \<Rightarrow> engine_binding \<Rightarrow> command_spec
   \<Rightarrow> (app_error, command_spec) result" where
  "binding_command wsl b spec =
     and_then (binding_validate b) (\<lambda>_.
       if is_wsl b then wsl spec
       else and_then
              (if args spec \<noteq> [] \<and> hd (args spec) = ''--host''
               then if tl (args spec) \<noteq> [] \<and> hd (tl (args spec)) = endpoint b then Ok (args spec)
                    else Err (app_error_invalid
                      ''The operation targets a different engine than its saved binding.'')
               else Ok ([''--host'', endpoint b] @ args spec))
              (\<lambda>as. Ok (spec\<lparr>program := engine_program b, args := as,
                        remove_env := push_missing engine_env (remove_env spec)\<rparr>)))"

section \<open>The binding beside a project\<close>

definition ENGINE_FILE :: string where "ENGINE_FILE = ''local-store-engine.json''"
definition COMPOSE_BINDING_MARKER :: string where
  "COMPOSE_BINDING_MARKER = ''# local-store-engine-binding: 1'' @ [newline]"

text \<open>A file that can be opened but not read gives an empty header.\<close>

definition compose_header :: "path \<Rightarrow> ('e, bytes) prog" where
  "compose_header project =
     io_match (fs_open (path_join project ''compose.yaml''))
       (\<lambda>_. io_match (fs_read (path_join project ''compose.yaml'')) (\<lambda>b. io_return (take 128 b)) (\<lambda>_. io_return []))
       (\<lambda>_. io_return [])"

definition retained :: "engine_binding codec \<Rightarrow> path \<Rightarrow> (app_error, engine_binding option) prog" where
  "retained json project =
     io_match (fs_open (path_join project ENGINE_FILE))
       (\<lambda>_. io_bind (io_map_err from_io (fs_read (path_join project ENGINE_FILE))) (\<lambda>b.
          if int (length b) > 16384 then io_fail (app_error_invalid ''Stored engine binding is too large.'')
          else io_bind (io_lift (ok_or (decode json b) (app_error_invalid
                 ''Stored engine binding is corrupt; no fallback engine was selected.''))) (\<lambda>binding.
               io_bind (io_lift (binding_validate binding)) (\<lambda>_. io_return (Some binding)))))
       (\<lambda>e. if kind e = KNotFound
            then io_bind (compose_header project) (\<lambda>header.
                   if starts_with ''# local-store-engine-binding:'' header
                   then io_fail (app_error_invalid (''This app's engine binding is missing. Restore it ''
                     @ ''before operating on the app.''))
                   else io_return None)
            else io_fail (app_error_invalid
              ''Stored engine binding cannot be read; no fallback engine was selected.''))"

definition engine_save :: "engine_binding codec \<Rightarrow> path \<Rightarrow> engine_binding \<Rightarrow> (app_error, unit) prog" where
  "engine_save json project binding =
     io_bind (io_lift (binding_validate binding)) (\<lambda>_.
     io_bind (retained json project) (\<lambda>previous.
       (case previous of
          Some old \<Rightarrow>
            if old \<noteq> binding then io_fail (app_error_invalid ''Refusing to replace this app's engine binding.'')
            else io_return ()
        | None \<Rightarrow>
            (case encode json binding of
               None \<Rightarrow> io_fail (app_error_internal [])
             | Some b \<Rightarrow>
                 io_map_err from_storage (write_file_atomically (path_join project ENGINE_FILE) b)))))"

definition project_command ::
  "engine_binding codec \<Rightarrow> (command_spec \<Rightarrow> (app_error, command_spec) result) \<Rightarrow> path \<Rightarrow> command_spec
   \<Rightarrow> (app_error, command_spec) prog" where
  "project_command json wsl project spec =
     io_bind (retained json project) (\<lambda>b.
       (case b of
          Some binding \<Rightarrow> io_lift (binding_command wsl binding spec)
        | None \<Rightarrow> io_return spec))"

text \<open>\<^verbatim>\<open>EngineRunner::run_cancellable\<close>: only Docker commands are routed.\<close>

definition engine_run ::
  "(command_spec \<Rightarrow> (app_error, command_spec) result) \<Rightarrow> (app_error \<Rightarrow> string) \<Rightarrow> engine_binding option
   \<Rightarrow> (command_spec \<Rightarrow> (process_error, process_output) prog) \<Rightarrow> command_spec
   \<Rightarrow> (process_error, process_output) prog" where
  "engine_run wsl text_of binding inner spec =
     io_bind
       (case binding of
          Some b \<Rightarrow>
            if program spec = ''docker''
            then io_lift (map_err (\<lambda>e. process_error_new PFailed (text_of e)) (binding_command wsl b spec))
            else io_return spec
        | None \<Rightarrow> io_return spec)
       inner"

section \<open>Lemmas\<close>

lemma set_push_missing: "set (push_missing names present) = set names \<union> set present"
  unfolding push_missing_def by (induction names arbitrary: present) auto

lemma push_missing_noop: "set names \<subseteq> set present \<Longrightarrow> push_missing names present = present"
  unfolding push_missing_def by (induction names arbitrary: present) auto

lemma push_missing_idem [simp]: "push_missing names (push_missing names present) = push_missing names present"
  by (rule push_missing_noop) (simp add: set_push_missing)

lemma two_checks:
  "(if a then Err e else if b then Err e' else Ok x) = Ok r \<Longrightarrow> \<not> a \<and> \<not> b \<and> x = r"
  by (auto split: if_splits)

lemma host_args:
  assumes "(if xs \<noteq> [] \<and> hd xs = h then if tl xs \<noteq> [] \<and> hd (tl xs) = e then Ok xs else Err er
     else Ok ([h, e] @ xs)) = Ok as"
  shows "\<exists>rest. as = h # e # rest \<and> (xs = h # e # rest \<or> (xs = rest \<and> (rest = [] \<or> hd rest \<noteq> h)))"
proof (cases xs)
  case (Cons x ys)
  then show ?thesis using assms by (cases ys) (auto split: if_splits)
qed (use assms in auto)

lemma binding_command_Ok:
  assumes "binding_command wsl b spec = Ok c" "\<not> is_wsl b"
  shows "binding_validate b = Ok ()" "program c = engine_program b"
    "\<exists>rest. args c = ''--host'' # endpoint b # rest
        \<and> (args spec = ''--host'' # endpoint b # rest \<or> (args spec = rest \<and> (rest = [] \<or> hd rest \<noteq> ''--host'')))"
    "cwd c = cwd spec" "timeout c = timeout spec" "remove_env c = push_missing engine_env (remove_env spec)"
proof -
  let ?h = "''--host''"
  define h where "h = ?h"
  obtain u as where v: "binding_validate b = Ok u" and as: "(if args spec \<noteq> [] \<and> hd (args spec) = h
        then if tl (args spec) \<noteq> [] \<and> hd (tl (args spec)) = endpoint b then Ok (args spec)
             else Err (app_error_invalid ''The operation targets a different engine than its saved binding.'')
        else Ok ([h, endpoint b] @ args spec)) = Ok as"
    and c: "c = spec\<lparr>program := engine_program b, args := as, remove_env := push_missing engine_env (remove_env spec)\<rparr>"
    using assms unfolding binding_command_def h_def [symmetric]
    by (simp only: and_then_Ok_iff if_False result.inject) blast
  show "binding_validate b = Ok ()" using v by simp
  show "program c = engine_program b" "cwd c = cwd spec" "timeout c = timeout spec"
    "remove_env c = push_missing engine_env (remove_env spec)" by (simp_all add: c)
  note host_args [OF as]
  then show "\<exists>rest. args c = ?h # endpoint b # rest
        \<and> (args spec = ?h # endpoint b # rest \<or> (args spec = rest \<and> (rest = [] \<or> hd rest \<noteq> ?h)))"
    unfolding h_def c by simp
qed

lemma fs_open_run:
  assumes "fs_open p w = (r, w')"
  shows "w' = spend_fault w" and "r = Done u \<Longrightarrow> files w p \<noteq> None"
    and "r = Failed e \<Longrightarrow> kind e = KNotFound \<Longrightarrow> files w p = None"
  using assms by (auto simp: fs_open_def fs_op_def io_err_def split: fault.splits option.splits)

lemma compose_header_keeps: "compose_header project w = (r, w') \<Longrightarrow> keeps {} w w'"
  unfolding compose_header_def
  by (auto elim!: io_match_cases dest!: fs_open_run(1) fs_read_run(1) simp: keeps_def)

lemma retained_keeps:
  assumes "retained json project w = (r, w')"
  shows "keeps {} w w'"
  using assms unfolding retained_def
  by (auto elim!: io_match_cases io_bind_cases dest!: fs_open_run(1) fs_read_run(1) compose_header_keeps
      simp: keeps_def io_lift_def io_map_err_run split: if_splits result.splits prod.splits run.splits)

lemma retained_Done:
  assumes "retained json project w = (Done x, w')"
  shows "case x of
      None \<Rightarrow> files w (path_join project ENGINE_FILE) = None
    | Some b \<Rightarrow> \<exists>bytes. files w (path_join project ENGINE_FILE) = Some bytes \<and> decode json bytes = Some b
        \<and> binding_validate b = Ok ()"
  using assms unfolding retained_def
proof (cases rule: io_match_cases)
  case (Done u w1)
  then show ?thesis
    using fs_open_run(1) [OF Done(1)]
    by (auto simp: io_done io_map_err_run split: prod.splits run.splits if_splits dest!: fs_read_run(2))
next
  case (Failed e w1)
  then show ?thesis using fs_open_run(3) [OF Failed(1)] by (auto simp: io_done split: if_splits)
qed simp

lemma engine_save_run:
  assumes "engine_save json project b w = (r, w')"
  shows "files w (path_join project ENGINE_FILE) = Some bytes \<Longrightarrow>
      files w' (path_join project ENGINE_FILE) = Some bytes \<and> (r = Done () \<longrightarrow> decode json bytes = Some b)"
    and "r = Done () \<Longrightarrow> codec_ok json \<Longrightarrow>
      \<exists>bytes. files w' (path_join project ENGINE_FILE) = Some bytes \<and> decode json bytes = Some b"
proof -
  let ?f = "path_join project ENGINE_FILE"
  have "(files w' ?f = files w ?f \<and> (r = Done () \<longrightarrow> (\<exists>x. files w ?f = Some x \<and> decode json x = Some b)))
    \<or> (files w ?f = None \<and> (r = Done () \<longrightarrow> (\<exists>x. files w' ?f = Some x \<and> encode json b = Some x)))"
    using assms unfolding engine_save_def
  proof (cases rule: io_bind_cases)
    case (Done u w1)
    then have w1: "w1 = w" by (auto simp: io_done)
    from Done(2) show ?thesis unfolding w1
    proof (cases rule: io_bind_cases)
      case (Done previous w2)
      have k: "files w2 ?f = files w ?f" using keeps_file [OF retained_keeps [OF Done(1)]] by simp
      show ?thesis
        using Done(2) k retained_Done [OF Done(1)]
        by (auto simp: io_map_err_run split: option.splits if_splits prod.splits run.splits dest: wfa.on_done)
    qed (auto dest!: retained_keeps simp: keeps_def)
  qed (auto simp: io_lift_def split: result.splits)
  then show "files w ?f = Some bytes \<Longrightarrow> files w' ?f = Some bytes \<and> (r = Done () \<longrightarrow> decode json bytes = Some b)"
    and "r = Done () \<Longrightarrow> codec_ok json \<Longrightarrow> \<exists>bytes. files w' ?f = Some bytes \<and> decode json bytes = Some b"
    by (auto dest: codec_okD)
qed

lemma split_char_Cons: "c \<notin> set a \<Longrightarrow> split_char c (a @ c # b) = a # split_char c b"
  by (induction a) auto

section \<open>Properties\<close>

text \<open>
  A saved engine choice pins every Docker command: \<^verbatim>\<open>EngineBinding::command\<close> of a non-WSL
  binding yields a command for the saved program that names the saved local endpoint first, removes
  every variable that could redirect it, keeps the other arguments, the directory and the deadline,
  is unchanged by a second routing, and is refused by any binding to another endpoint.
\<close>

theorem binding_pins_command:
  assumes "binding_command wsl b spec = Ok c" "\<not> is_wsl b"
  shows "(\<exists>rest. args c = ''--host'' # endpoint b # rest
            \<and> (args spec = rest \<or> args spec = ''--host'' # endpoint b # rest))
    \<and> program c = engine_program b \<and> cwd c = cwd spec \<and> timeout c = timeout spec
    \<and> is_local_endpoint (endpoint b) \<and> set engine_env \<union> set (remove_env spec) = set (remove_env c)
    \<and> binding_command wsl b c = Ok c
    \<and> (\<forall>b'. endpoint b' \<noteq> endpoint b \<longrightarrow> \<not> is_wsl b' \<longrightarrow> \<not> is_ok (binding_command wsl b' c))"
proof -
  note r = binding_command_Ok [OF assms]
  obtain rest where rest: "args c = ''--host'' # endpoint b # rest"
    "args spec = ''--host'' # endpoint b # rest \<or> (args spec = rest \<and> (rest = [] \<or> hd rest \<noteq> ''--host''))"
    using r(3) by (elim exE conjE) (rule that)
  have "binding_command wsl b c = Ok (c\<lparr>program := engine_program b, args := args c,
      remove_env := push_missing engine_env (remove_env c)\<rparr>)"
    unfolding binding_command_def r(1) by (simp add: assms(2) rest(1))
  also have "\<dots> = Ok c" using r(2,6) by simp
  finally have again: "binding_command wsl b c = Ok c" .
  have other: "\<not> is_ok (binding_command wsl b' c)" if "endpoint b' \<noteq> endpoint b" "\<not> is_wsl b'" for b'
    using that by (cases "binding_validate b'") (simp_all add: binding_command_def rest(1))
  have lo: "is_local_endpoint (endpoint b)"
    using r(1) assms(2) by (simp add: binding_validate_def split: if_splits)
  show ?thesis
    using rest again other lo r(2,4,5) unfolding r(6) set_push_missing by (intro conjI allI impI exI [of _ rest]) auto
qed

theorem binding_pins_command_witness:
  "\<exists>c. binding_command Ok \<lparr>schema_version = 1, engine_program = ''docker'', endpoint = ''unix:///s''\<rparr>
     (command_docker [''version''] None 5) = Ok c
   \<and> binding_command Ok \<lparr>schema_version = 1, engine_program = ''docker'', endpoint = ''unix:///s''\<rparr> c = Ok c"
proof -
  let ?b = "\<lparr>schema_version = 1, engine_program = ''docker'', endpoint = ''unix:///s''\<rparr>"
  have run: "binding_command Ok ?b (command_docker [''version''] None 5)
    = Ok \<lparr>program = ''docker'', args = [''--host'', ''unix:///s'', ''version''], cwd = None, timeout = 5,
          remove_env = engine_env\<rparr>" by code_simp
  moreover have "\<not> is_wsl ?b" by code_simp
  ultimately show ?thesis using binding_pins_command by blast
qed

text \<open>
  Claim C36. A project's engine is chosen once: after \<^verbatim>\<open>engine::save\<close> returned Ok, saving any other
  binding for the project fails and leaves the stored bytes in place, whatever faults occur.
\<close>

theorem engine_choice_is_permanent:
  assumes "codec_ok json" "engine_save json project b w = (Done (), w1)"
    and "files w2 (path_join project ENGINE_FILE) = files w1 (path_join project ENGINE_FILE)"
    and "b' \<noteq> b" "engine_save json project b' w2 = (r, w3)"
  shows "r \<noteq> Done () \<and> files w3 (path_join project ENGINE_FILE) = files w1 (path_join project ENGINE_FILE)
    \<and> files w1 (path_join project ENGINE_FILE) \<noteq> None"
proof -
  obtain bytes where "files w1 (path_join project ENGINE_FILE) = Some bytes" "decode json bytes = Some b"
    using engine_save_run(2) [OF assms(2) refl assms(1)] by blast
  then show ?thesis using engine_save_run(1) [OF assms(5), of bytes] assms(3,4) by auto
qed

theorem engine_choice_is_permanent_witness:
  "let b = \<lparr>schema_version = 1, engine_program = ''docker'', endpoint = ''unix:///s''\<rparr>;
       json = table_codec [(b, ''1'')];
       w1 = snd (engine_save json [] b (sample_world []))
   in fst (engine_save json [] managed_wsl w1) \<noteq> Done ()"
proof -
  let ?b = "\<lparr>schema_version = 1, engine_program = ''docker'', endpoint = ''unix:///s''\<rparr>"
  let ?json = "table_codec [(?b, ''1'')]"
  have "fst (engine_save ?json [] ?b (sample_world [])) = Done ()" by code_simp
  then have "engine_save ?json [] ?b (sample_world []) = (Done (), snd (engine_save ?json [] ?b (sample_world [])))"
    by (metis prod.collapse)
  moreover have "managed_wsl \<noteq> ?b" by code_simp
  moreover have "codec_ok ?json" by (rule table_codec_ok) simp
  ultimately show ?thesis
    unfolding Let_def using engine_choice_is_permanent [OF _ _ refl _ prod.collapse [symmetric]] by blast
qed

text \<open>
  A translated Windows path stays on its drive: \<^verbatim>\<open>windows_drive_path\<close> returns the mount
  point of the drive letter followed by the parts of the path, none of which is a parent or current
  directory, empty inside the path, or contains a drive separator or a wildcard.
\<close>

theorem wsl_path_stays_on_drive:
  assumes "windows_drive_path given = Ok r"
  shows "\<exists>d parts. split_char (CHR ''/'') r = [] # ''mnt'' # [d] # parts \<and> is_lower d
    \<and> (parts = [[]] \<or> (\<forall>part \<in> set parts. part \<notin> {[], ''.'', ''..''} \<and> CHR '':'' \<notin> set part \<and> CHR ''*'' \<notin> set part))"
proof -
  define p where "p = (case strip_prefix verbatim given of Some q \<Rightarrow> q | None \<Rightarrow> given)"
  define tail where "tail = map (\<lambda>c. if c = backslash then CHR ''/'' else c) (drop 3 p)"
  define parts where parts: "parts = split_char (CHR ''/'') (trim_end_char (CHR ''/'') tail)"
  note checks = two_checks [OF assms [unfolded windows_drive_path_def Let_def, folded p_def]]
  note checks = checks [folded tail_def, folded parts]
  have p: "is_alpha (p ! 0)" using checks by (elim conjE) (simp only: de_Morgan_disj not_not)
  have good: "tail \<noteq> [] \<longrightarrow> (\<forall>part \<in> set parts. \<not> bad_drive_part part)"
    using checks by (elim conjE) (simp only: de_Morgan_conj list_ex_iff, blast)
  have r: "r = ''/mnt/'' @ [to_lower (p ! 0)] @ ''/'' @ join ''/'' parts"
    using checks by (elim conjE) (erule sym)
  have lower: "is_lower (to_lower (p ! 0))" using p by (rule to_lower_is_lower)
  have slash: "CHR ''/'' \<noteq> to_lower (p ! 0)"
  proof
    assume "CHR ''/'' = to_lower (p ! 0)"
    then have "is_lower (CHR ''/'')" using lower by (simp only:)
    then show False by (simp add: is_lower_def)
  qed
  have "join ''/'' parts = trim_end_char (CHR ''/'') tail" unfolding parts by (rule join_split_char)
  then have "r = [] @ CHR ''/'' # ''mnt'' @ CHR ''/'' # [to_lower (p ! 0)] @ CHR ''/'' # trim_end_char (CHR ''/'') tail"
    unfolding r by simp
  then have "split_char (CHR ''/'') r = [] # ''mnt'' # [to_lower (p ! 0)] # parts"
    using slash by (simp add: split_char_Cons parts)
  moreover have "tail = [] \<Longrightarrow> parts = [[]]" unfolding parts by (simp add: trim_end_char_def)
  moreover have "part \<notin> {[], ''.'', ''..''} \<and> CHR '':'' \<notin> set part \<and> CHR ''*'' \<notin> set part" if "\<not> bad_drive_part part" for part
    using that by (auto simp: bad_drive_part_def list_ex_iff)
  ultimately show ?thesis using lower good by blast
qed

theorem wsl_path_stays_on_drive_witness:
  "\<exists>d parts. split_char (CHR ''/'') ''/mnt/d/My Vault/a'' = [] # ''mnt'' # [d] # parts \<and> is_lower d"
proof -
  have "windows_drive_path (''D:'' @ [backslash] @ ''My Vault/a/'') = Ok ''/mnt/d/My Vault/a''" by code_simp
  from wsl_path_stays_on_drive [OF this] show ?thesis by (elim exE conjE) (intro exI conjI)
qed

end
