(* ===== verification/Agent_Requests.thy ===== *)
theory Agent_Requests
  imports Agent_Gateway Engine
begin

text \<open>
  The queue of app installations and removals that agents ask for and the owner decides,
  \<^verbatim>\<open>src/agent_requests.rs\<close>. An operation on an open queue returns its result with the queue's next
  rows, as in \<open>Policy_Store\<close>. Describing an app's target (recipes, Docker and files), the
  per-app operation lock and starting a worker thread are parameters.
\<close>

section \<open>Data\<close>

datatype mutation_kind = Install_app | Uninstall_keep_data

definition kind_action :: "mutation_kind \<Rightarrow> agent_action" where
  "kind_action k = (case k of Install_app \<Rightarrow> Install | Uninstall_keep_data \<Rightarrow> Uninstall)"

datatype mutation_state =
    S_pending | S_approved | S_running | S_succeeded | S_failed | S_cancelled | S_denied | S_expired

definition active :: "mutation_state \<Rightarrow> bool" where
  "active s = (s \<in> {S_pending, S_approved, S_running})"

datatype mutation_failure = Runtime_failed | Access_revoked | Identity_changed | Timed_out | Connector_interrupted

record mutation_target =
  target_kind :: mutation_kind
  target_app :: string
  target_name :: string
  fingerprint :: string
  engine :: engine_binding
  engine_fingerprint :: string

record mutation_request =
  req_id :: string
  req_client :: string
  target :: mutation_target
  state :: mutation_state
  requested_at :: u64
  expires_at :: u64
  approved_until :: "u64 option"
  started_at :: "u64 option"
  operation_id :: "u64 option"
  cancel_requested :: bool
  stage :: "string option"
  failure :: "mutation_failure option"

record request_row =
  request :: mutation_request
  credential_generation :: string

record queue_file =
  qf_version :: u32
  qf_rows :: "request_row list"

record queue =
  q_path :: path
  rows :: "request_row list"

definition MAX_ROWS :: nat where "MAX_ROWS = 256"
definition MAX_ACTIVE :: nat where "MAX_ACTIVE = 32"
definition Q_MAX_BYTES :: int where "Q_MAX_BYTES = 1024 * 1024"
definition APPROVAL_SECONDS :: u64 where "APPROVAL_SECONDS = 600"
definition REQUEST_SECONDS :: u64 where "REQUEST_SECONDS = 24 * 3600"

definition denied :: app_error where
  "denied = app_error_new Forbidden ''Agent mutation access denied.''"

definition no_request :: app_error where
  "no_request = app_error_new NotFound ''Agent request does not exist.''"

definition clock :: "(app_error, u64) prog" where
  "clock = io_bind now_secs (\<lambda>t. io_lift (ok_or t (app_error_internal ''System clock is unavailable.'')))"

definition hash :: "(bytes \<Rightarrow> bytes) \<Rightarrow> bytes \<Rightarrow> string" where
  "hash sha256 b = hex_bytes (sha256 b)"

section \<open>Opening the queue\<close>

definition digest_valid :: "string \<Rightarrow> bool" where
  "digest_valid s = (length s = 64 \<and> list_all is_hex_lower s)"

definition client_valid :: "string \<Rightarrow> bool" where
  "client_valid s = (s \<noteq> [] \<and> length s \<le> 128
     \<and> list_all (\<lambda>b. is_alnum b \<or> b \<in> {CHR ''-'', CHR ''_'', CHR ''.''}) s)"

definition stages :: "string list" where
  "stages = [''checking_system'', ''preparing_files'', ''validating_recipe'', ''starting_containers'',
     ''waiting_for_health'', ''saving_app'', ''rolling_back'']"

definition target_ok :: "mutation_target \<Rightarrow> bool" where
  "target_ok t =
     (is_valid_installed_app_id (target_app t) \<and> length (target_app t) \<le> 128 \<and> digest_valid (fingerprint t)
      \<and> digest_valid (engine_fingerprint t) \<and> is_ok (binding_validate (engine t))
      \<and> target_name t \<noteq> [] \<and> length (target_name t) \<le> 256)"

definition times_ok :: "mutation_request \<Rightarrow> bool" where
  "times_ok r =
     (requested_at r < expires_at r \<and> expires_at r - requested_at r \<le> REQUEST_SECONDS
      \<and> (case approved_until r of None \<Rightarrow> True | Some t \<Rightarrow> t \<le> expires_at r)
      \<and> (state r \<in> {S_approved, S_running, S_succeeded} \<longrightarrow> approved_until r \<noteq> None)
      \<and> (state r = S_running \<longrightarrow> started_at r \<noteq> None \<and> operation_id r \<noteq> None))"

definition row_ok :: "request_row \<Rightarrow> bool" where
  "row_ok row =
     (digest_valid (req_id (request row)) \<and> client_valid (req_client (request row))
      \<and> digest_valid (credential_generation row) \<and> target_ok (target (request row)) \<and> times_ok (request row)
      \<and> (case stage (request row) of None \<Rightarrow> True | Some s \<Rightarrow> s \<in> set stages))"

definition queue_corrupt :: "string \<Rightarrow> app_error" where
  "queue_corrupt why = app_error_new StorageCorrupt why"

fun check_queue_rows :: "string set \<Rightarrow> request_row list \<Rightarrow> app_error check" where
  "check_queue_rows ids [] = Ok ()"
| "check_queue_rows ids (row # rs) =
     (if req_id (request row) \<in> ids \<or> \<not> row_ok row
      then Err (queue_corrupt ''Agent request queue contains an invalid record.'')
      else check_queue_rows (insert (req_id (request row)) ids) rs)"

definition queue_check :: "queue_file codec \<Rightarrow> bytes option \<Rightarrow> (app_error, request_row list) result" where
  "queue_check json b =
     (case b of
        None \<Rightarrow> Ok []
      | Some bytes \<Rightarrow>
          and_then (ok_or (decode json bytes) (queue_corrupt ''Agent request queue is invalid.'')) (\<lambda>f.
            if qf_version f \<noteq> 1 \<or> length (qf_rows f) > MAX_ROWS
            then Err (queue_corrupt ''Agent request queue version or size is unsupported.'')
            else and_then (check_queue_rows {} (qf_rows f)) (\<lambda>_. Ok (qf_rows f))))"

definition queue_path :: "path \<Rightarrow> path" where
  "queue_path root = path_join root ''agent-requests-v1.json''"

definition queue_lock :: "path \<Rightarrow> path" where
  "queue_lock root = path_join root ''agent-requests.lock''"

definition queue_load :: "queue_file codec \<Rightarrow> path \<Rightarrow> (app_error, request_row list) prog" where
  "queue_load json root =
     open_checked root ''agent-requests.lock'' ''Agent requests are being updated. Retry shortly.''
       ''agent-requests-v1.json'' Q_MAX_BYTES (queue_corrupt ''Agent request queue is too large.'')
       (queue_check json)"

definition queue_save :: "queue_file codec \<Rightarrow> path \<Rightarrow> request_row list \<Rightarrow> (app_error, unit) prog" where
  "queue_save json p rs =
     write_bounded p Q_MAX_BYTES (encode json \<lparr>qf_version = 1, qf_rows = rs\<rparr>)
       (app_error_internal []) (app_error_invalid ''Too many agent requests.'')"

definition is_past :: "u64 \<Rightarrow> mutation_request \<Rightarrow> bool" where
  "is_past now r =
     (state r \<in> {S_pending, S_approved}
      \<and> (expires_at r \<le> now \<or> (case approved_until r of None \<Rightarrow> False | Some t \<Rightarrow> t \<le> now)))"

definition expire_row :: "u64 \<Rightarrow> request_row \<Rightarrow> request_row" where
  "expire_row now row =
     (if is_past now (request row) then row\<lparr>request := (request row)\<lparr>state := S_expired\<rparr>\<rparr> else row)"

definition queue_open :: "queue_file codec \<Rightarrow> path \<Rightarrow> u64 \<Rightarrow> (app_error, queue) prog" where
  "queue_open json root now =
     io_bind (queue_load json root) (\<lambda>rs.
       let rs' = map (expire_row now) rs;
           changed = list_ex (\<lambda>row. is_past now (request row)) rs
       in io_bind (if changed then queue_save json (queue_path root) rs' else io_return ()) (\<lambda>_.
            io_return \<lparr>q_path = queue_path root, rows = rs'\<rparr>))"

section \<open>Operations on an open queue\<close>

definition has_id :: "string \<Rightarrow> request_row \<Rightarrow> bool" where
  "has_id i row = (req_id (request row) = i)"

definition find_row :: "queue \<Rightarrow> string \<Rightarrow> (app_error, request_row) result" where
  "find_row q i = ok_or (find (has_id i) (rows q)) no_request"

text \<open>A change through \<^verbatim>\<open>row_mut\<close>: the first row with the id.\<close>

fun change_row :: "string \<Rightarrow> (mutation_request \<Rightarrow> mutation_request) \<Rightarrow> request_row list \<Rightarrow> request_row list" where
  "change_row i f [] = []"
| "change_row i f (row # rs) =
     (if has_id i row then row\<lparr>request := f (request row)\<rparr> # rs else row # change_row i f rs)"

text \<open>\<^verbatim>\<open>self.save()?; Ok(result)\<close> after the rows were changed in memory.\<close>

definition save_rows ::
  "queue_file codec \<Rightarrow> queue \<Rightarrow> request_row list \<Rightarrow> 'a \<Rightarrow> (queue, 'a) stored" where
  "save_rows json q rs x =
     io_bind (io_try (queue_save json (q_path q) rs)) (\<lambda>saved.
       io_return (and_then saved (\<lambda>_. Ok x), q\<lparr>rows := rs\<rparr>))"

definition count_active :: "(request_row \<Rightarrow> bool) \<Rightarrow> request_row list \<Rightarrow> nat" where
  "count_active p rs = length (filter (\<lambda>row. p row \<and> active (state (request row))) rs)"

definition make_room :: "request_row list \<Rightarrow> (app_error, request_row list) result" where
  "make_room rs =
     (if length rs = MAX_ROWS
      then (case position (\<lambda>row. \<not> active (state (request row))) rs of
              Some i \<Rightarrow> Ok (remove_at i rs)
            | None \<Rightarrow> Err (app_error_new OperationBusy ''Agent request queue is full.''))
      else Ok rs)"

definition new_request :: "string \<Rightarrow> string \<Rightarrow> mutation_target \<Rightarrow> u64 \<Rightarrow> u64 \<Rightarrow> mutation_request" where
  "new_request i c t now expires =
     \<lparr>req_id = i, req_client = c, target = t, state = S_pending, requested_at = now, expires_at = expires,
      approved_until = None, started_at = None, operation_id = None, cancel_requested = False, stage = None,
      failure = None\<rparr>"

definition submit ::
  "queue_file codec \<Rightarrow> queue \<Rightarrow> string \<Rightarrow> string \<Rightarrow> mutation_target \<Rightarrow> u64 \<Rightarrow> (queue, mutation_request) stored" where
  "submit json q c g t now =
     (if count_active (\<lambda>_. True) (rows q) \<ge> MAX_ACTIVE
         \<or> count_active (\<lambda>row. req_client (request row) = c) (rows q) \<ge> 8
      then io_return (Err (app_error_new OperationBusy
             ''Finish or cancel pending requests before adding another.''), q)
      else (case make_room (rows q) of
         Err e \<Rightarrow> io_return (Err e, q)
       | Ok rs \<Rightarrow>
           io_bind (random_bytes 32) (\<lambda>random.
             (case random of
                None \<Rightarrow> io_return (Err (app_error_internal ''Could not create agent request.''), q\<lparr>rows := rs\<rparr>)
              | Some bytes \<Rightarrow>
                  (case checked_add now REQUEST_SECONDS of
                     None \<Rightarrow> io_return (Err (app_error_invalid ''Request expiry is out of range.''), q\<lparr>rows := rs\<rparr>)
                   | Some expires \<Rightarrow>
                       (let r = new_request (hex_bytes bytes) c t now expires
                        in save_rows json q (rs @ [\<lparr>request = r, credential_generation = g\<rparr>]) r))))))"

text \<open>The change a decision, a claim, a cancellation or a completion makes to its row, or its refusal.\<close>

definition decide_row ::
  "string \<Rightarrow> mutation_target \<Rightarrow> bool \<Rightarrow> u64 \<Rightarrow> request_row \<Rightarrow> (app_error, mutation_request) result" where
  "decide_row g t approve now row =
     (let r = request row
      in if state r \<noteq> S_pending \<or> (approve \<and> (credential_generation row \<noteq> g \<or> target r \<noteq> t)) then Err denied
         else Ok (if approve
                  then r\<lparr>state := S_approved,
                         approved_until := Some (min (saturating_add now APPROVAL_SECONDS) (expires_at r))\<rparr>
                  else r\<lparr>state := S_denied\<rparr>))"

definition claim_row ::
  "string \<Rightarrow> string \<Rightarrow> mutation_target \<Rightarrow> u64 \<Rightarrow> u64 \<Rightarrow> request_row \<Rightarrow> (app_error, mutation_request) result" where
  "claim_row c g t op now row =
     (let r = request row
      in if req_client r \<noteq> c \<or> credential_generation row \<noteq> g \<or> target r \<noteq> t \<or> state r \<noteq> S_approved
            \<or> (case approved_until r of None \<Rightarrow> True | Some u \<Rightarrow> u \<le> now)
         then Err denied
         else Ok (r\<lparr>state := S_running, started_at := Some now, operation_id := Some op\<rparr>))"

definition cancel_row :: "string \<Rightarrow> string \<Rightarrow> request_row \<Rightarrow> (app_error, mutation_request) result" where
  "cancel_row c g row =
     (let r = request row
      in if req_client r \<noteq> c \<or> credential_generation row \<noteq> g then Err denied
         else if state r \<in> {S_pending, S_approved} then Ok (r\<lparr>state := S_cancelled\<rparr>)
         else if state r = S_running \<and> target_kind (target r) = Install_app then Ok (r\<lparr>cancel_requested := True\<rparr>)
         else if state r = S_running
         then Err (app_error_new UnsupportedOperation
                ''Keep-data uninstall has already started and cannot be cancelled.'')
         else Ok r)"

definition finish_row :: "app_error check \<Rightarrow> request_row \<Rightarrow> (app_error, mutation_request) result" where
  "finish_row outcome row =
     (let r = request row
      in if state r \<noteq> S_running then Err denied
         else Ok (case outcome of
                    Ok _ \<Rightarrow> r\<lparr>state := S_succeeded\<rparr>
                  | Err e \<Rightarrow> if code_of e = Cancelled then r\<lparr>state := S_cancelled\<rparr>
                            else r\<lparr>state := S_failed, failure := Some Runtime_failed\<rparr>))"

definition on_row ::
  "queue_file codec \<Rightarrow> queue \<Rightarrow> string \<Rightarrow> (request_row \<Rightarrow> (app_error, mutation_request) result)
   \<Rightarrow> (queue, mutation_request) stored" where
  "on_row json q i change =
     (case and_then (find_row q i) change of
        Err e \<Rightarrow> io_return (Err e, q)
      | Ok r \<Rightarrow> save_rows json q (change_row i (\<lambda>_. r) (rows q)) r)"

definition decide ::
  "queue_file codec \<Rightarrow> queue \<Rightarrow> string \<Rightarrow> string \<Rightarrow> mutation_target \<Rightarrow> bool \<Rightarrow> u64
   \<Rightarrow> (queue, mutation_request) stored" where
  "decide json q i g t approve now = on_row json q i (decide_row g t approve now)"

definition claim ::
  "queue_file codec \<Rightarrow> queue \<Rightarrow> string \<Rightarrow> string \<Rightarrow> string \<Rightarrow> mutation_target \<Rightarrow> u64 \<Rightarrow> u64
   \<Rightarrow> (queue, mutation_request) stored" where
  "claim json q i c g t op now = on_row json q i (claim_row c g t op now)"

definition cancel ::
  "queue_file codec \<Rightarrow> queue \<Rightarrow> string \<Rightarrow> string \<Rightarrow> string \<Rightarrow> (queue, mutation_request) stored" where
  "cancel json q i c g = on_row json q i (cancel_row c g)"

definition finish ::
  "queue_file codec \<Rightarrow> queue \<Rightarrow> string \<Rightarrow> app_error check \<Rightarrow> (queue, mutation_request) stored" where
  "finish json q i outcome = on_row json q i (finish_row outcome)"

section \<open>The service\<close>

record agent_requests =
  requests_root :: path
  requests_gateway :: gateway

text \<open>Reading a request may wait for the lock; each wait is one more attempt.\<close>

fun retry_busy :: "nat \<Rightarrow> (app_error, 'a) prog \<Rightarrow> (app_error, 'a) prog" where
  "retry_busy 0 m = m"
| "retry_busy (Suc n) m =
     io_match m io_return (\<lambda>e. if code_of e = OperationBusy then retry_busy n m else io_fail e)"

definition open_queue_now :: "queue_file codec \<Rightarrow> agent_requests \<Rightarrow> (app_error, queue) prog" where
  "open_queue_now qj srv = io_bind clock (\<lambda>now. queue_open qj (requests_root srv) now)"

definition request_action ::
  "services \<Rightarrow> queue_file codec \<Rightarrow> agent_requests
   \<Rightarrow> (mutation_kind \<Rightarrow> string \<Rightarrow> (app_error, mutation_target \<times> 'p) prog)
   \<Rightarrow> string \<Rightarrow> mutation_kind \<Rightarrow> string \<Rightarrow> (app_error, mutation_request) prog" where
  "request_action sv qj srv describe secret k a =
     io_bind (authenticate_mutation sv (requests_gateway srv) secret) (\<lambda>(c, g).
     io_bind (if k = Uninstall_keep_data
              then io_bind clock (\<lambda>now. authorize_status_request sv (requests_gateway srv) secret a now)
              else io_return ()) (\<lambda>_.
     io_bind (describe k a) (\<lambda>(t, _).
     io_bind clock (\<lambda>now.
     io_bind (audit_mutation sv (requests_gateway srv) c a (kind_action k) False now) (\<lambda>_.
     io_bind (open_queue_now qj srv) (\<lambda>q.
     io_bind clock (\<lambda>now. once (submit qj q c g t now))))))))"

definition status_once ::
  "services \<Rightarrow> queue_file codec \<Rightarrow> agent_requests \<Rightarrow> string \<Rightarrow> string \<Rightarrow> (app_error, mutation_request) prog" where
  "status_once sv qj srv secret i =
     io_bind (authenticate_mutation sv (requests_gateway srv) secret) (\<lambda>(c, g).
     io_bind (open_queue_now qj srv) (\<lambda>q.
     io_bind (io_lift (find_row q i)) (\<lambda>row.
       if req_client (request row) \<noteq> c \<or> credential_generation row \<noteq> g then io_fail denied
       else io_return (request row))))"

definition request_status ::
  "services \<Rightarrow> queue_file codec \<Rightarrow> agent_requests \<Rightarrow> string \<Rightarrow> string \<Rightarrow> (app_error, mutation_request) prog" where
  "request_status sv qj srv secret i = retry_busy 9 (status_once sv qj srv secret i)"

definition list_for_owner ::
  "queue_file codec \<Rightarrow> agent_requests \<Rightarrow> (app_error, mutation_request list) prog" where
  "list_for_owner qj srv = io_bind (open_queue_now qj srv) (\<lambda>q. io_return (map request (rev (rows q))))"

definition decide_for_owner ::
  "services \<Rightarrow> queue_file codec \<Rightarrow> agent_requests
   \<Rightarrow> (mutation_kind \<Rightarrow> string \<Rightarrow> (app_error, mutation_target \<times> 'p) prog)
   \<Rightarrow> string \<Rightarrow> bool \<Rightarrow> bool \<Rightarrow> (app_error, mutation_request) prog" where
  "decide_for_owner sv qj srv describe i approve consent =
     (if \<not> consent then io_fail denied
      else io_bind (open_queue_now qj srv) (\<lambda>q.
           io_bind (io_lift (find_row q i)) (\<lambda>row.
           io_bind (if approve
                    then owner_client_generation sv (requests_gateway srv) (req_client (request row))
                    else io_return (credential_generation row)) (\<lambda>g.
           io_bind (if approve
                    then io_bind (describe (target_kind (target (request row))) (target_app (target (request row))))
                           (\<lambda>(t, _). io_return t)
                    else io_return (target (request row))) (\<lambda>t.
           io_bind (open_queue_now qj srv) (\<lambda>q.
           io_bind clock (\<lambda>now. once (decide qj q i g t approve now))))))))"

definition cancel_request ::
  "services \<Rightarrow> queue_file codec \<Rightarrow> agent_requests \<Rightarrow> string \<Rightarrow> string \<Rightarrow> (app_error, mutation_request) prog" where
  "cancel_request sv qj srv secret i =
     io_bind (authenticate_mutation sv (requests_gateway srv) secret) (\<lambda>(c, g).
     io_bind (open_queue_now qj srv) (\<lambda>q. once (cancel qj q i c g)))"

text \<open>Starting an approved request, up to the worker thread: \<open>spawn\<close> starts it, \<open>register\<close> keeps its
  handle.\<close>

definition execute ::
  "services \<Rightarrow> queue_file codec \<Rightarrow> agent_requests
   \<Rightarrow> (mutation_kind \<Rightarrow> string \<Rightarrow> (app_error, mutation_target \<times> 'p) prog)
   \<Rightarrow> (string \<Rightarrow> (app_error, u64) prog) \<Rightarrow> (string \<Rightarrow> 'p \<Rightarrow> (io_error, unit) prog) \<Rightarrow> (app_error, unit) prog
   \<Rightarrow> string \<Rightarrow> string \<Rightarrow> (app_error, mutation_request) prog" where
  "execute sv qj srv describe lock_operation spawn register secret i =
     io_bind (authenticate_mutation sv (requests_gateway srv) secret) (\<lambda>(c, g).
     io_bind (request_status sv qj srv secret i) (\<lambda>r.
     io_bind (io_ensure (state r = S_approved) denied) (\<lambda>_.
     io_bind (if target_kind (target r) = Uninstall_keep_data
              then io_bind clock (\<lambda>now. authorize_status_request sv (requests_gateway srv) secret (target_app (target r)) now)
              else io_return ()) (\<lambda>_.
     io_bind (lock_operation (target_app (target r))) (\<lambda>op.
     io_bind (describe (target_kind (target r)) (target_app (target r))) (\<lambda>(t, prepared).
     io_bind (owner_client_generation sv (requests_gateway srv) c) (\<lambda>latest.
     io_bind (io_ensure (g = latest) denied) (\<lambda>_.
     io_bind (open_queue_now qj srv) (\<lambda>q.
     io_bind clock (\<lambda>now.
     io_bind (claim qj q i c g t op now) (\<lambda>(claimed, q).
     io_bind (io_lift claimed) (\<lambda>claimed.
     io_bind clock (\<lambda>now.
     io_bind (io_try (audit_mutation sv (requests_gateway srv) c (target_app t) (kind_action (target_kind t)) True now)) (\<lambda>audited.
       (case audited of
          Err e \<Rightarrow> io_bind (once (finish qj q i (Err e))) (\<lambda>_. io_fail e)
        | Ok _ \<Rightarrow>
            io_match (spawn i prepared)
              (\<lambda>_. io_bind register (\<lambda>_. io_return claimed))
              (\<lambda>e. io_bind (open_queue_now qj srv) (\<lambda>q.
                   io_bind (once (finish qj q i (Err (from_io e)))) (\<lambda>_. io_fail (from_io e)))))))))))))))))))"

text \<open>What the worker does to the queue while it runs and when it ends.\<close>

definition report_progress ::
  "queue_file codec \<Rightarrow> agent_requests \<Rightarrow> string \<Rightarrow> string option \<Rightarrow> (app_error, unit) prog" where
  "report_progress qj srv i stage_name =
     io_bind (io_try clock) (\<lambda>now.
       io_match (queue_open qj (requests_root srv) (case now of Ok t \<Rightarrow> t | Err _ \<Rightarrow> 0))
         (\<lambda>q. if list_ex (has_id i) (rows q)
              then io_ignore (queue_save qj (q_path q) (change_row i (\<lambda>r. r\<lparr>stage := stage_name\<rparr>) (rows q)))
              else io_return ())
         (\<lambda>_. io_return ()))"

text \<open>One round of the monitor: whether the running operation is to be cancelled.\<close>

definition monitor_poll ::
  "services \<Rightarrow> queue_file codec \<Rightarrow> agent_requests \<Rightarrow> string \<Rightarrow> string \<Rightarrow> (app_error, bool) prog" where
  "monitor_poll sv qj srv i g =
     io_bind (io_try
       (io_bind (open_queue_now qj srv) (\<lambda>q.
        io_bind (io_lift (find_row q i)) (\<lambda>row.
        io_bind (owner_client_generation sv (requests_gateway srv) (req_client (request row))) (\<lambda>now_g.
          io_return (cancel_requested (request row) \<or> now_g \<noteq> g)))))) (\<lambda>r.
       io_return (case r of
           Ok stop \<Rightarrow> stop
         | Err e \<Rightarrow> code_of e \<noteq> OperationBusy))"

fun finish_retry ::
  "queue_file codec \<Rightarrow> agent_requests \<Rightarrow> string \<Rightarrow> app_error check \<Rightarrow> nat \<Rightarrow> (app_error, unit) prog" where
  "finish_retry qj srv i outcome 0 = io_return ()"
| "finish_retry qj srv i outcome (Suc n) =
     io_match (io_bind (open_queue_now qj srv) (\<lambda>q. once (finish qj q i outcome)))
       (\<lambda>_. io_return ())
       (\<lambda>e. if code_of e = OperationBusy then finish_retry qj srv i outcome n else io_return ())"

definition finish_worker ::
  "queue_file codec \<Rightarrow> agent_requests \<Rightarrow> string \<Rightarrow> app_error check \<Rightarrow> (app_error, unit) prog" where
  "finish_worker qj srv i outcome = finish_retry qj srv i outcome 20"

end
