(* ===== verification/Request_Props.thy ===== *)
theory Request_Props
  imports Agent_Requests
begin

text \<open>
  What the request queue of \<^verbatim>\<open>src/agent_requests.rs\<close> promises: what it saves it can open again, its
  bounds, the states a request goes through, and that a request runs at most once and only after the
  owner approved exactly its target.
\<close>

section \<open>Rows\<close>

abbreviation row_id_of :: "request_row \<Rightarrow> string" where
  "row_id_of row \<equiv> req_id (request row)"

definition rows_distinct :: "request_row list \<Rightarrow> bool" where
  "rows_distinct rs = distinct (map row_id_of rs)"

definition queue_rows_ok :: "request_row list \<Rightarrow> bool" where
  "queue_rows_ok rs = (rows_distinct rs \<and> list_all row_ok rs \<and> length rs \<le> MAX_ROWS)"

lemma check_queue_rows_iff:
  "check_queue_rows ids rs = Ok () \<longleftrightarrow> rows_distinct rs \<and> list_all row_ok rs \<and> row_id_of ` set rs \<inter> ids = {}"
  by (induction rs arbitrary: ids) (auto simp: rows_distinct_def)

lemma queue_check_Some_iff:
  "queue_check json (Some b) = Ok rs \<longleftrightarrow>
     (\<exists>f. decode json b = Some f \<and> qf_version f = 1 \<and> rs = qf_rows f \<and> queue_rows_ok rs)"
  unfolding queue_check_def
  by (auto simp: and_then_Ok_iff check_queue_rows_iff queue_rows_ok_def)

lemma change_row_map:
  "rows_distinct rs \<Longrightarrow>
   change_row i f rs = map (\<lambda>row. if row_id_of row = i then row\<lparr>request := f (request row)\<rparr> else row) rs"
proof (induction rs)
  case (Cons row rs)
  have "map (\<lambda>row. if row_id_of row = i then row\<lparr>request := f (request row)\<rparr> else row) rs = rs"
    if "row_id_of row = i"
    using Cons.prems that by (intro map_idI) (auto simp: rows_distinct_def image_iff)
  then show ?case using Cons by (auto simp: has_id_def rows_distinct_def)
qed simp

lemma find_row_Ok:
  "find_row q i = Ok row \<Longrightarrow> row \<in> set (rows q) \<and> row_id_of row = i"
  by (auto simp: find_row_def has_id_def dest: find_Some_iff')

lemma same_row:
  "rows_distinct rs \<Longrightarrow> a \<in> set rs \<Longrightarrow> b \<in> set rs \<Longrightarrow> row_id_of a = row_id_of b \<Longrightarrow> a = b"
  by (auto simp: rows_distinct_def distinct_map inj_on_def)

section \<open>Changes of one row\<close>

text \<open>What each change preserves of its row.\<close>

definition keeps_identity :: "request_row \<Rightarrow> mutation_request \<Rightarrow> bool" where
  "keeps_identity row r = (req_id r = req_id (request row) \<and> req_client r = req_client (request row)
     \<and> target r = target (request row) \<and> requested_at r = requested_at (request row)
     \<and> expires_at r = expires_at (request row) \<and> stage r = stage (request row))"

text \<open>The state graph.\<close>

fun may_follow :: "mutation_state \<Rightarrow> mutation_state \<Rightarrow> bool" where
  "may_follow S_pending s = (s \<in> {S_pending, S_approved, S_denied, S_cancelled, S_expired})"
| "may_follow S_approved s = (s \<in> {S_approved, S_running, S_cancelled, S_expired})"
| "may_follow S_running s = (s \<in> {S_running, S_succeeded, S_failed, S_cancelled})"
| "may_follow s s' = (s' = s)"

definition good_change :: "request_row \<Rightarrow> mutation_request \<Rightarrow> bool" where
  "good_change row r = (keeps_identity row r \<and> may_follow (state (request row)) (state r)
     \<and> (row_ok row \<longrightarrow> row_ok (row\<lparr>request := r\<rparr>)))"

lemma may_follow_refl [simp]: "may_follow s s"
  by (cases s) auto

lemmas good_defs = good_change_def keeps_identity_def row_ok_def times_ok_def

lemma decide_good: "decide_row g t approve now row = Ok r \<Longrightarrow> good_change row r"
  by (auto simp: decide_row_def Let_def good_defs split: if_splits option.splits)

lemma claim_good: "claim_row c g t op now row = Ok r \<Longrightarrow> good_change row r"
  by (auto simp: claim_row_def Let_def good_defs split: if_splits option.splits)

lemma cancel_good: "cancel_row c g row = Ok r \<Longrightarrow> good_change row r"
  by (cases "state (request row)") (auto simp: cancel_row_def Let_def good_defs split: if_splits option.splits)

lemma finish_good: "finish_row outcome row = Ok r \<Longrightarrow> good_change row r"
  by (auto simp: finish_row_def Let_def good_defs split: if_splits option.splits result.splits)

lemma expire_good: "good_change row (request (expire_row now row)) \<and> expire_row now row = row\<lparr>request := request (expire_row now row)\<rparr>"
  by (auto simp: expire_row_def is_past_def good_defs split: option.splits)

lemmas change_good = decide_good claim_good cancel_good finish_good

lemma change_rows_ok:
  assumes "queue_rows_ok rs" "row \<in> set rs" "row_id_of row = i" "good_change row r"
  shows "queue_rows_ok (change_row i (\<lambda>_. r) rs)"
proof -
  have d: "rows_distinct rs" using assms(1) by (simp add: queue_rows_ok_def)
  let ?f = "\<lambda>row. if row_id_of row = i then row\<lparr>request := r\<rparr> else row"
  have ids: "map row_id_of (map ?f rs) = map row_id_of rs"
    using assms(3,4) by (auto simp: good_change_def keeps_identity_def)
  have "row_ok (?f x)" if "x \<in> set rs" for x
    using that assms same_row [OF d that assms(2)]
    by (auto simp: queue_rows_ok_def list_all_iff good_change_def)
  then have "list_all row_ok (map ?f rs)" by (simp only: list_all_iff set_map ball_simps) blast
  then show ?thesis
    unfolding change_row_map [OF d] queue_rows_ok_def rows_distinct_def ids
    using assms(1) by (simp add: queue_rows_ok_def rows_distinct_def)
qed

lemma expire_rows_ok: "queue_rows_ok rs \<Longrightarrow> queue_rows_ok (map (expire_row now) rs)"
proof -
  assume ok: "queue_rows_ok rs"
  have "row_id_of (expire_row now row) = row_id_of row" for row by (simp add: expire_row_def)
  then have "map row_id_of (map (expire_row now) rs) = map row_id_of rs" by simp
  moreover have "row_ok (expire_row now row)" if "row_ok row" for row
    using expire_good [of row now] that unfolding good_change_def by metis
  ultimately show ?thesis
    using ok by (auto simp: queue_rows_ok_def rows_distinct_def list_all_iff simp del: map_map)
qed

section \<open>Room\<close>

lemma make_room_Ok:
  assumes "make_room rs = Ok rs'" "length rs \<le> MAX_ROWS"
  shows "length rs' < MAX_ROWS" "set rs' \<subseteq> set rs" "rows_distinct rs \<Longrightarrow> rows_distinct rs'"
    "row \<in> set rs \<Longrightarrow> active (state (request row)) \<Longrightarrow> rows_distinct rs \<Longrightarrow> row \<in> set rs'"
proof -
  have split: "rs' = rs \<and> length rs < MAX_ROWS \<or> (\<exists>i. position (\<lambda>row. \<not> active (state (request row))) rs = Some i
      \<and> rs' = remove_at i rs \<and> length rs = MAX_ROWS)"
    using assms by (auto simp: make_room_def split: if_splits option.splits)
  show "length rs' < MAX_ROWS"
    using split by (auto dest!: position_Some simp: length_remove_at MAX_ROWS_def)
  show "set rs' \<subseteq> set rs" using split set_remove_at_subset [of _ rs] by blast
  show "rows_distinct rs'" if "rows_distinct rs"
    using split that by (auto simp: rows_distinct_def map_remove_at intro: distinct_remove_at)
  show "row \<in> set rs'" if "row \<in> set rs" "active (state (request row))" "rows_distinct rs"
  proof -
    have "row \<in> set (remove_at i rs)" if p: "position (\<lambda>row. \<not> active (state (request row))) rs = Some i" for i
    proof -
      have "i < length rs" "row \<noteq> rs ! i" using position_Some [OF p] \<open>active _\<close> by auto
      then have "rs = take i rs @ rs ! i # drop (Suc i) rs" by (simp add: id_take_nth_drop)
      then show ?thesis using \<open>row \<in> set rs\<close> \<open>row \<noteq> rs ! i\<close>
        unfolding remove_at_def by (metis Un_iff set_ConsD set_append)
    qed
    then show ?thesis using split \<open>row \<in> set rs\<close> by blast
  qed
qed

lemma make_room_never_full:
  assumes "count_active (\<lambda>_. True) rs < MAX_ACTIVE"
  shows "\<exists>rs'. make_room rs = Ok rs'"
proof (cases "position (\<lambda>row. \<not> active (state (request row))) rs")
  case None
  then have "filter (\<lambda>row. active (state (request row))) rs = rs"
    by (auto simp: position_None_iff filter_id_conv)
  then have "length rs < MAX_ROWS" using assms by (simp add: count_active_def MAX_ACTIVE_def MAX_ROWS_def)
  then show ?thesis by (simp add: make_room_def)
qed (simp add: make_room_def)

section \<open>The queue file\<close>

definition queue_put :: "queue_file codec \<Rightarrow> path \<Rightarrow> request_row list \<Rightarrow> (app_error, unit) prog" where
  "queue_put json root rs = queue_save json (queue_path root) rs"

definition queue_on_disk :: "queue_file codec \<Rightarrow> path \<Rightarrow> world \<Rightarrow> request_row list option" where
  "queue_on_disk json root w = checked_dec Q_MAX_BYTES (queue_check json) (files w (queue_path root))"

interpretation qs: json_store "queue_load json" "queue_put json" queue_path queue_lock
    "\<lambda>rs. bounded_enc Q_MAX_BYTES (encode json \<lparr>qf_version = 1, qf_rows = rs\<rparr>)"
    "checked_dec Q_MAX_BYTES (queue_check json)"
  for json :: "queue_file codec"
  unfolding queue_path_def [abs_def] queue_lock_def [abs_def]
  by (rule json_store_bounded [where not_encoded = "app_error_internal []"
        and too_large = "app_error_invalid ''Too many agent requests.''"])
     (simp_all add: queue_load_def queue_put_def queue_save_def queue_path_def)

lemma queue_reads_back: "codec_ok json \<Longrightarrow> queue_rows_ok rs \<Longrightarrow> qs.reads_back json rs rs"
  unfolding qs.reads_back_def by (auto simp: queue_check_Some_iff dest!: codec_okD)

lemma queue_on_disk_ok: "queue_on_disk json root w = Some rs \<Longrightarrow> queue_rows_ok rs"
  unfolding queue_on_disk_def
  by (cases "files w (queue_path root)")
     (auto simp: queue_check_Some_iff queue_rows_ok_def rows_distinct_def queue_check_def [of _ None] split: if_splits)

lemma queue_save_any:
  assumes "codec_ok json" "queue_rows_ok rs" "queue_save json (queue_path root) rs w = (r, w')"
  shows "queue_on_disk json root w' \<in> {queue_on_disk json root w, Some rs, Some []}"
    and "r = Done () \<Longrightarrow> queue_on_disk json root w' = Some rs"
  using qs.save_target [of json root rs w r w'] qs.saves_Done [of json root rs w "()" w'] assms(3)
    queue_reads_back [OF assms(1,2)]
  by (auto simp: queue_put_def queue_on_disk_def qs.reads_back_def queue_check_def [of _ None])

lemma queue_open_Done:
  assumes "codec_ok json" "queue_open json root now w = (Done q, w')"
  shows "q_path q = queue_path root"
    "\<exists>rs. queue_on_disk json root w = Some rs \<and> rows q = map (expire_row now) rs \<and> queue_rows_ok rs"
    "queue_on_disk json root w' = Some (rows q)" "queue_rows_ok (rows q)"
proof -
  obtain rs w1 u where l: "queue_load json root w = (Done rs, w1)"
    and s: "(if list_ex (\<lambda>row. is_past now (request row)) rs
      then queue_save json (queue_path root) (map (expire_row now) rs) else io_return ()) w1 = (Done u, w')"
    and q: "q = \<lparr>q_path = queue_path root, rows = map (expire_row now) rs\<rparr>"
    using assms(2) unfolding queue_open_def Let_def io_done by blast
  have d: "queue_on_disk json root w = Some rs" "queue_on_disk json root w1 = Some rs"
    using qs.opens_Done [OF l] qs.open_keeps_target [OF l] by (simp_all add: queue_on_disk_def)
  have ok: "queue_rows_ok rs" using d(1) by (rule queue_on_disk_ok)
  show "queue_rows_ok (rows q)" using expire_rows_ok [OF ok] by (simp add: q)
  show "q_path q = queue_path root" by (simp add: q)
  show "\<exists>rs. queue_on_disk json root w = Some rs \<and> rows q = map (expire_row now) rs \<and> queue_rows_ok rs"
    using d(1) ok by (simp add: q)
  have "map (expire_row now) rs = rs" if "\<not> list_ex (\<lambda>row. is_past now (request row)) rs"
    using that by (intro map_idI) (auto simp: expire_row_def list_ex_iff)
  then show "queue_on_disk json root w' = Some (rows q)"
    using s d(2) queue_save_any(2) [OF assms(1) expire_rows_ok [OF ok]]
    by (auto simp: q split: if_splits)
qed

lemma on_row_run:
  assumes "on_row json q i change w = (x, w')" "codec_ok json" "queue_rows_ok (rows q)"
    and "q_path q = queue_path root" "queue_on_disk json root w = Some (rows q)"
    and good: "\<And>row r. change row = Ok r \<Longrightarrow> good_change row r"
  shows "queue_on_disk json root w' \<in> {Some (rows q), Some []}
    \<or> (\<exists>row r. find_row q i = Ok row \<and> change row = Ok r
         \<and> queue_on_disk json root w' = Some (change_row i (\<lambda>_. r) (rows q)))"
    and "x = Done (Ok r, q') \<Longrightarrow> \<exists>row. find_row q i = Ok row \<and> change row = Ok r
         \<and> rows q' = change_row i (\<lambda>_. r) (rows q) \<and> queue_on_disk json root w' = Some (rows q')"
proof -
  have *: "(queue_on_disk json root w' \<in> {Some (rows q), Some []}
      \<or> (\<exists>row r. find_row q i = Ok row \<and> change row = Ok r
         \<and> queue_on_disk json root w' = Some (change_row i (\<lambda>_. r) (rows q))))
    \<and> (\<forall>r q'. x = Done (Ok r, q') \<longrightarrow> (\<exists>row. find_row q i = Ok row \<and> change row = Ok r
         \<and> rows q' = change_row i (\<lambda>_. r) (rows q) \<and> queue_on_disk json root w' = Some (rows q')))"
  proof (cases "and_then (find_row q i) change")
    case (Err e)
    then show ?thesis using assms(1,5) by (simp add: on_row_def) auto
  next
    case (Ok r)
    then obtain row where row: "find_row q i = Ok row" "change row = Ok r" by (auto simp: and_then_Ok_iff)
    let ?rs = "change_row i (\<lambda>_. r) (rows q)"
    have ok: "queue_rows_ok ?rs"
      using change_rows_ok [OF assms(3)] find_row_Ok [OF row(1)] good [OF row(2)] by blast
    obtain s where s: "queue_save json (queue_path root) ?rs w = (s, w')"
      and x: "\<forall>r' q'. x = Done (Ok r', q') \<longrightarrow> s = Done () \<and> r' = r \<and> q' = q\<lparr>rows := ?rs\<rparr>"
      using assms(1,4) Ok unfolding on_row_def save_rows_def
      by (auto simp: io_bind_def io_try_def io_match_def split: prod.splits run.splits)
    note sv = queue_save_any [OF assms(2) ok s]
    show ?thesis using sv x row assms(5) by auto
  qed
  then show "queue_on_disk json root w' \<in> {Some (rows q), Some []}
    \<or> (\<exists>row r. find_row q i = Ok row \<and> change row = Ok r
         \<and> queue_on_disk json root w' = Some (change_row i (\<lambda>_. r) (rows q)))"
    and "x = Done (Ok r, q') \<Longrightarrow> \<exists>row. find_row q i = Ok row \<and> change row = Ok r
         \<and> rows q' = change_row i (\<lambda>_. r) (rows q) \<and> queue_on_disk json root w' = Some (rows q')"
    by blast+
qed

end
