(* ===== verification/Request_History.thy ===== *)
theory Request_History
  imports Request_Props
begin

text \<open>
  Histories of the request queue of \<^verbatim>\<open>src/agent_requests.rs\<close>: the operations that reached the file,
  in the order in which they did. A request is claimed, that is handed to a worker, at most once and
  only within the time of an owner approval of exactly its target and credential.
\<close>

section \<open>Histories\<close>

datatype queue_event =
    Submitted string
  | Decided string string mutation_target bool u64
  | Claimed string string string mutation_target u64
  | Cancelled_request string
  | Finished string
  | Opened u64
  | Lost

text \<open>\<open>Lost\<close> is a write that died between removing the old file and renaming the new one: the file is
  gone and the next open sees an empty queue.\<close>

inductive queue_step :: "request_row list \<Rightarrow> queue_event \<Rightarrow> request_row list \<Rightarrow> bool" where
  q_submit: "make_room rs = Ok rs' \<Longrightarrow>
    queue_step rs (Submitted i) (rs' @ [\<lparr>request = new_request i c t now expires, credential_generation = g\<rparr>])"
| q_decide: "row \<in> set rs \<Longrightarrow> row_id_of row = i \<Longrightarrow> decide_row g t ap now row = Ok r \<Longrightarrow>
    queue_step rs (Decided i g t ap now) (change_row i (\<lambda>_. r) rs)"
| q_claim: "row \<in> set rs \<Longrightarrow> row_id_of row = i \<Longrightarrow> claim_row c g t op now row = Ok r \<Longrightarrow>
    queue_step rs (Claimed i c g t now) (change_row i (\<lambda>_. r) rs)"
| q_cancel: "row \<in> set rs \<Longrightarrow> row_id_of row = i \<Longrightarrow> cancel_row c g row = Ok r \<Longrightarrow>
    queue_step rs (Cancelled_request i) (change_row i (\<lambda>_. r) rs)"
| q_finish: "row \<in> set rs \<Longrightarrow> row_id_of row = i \<Longrightarrow> finish_row outcome row = Ok r \<Longrightarrow>
    queue_step rs (Finished i) (change_row i (\<lambda>_. r) rs)"
| q_open: "queue_step rs (Opened now) (map (expire_row now) rs)"
| q_lost: "queue_step rs Lost []"

fun submitted :: "queue_event list \<Rightarrow> string set" where
  "submitted [] = {}"
| "submitted (Submitted i # es) = insert i (submitted es)"
| "submitted (_ # es) = submitted es"

text \<open>Identifiers are 256 random bits; a history in which none repeats.\<close>

inductive queue_run :: "queue_event list \<Rightarrow> request_row list \<Rightarrow> bool" where
  run_empty: "queue_run [] []"
| run_step: "queue_run es rs \<Longrightarrow> queue_step rs e rs' \<Longrightarrow> (\<forall>i. e = Submitted i \<longrightarrow> i \<notin> submitted es)
    \<Longrightarrow> queue_run (e # es) rs'"

fun claims :: "string \<Rightarrow> queue_event list \<Rightarrow> nat" where
  "claims i [] = 0"
| "claims i (Claimed j c g t now # es) = (if j = i then 1 else 0) + claims i es"
| "claims i (_ # es) = claims i es"

definition approved_before :: "queue_event list \<Rightarrow> string \<Rightarrow> string \<Rightarrow> mutation_target \<Rightarrow> u64 \<Rightarrow> bool" where
  "approved_before es i g t until =
     (\<exists>now0. Decided i g t True now0 \<in> set es \<and> unat until \<le> unat now0 + 600)"

section \<open>The invariant\<close>

definition row_inv :: "queue_event list \<Rightarrow> request_row \<Rightarrow> bool" where
  "row_inv es row =
     (let i = row_id_of row; s = state (request row)
      in i \<in> submitted es \<and> (s \<in> {S_pending, S_approved} \<longrightarrow> claims i es = 0)
         \<and> (s = S_approved \<longrightarrow> (case approved_until (request row) of None \<Rightarrow> False
              | Some u \<Rightarrow> approved_before es i (credential_generation row) (target (request row)) u)))"

definition claims_inv :: "queue_event list \<Rightarrow> bool" where
  "claims_inv es =
     ((\<forall>i. claims i es \<le> 1 \<and> (i \<notin> submitted es \<longrightarrow> claims i es = 0))
      \<and> (\<forall>i c g t now. Claimed i c g t now \<in> set es \<longrightarrow>
           (\<exists>now0. Decided i g t True now0 \<in> set es \<and> unat now < unat now0 + 600)))"

definition queue_inv :: "queue_event list \<Rightarrow> request_row list \<Rightarrow> bool" where
  "queue_inv es rs = (rows_distinct rs \<and> (\<forall>row \<in> set rs. row_inv es row) \<and> claims_inv es)"

lemma row_inv_later:
  assumes "row_inv es row" "\<And>j. e \<noteq> Submitted j" "\<And>c g t now. e \<noteq> Claimed (row_id_of row) c g t now"
  shows "row_inv (e # es) row"
proof -
  have "claims (row_id_of row) (e # es) = claims (row_id_of row) es" using assms(3) by (cases e) auto
  moreover have "submitted (e # es) = submitted es" using assms(2) by (cases e) auto
  moreover have "approved_before es i g t u \<Longrightarrow> approved_before (e # es) i g t u" for i g t u
    by (auto simp: approved_before_def)
  ultimately show ?thesis using assms(1) by (auto simp: row_inv_def Let_def split: option.splits)
qed

lemma claims_inv_later:
  assumes "claims_inv es" "\<And>i c g t now. e \<noteq> Claimed i c g t now"
  shows "claims_inv (e # es)"
proof -
  have "\<not> (\<exists>i c g t now. e = Claimed i c g t now)" using assms(2) by blast
  then have "claims i (e # es) = claims i es" for i by (cases e) auto
  moreover have "submitted es \<subseteq> submitted (e # es)" by (cases e) auto
  ultimately show ?thesis using assms unfolding claims_inv_def by (auto dest: subsetD) (blast, metis)
qed

lemma in_change_row:
  assumes "rows_distinct rs" "row \<in> set rs" "row_id_of row = i" "x \<in> set (change_row i (\<lambda>_. r) rs)"
  shows "x = row\<lparr>request := r\<rparr> \<or> (x \<in> set rs \<and> row_id_of x \<noteq> i)"
  using assms(4) same_row [OF assms(1) _ assms(2)] assms(3)
  unfolding change_row_map [OF assms(1)] by (auto split: if_splits)

lemma change_distinct:
  assumes "rows_distinct rs" "row \<in> set rs" "row_id_of row = i" "req_id r = i"
  shows "rows_distinct (change_row i (\<lambda>_. r) rs)"
proof -
  have "map row_id_of (change_row i (\<lambda>_. r) rs) = map row_id_of rs"
    unfolding change_row_map [OF assms(1)] using assms(4) by auto
  then show ?thesis using assms(1) unfolding rows_distinct_def by metis
qed

lemma unat_min_saturating:
  "unat (min (saturating_add now APPROVAL_SECONDS) b) \<le> unat now + 600"
  using unat_saturating_add [of now APPROVAL_SECONDS]
  by (auto simp: APPROVAL_SECONDS_def min_def word_le_nat_alt split: if_splits)

text \<open>A change of one row whose new contents keep the row's invariant.\<close>

lemma queue_inv_change:
  assumes inv: "queue_inv es rs" and row: "row \<in> set rs" "row_id_of row = i" and r: "req_id r = i"
    and e: "\<And>j. e \<noteq> Submitted j" "\<And>j c g t now. e = Claimed j c g t now \<Longrightarrow> j = i"
    and new: "row_inv (e # es) (row\<lparr>request := r\<rparr>)" "claims_inv (e # es)"
  shows "queue_inv (e # es) (change_row i (\<lambda>_. r) rs)"
proof -
  have d: "rows_distinct rs" using inv by (simp add: queue_inv_def)
  have "row_inv (e # es) x" if "x \<in> set (change_row i (\<lambda>_. r) rs)" for x
  proof -
    from in_change_row [OF d row that] show ?thesis
    proof
      assume "x \<in> set rs \<and> row_id_of x \<noteq> i"
      then show ?thesis using inv e by (intro row_inv_later) (auto simp: queue_inv_def)
    qed (use new in simp)
  qed
  then show ?thesis using change_distinct [OF d row r] new(2) by (simp add: queue_inv_def)
qed

lemma queue_inv_step:
  assumes inv: "queue_inv es rs" and step: "queue_step rs e rs'"
    and fresh: "\<And>i. e = Submitted i \<Longrightarrow> i \<notin> submitted es" and len: "length rs \<le> MAX_ROWS"
  shows "queue_inv (e # es) rs'"
  using step
proof cases
  case (q_submit rs1 i c t now expires g)
  note mr = make_room_Ok [OF q_submit(3) len]
  have d: "rows_distinct rs" "rows_distinct rs1" using inv mr(3) by (simp_all add: queue_inv_def)
  have new: "i \<notin> submitted es" using fresh q_submit(1) by simp
  have old: "row_inv es row" if "row \<in> set rs1" for row
    using mr(2) that inv by (auto simp: queue_inv_def)
  then have "row_id_of row \<noteq> i" if "row \<in> set rs1" for row
    using new that by (auto simp: row_inv_def Let_def)
  moreover have "row_inv (e # es) row" if "row \<in> set rs1" for row
    using old [OF that] unfolding q_submit(1)
    by (auto simp: row_inv_def Let_def approved_before_def split: option.splits)
  moreover have "row_inv (e # es) \<lparr>request = new_request i c t now expires, credential_generation = g\<rparr>"
    using new inv by (simp add: row_inv_def Let_def q_submit(1) new_request_def queue_inv_def claims_inv_def)
  moreover have "claims_inv (e # es)"
    using inv by (intro claims_inv_later) (auto simp: queue_inv_def q_submit(1))
  ultimately show ?thesis
    using d(2) by (auto simp: q_submit(2) queue_inv_def rows_distinct_def new_request_def)
next
  case (q_decide row i g t ap now r)
  have ri: "row_inv es row" using inv q_decide(3) by (simp add: queue_inv_def)
  note k = decide_good [OF q_decide(5), unfolded good_change_def keeps_identity_def]
  have "row_inv (e # es) (row\<lparr>request := r\<rparr>)"
    using ri q_decide(4,5) unat_min_saturating [of now "expires_at (request row)"]
    by (auto simp: row_inv_def Let_def q_decide(1) decide_row_def approved_before_def split: if_splits)
  moreover have "claims_inv (e # es)"
    using inv by (intro claims_inv_later) (auto simp: queue_inv_def q_decide(1))
  ultimately show ?thesis
    unfolding q_decide(2) using k q_decide(1,3,4) by (intro queue_inv_change [OF inv]) auto
next
  case (q_claim row i c g t op now r)
  have ri: "row_inv es row" using inv q_claim(3) by (simp add: queue_inv_def)
  obtain u where c: "state (request row) = S_approved" "approved_until (request row) = Some u" "now < u"
    "credential_generation row = g" "target (request row) = t"
    and r: "r = (request row)\<lparr>state := S_running, started_at := Some now, operation_id := Some op\<rparr>"
    using q_claim(5) by (auto simp: claim_row_def Let_def not_le split: if_splits option.splits)
  have none: "claims i es = 0" and ap: "approved_before es i g t u" "i \<in> submitted es"
    using ri c q_claim(4) by (auto simp: row_inv_def Let_def)
  obtain now0 where now0: "Decided i g t True now0 \<in> set es" "unat now < unat now0 + 600"
    using ap(1) c(3) by (auto simp: approved_before_def word_less_nat_alt)
  have "row_inv (e # es) (row\<lparr>request := r\<rparr>)"
    using ap(2) q_claim(4) by (simp add: row_inv_def Let_def q_claim(1) r)
  moreover have "claims_inv (e # es)"
  proof -
    have "claims_inv es" using inv by (simp add: queue_inv_def)
    then show ?thesis unfolding claims_inv_def q_claim(1) using none now0 ap(2) by auto
  qed
  ultimately show ?thesis
    unfolding q_claim(2) using q_claim(1,3,4) by (intro queue_inv_change [OF inv]) (auto simp: r)
next
  case (q_cancel row i c g r)
  have ri: "row_inv es row" using inv q_cancel(3) by (simp add: queue_inv_def)
  have "row_inv (e # es) (row\<lparr>request := r\<rparr>) \<and> req_id r = i"
    using ri q_cancel(4,5)
    by (auto simp: row_inv_def Let_def q_cancel(1) cancel_row_def split: if_splits)
  moreover have "claims_inv (e # es)"
    using inv by (intro claims_inv_later) (auto simp: queue_inv_def q_cancel(1))
  ultimately show ?thesis
    unfolding q_cancel(2) using q_cancel(1,3,4) by (intro queue_inv_change [OF inv]) auto
next
  case (q_finish row i outcome r)
  have ri: "row_inv es row" using inv q_finish(3) by (simp add: queue_inv_def)
  have "row_inv (e # es) (row\<lparr>request := r\<rparr>) \<and> req_id r = i"
    using ri q_finish(4,5)
    by (auto simp: row_inv_def Let_def q_finish(1) finish_row_def split: if_splits result.splits)
  moreover have "claims_inv (e # es)"
    using inv by (intro claims_inv_later) (auto simp: queue_inv_def q_finish(1))
  ultimately show ?thesis
    unfolding q_finish(2) using q_finish(1,3,4) by (intro queue_inv_change [OF inv]) auto
next
  case (q_open now)
  have "row_inv (e # es) (expire_row now row)" if "row \<in> set rs" for row
  proof -
    have "row_inv (e # es) row" using inv that by (intro row_inv_later) (auto simp: queue_inv_def q_open)
    then show ?thesis by (auto simp: expire_row_def row_inv_def Let_def)
  qed
  moreover have "claims_inv (e # es)"
    using inv by (intro claims_inv_later) (auto simp: queue_inv_def q_open)
  moreover have "map row_id_of (map (expire_row now) rs) = map row_id_of rs" by (simp add: expire_row_def)
  ultimately show ?thesis
    using inv unfolding q_open(2) queue_inv_def rows_distinct_def by (auto simp del: map_map)
next
  case q_lost
  then have "claims_inv (e # es)" using inv by (intro claims_inv_later) (auto simp: queue_inv_def)
  then show ?thesis by (simp add: q_lost(2) queue_inv_def rows_distinct_def)
qed

lemma length_change_row [simp]: "length (change_row i f rs) = length rs"
  by (induction rs) auto

lemma queue_step_length: "queue_step rs e rs' \<Longrightarrow> length rs \<le> MAX_ROWS \<Longrightarrow> length rs' \<le> MAX_ROWS"
  by (induction rule: queue_step.induct) (auto dest: make_room_Ok(1))

lemma queue_run_inv: "queue_run es rs \<Longrightarrow> queue_inv es rs \<and> length rs \<le> MAX_ROWS"
proof (induction rule: queue_run.induct)
  case run_empty
  then show ?case by (simp add: queue_inv_def rows_distinct_def claims_inv_def)
next
  case (run_step es rs e rs')
  then show ?case using queue_inv_step queue_step_length by blast
qed

section \<open>Operations are steps\<close>

lemma claim_step:
  assumes "codec_ok json" "queue_open json root now0 w = (Done q, w1)"
    and "claim json q i c g t op now w1 = (Done (Ok r, q'), w')"
  shows "\<exists>rs. queue_on_disk json root w = Some rs \<and> queue_step rs (Opened now0) (rows q)
    \<and> queue_step (rows q) (Claimed i c g t now) (rows q') \<and> queue_on_disk json root w' = Some (rows q')"
proof -
  note o = queue_open_Done [OF assms(1,2)]
  obtain rs where rs: "queue_on_disk json root w = Some rs" "rows q = map (expire_row now0) rs" using o(2) by blast
  have "queue_step rs (Opened now0) (rows q)" unfolding rs(2) by (rule q_open)
  moreover have good: "\<And>row r. claim_row c g t op now row = Ok r \<Longrightarrow> good_change row r" by (rule claim_good)
  moreover obtain row where row: "find_row q i = Ok row" "claim_row c g t op now row = Ok r"
    "rows q' = change_row i (\<lambda>_. r) (rows q)" "queue_on_disk json root w' = Some (rows q')"
    using on_row_run(2) [OF assms(3) [unfolded claim_def] assms(1) o(4,1,3) good refl] by blast
  moreover have "queue_step (rows q) (Claimed i c g t now) (rows q')"
    unfolding row(3) using find_row_Ok [OF row(1)] row(2) by (intro q_claim) auto
  ultimately show ?thesis using rs(1) by blast
qed

section \<open>Submission\<close>

lemma filter_remove_at: "i < length xs \<Longrightarrow> \<not> P (xs ! i) \<Longrightarrow> filter P (remove_at i xs) = filter P xs"
proof -
  assume i: "i < length xs" "\<not> P (xs ! i)"
  then have "xs = take i xs @ xs ! i # drop (Suc i) xs" by (simp add: id_take_nth_drop)
  then have "filter P xs = filter P (take i xs) @ filter P (xs ! i # drop (Suc i) xs)"
    by (metis filter_append)
  with i(2) show ?thesis by (simp add: remove_at_def)
qed

lemma make_room_count: "make_room rs = Ok rs' \<Longrightarrow> count_active p rs' = count_active p rs"
  by (auto simp: make_room_def count_active_def filter_remove_at split: if_splits option.splits dest!: position_Some)

lemma new_request_ok:
  assumes "checked_add now REQUEST_SECONDS = Some e" "client_valid c" "digest_valid g" "target_ok t" "digest_valid i"
  shows "row_ok \<lparr>request = new_request i c t now e, credential_generation = g\<rparr>"
    and "unat e = unat now + 86400"
proof -
  show n: "unat e = unat now + 86400" using checked_add_Some [OF assms(1)] by (simp add: REQUEST_SECONDS_def)
  have "e = now + REQUEST_SECONDS" using assms(1) by (auto simp: checked_add_def split: if_splits)
  then show "row_ok \<lparr>request = new_request i c t now e, credential_generation = g\<rparr>"
    using assms n by (simp add: row_ok_def times_ok_def new_request_def word_less_nat_alt)
qed

lemma hex_digest_valid: "length bs = 32 \<Longrightarrow> digest_valid (hex_bytes bs)"
  using hex_bytes_hex [of bs] by (simp add: digest_valid_def length_hex_bytes)

lemma submit_Done:
  assumes "submit json q c g t now w = (Done (res, q'), w')" "length (rows q) \<le> MAX_ROWS"
  shows "(\<exists>e. res = Err e \<and> queue_on_disk json root w' = queue_on_disk json root w)
    \<or> (\<exists>rs bs expires w1. make_room (rows q) = Ok rs \<and> length bs = 32 \<and> bs = take 32 (entropy w)
         \<and> count_active (\<lambda>_. True) (rows q) < MAX_ACTIVE
         \<and> count_active (\<lambda>row. req_client (request row) = c) (rows q) < 8
         \<and> checked_add now REQUEST_SECONDS = Some expires \<and> files w1 = files w
         \<and> (let r = new_request (hex_bytes bs) c t now expires;
                rs' = rs @ [\<lparr>request = r, credential_generation = g\<rparr>]
            in rows q' = rs' \<and> (\<forall>x. res = Ok x \<longrightarrow> x = r)
               \<and> queue_save json (q_path q) rs' w1 = (case res of Ok _ \<Rightarrow> (Done (), w') | Err e \<Rightarrow> (Failed e, w'))))"
proof (cases "count_active (\<lambda>_. True) (rows q) \<ge> MAX_ACTIVE
    \<or> count_active (\<lambda>row. req_client (request row) = c) (rows q) \<ge> 8")
  case True
  then show ?thesis using assms(1) by (auto simp: submit_def)
next
  case False
  then obtain rs where rs: "make_room (rows q) = Ok rs" using make_room_never_full [of "rows q"] by (auto simp: not_le)
  show ?thesis
  proof (cases "32 \<le> length (entropy w)")
    case no: False
    then show ?thesis using assms(1) False rs
      by (auto simp: submit_def io_bind_def random_bytes_def)
  next
    case True
    let ?bs = "take 32 (entropy w)" and ?w = "w\<lparr>entropy := drop 32 (entropy w)\<rparr>"
    show ?thesis
    proof (cases "checked_add now REQUEST_SECONDS")
      case None
      then show ?thesis using assms(1) False rs True
        by (auto simp: submit_def io_bind_def random_bytes_def queue_on_disk_def)
    next
      case (Some expires)
      then show ?thesis using assms(1) False rs True
        by (intro disjI2 exI [of _ rs] exI [of _ ?bs] exI [of _ expires] exI [of _ ?w])
           (auto simp: submit_def io_bind_def random_bytes_def Let_def save_rows_def io_try_def io_match_def
              and_then_Ok_iff split: prod.splits run.splits)
    qed
  qed
qed

lemma submit_keeps_queue:
  assumes "codec_ok json" "q_path q = queue_path root" "queue_rows_ok (rows q)" "queue_on_disk json root w = Some (rows q)"
    and "client_valid c" "digest_valid g" "target_ok t"
    and "hex_bytes (take 32 (entropy w)) \<notin> row_id_of ` set (rows q)"
    and "submit json q c g t now w = (Done (res, q'), w')"
  shows "\<exists>rs. queue_on_disk json root w' = Some rs \<and> queue_rows_ok rs"
    and "res = Ok r \<Longrightarrow> queue_on_disk json root w' = Some (rows q')
      \<and> count_active (\<lambda>_. True) (rows q') \<le> MAX_ACTIVE
      \<and> count_active (\<lambda>row. req_client (request row) = c) (rows q') \<le> 8
      \<and> last (rows q') = \<lparr>request = r, credential_generation = g\<rparr> \<and> state r = S_pending \<and> target r = t
      \<and> unat (expires_at r) = unat now + 86400
      \<and> (\<forall>row \<in> set (rows q). active (state (request row)) \<longrightarrow> row \<in> set (rows q'))"
proof -
  have len: "length (rows q) \<le> MAX_ROWS" and d: "rows_distinct (rows q)"
    using assms(3) by (simp_all add: queue_rows_ok_def)
  have "(\<exists>rs. queue_on_disk json root w' = Some rs \<and> queue_rows_ok rs)
    \<and> (\<forall>r. res = Ok r \<longrightarrow> queue_on_disk json root w' = Some (rows q')
      \<and> count_active (\<lambda>_. True) (rows q') \<le> MAX_ACTIVE
      \<and> count_active (\<lambda>row. req_client (request row) = c) (rows q') \<le> 8
      \<and> last (rows q') = \<lparr>request = r, credential_generation = g\<rparr> \<and> state r = S_pending \<and> target r = t
      \<and> unat (expires_at r) = unat now + 86400
      \<and> (\<forall>row \<in> set (rows q). active (state (request row)) \<longrightarrow> row \<in> set (rows q')))"
    using submit_Done [OF assms(9) len, of root]
  proof (elim disjE exE conjE)
    fix e assume "res = Err e" "queue_on_disk json root w' = queue_on_disk json root w"
    then show ?thesis using assms(3,4) by auto
  next
    fix rs bs expires w1
    assume rs: "make_room (rows q) = Ok rs" and bs: "length bs = 32" "bs = take 32 (entropy w)"
      and n: "count_active (\<lambda>_. True) (rows q) < MAX_ACTIVE"
        "count_active (\<lambda>row. req_client (request row) = c) (rows q) < 8"
      and ex: "checked_add now REQUEST_SECONDS = Some expires" and fs: "files w1 = files w"
      and run: "let r = new_request (hex_bytes bs) c t now expires;
                rs' = rs @ [\<lparr>request = r, credential_generation = g\<rparr>]
            in rows q' = rs' \<and> (\<forall>x. res = Ok x \<longrightarrow> x = r)
               \<and> queue_save json (q_path q) rs' w1 = (case res of Ok _ \<Rightarrow> (Done (), w') | Err e \<Rightarrow> (Failed e, w'))"
    define r where "r = new_request (hex_bytes bs) c t now expires"
    let ?row = "\<lparr>request = r, credential_generation = g\<rparr>"
    let ?rs = "rs @ [?row]"
    note mr = make_room_Ok [OF rs len]
    note new = new_request_ok [OF ex assms(5,6,7) hex_digest_valid [OF bs(1)]]
    have fields: "row_id_of ?row = hex_bytes bs" "state r = S_pending" "target r = t" "req_client r = c" "expires_at r = expires"
      by (simp_all add: r_def new_request_def)
    have ok: "queue_rows_ok ?rs"
      using mr(1,2) mr(3) [OF d] new(1) assms(3,8) bs(2) fields(1)
      by (auto simp: queue_rows_ok_def rows_distinct_def list_all_iff r_def)
    have q': "rows q' = ?rs" and x: "\<forall>x. res = Ok x \<longrightarrow> x = r"
      and sv: "queue_save json (queue_path root) ?rs w1 = (case res of Ok _ \<Rightarrow> (Done (), w') | Err e \<Rightarrow> (Failed e, w'))"
      using run assms(2) by (simp_all add: Let_def r_def)
    have disk1: "queue_on_disk json root w1 = Some (rows q)" using fs assms(4) by (simp add: queue_on_disk_def)
    have any: "queue_on_disk json root w' \<in> {Some (rows q), Some ?rs, Some []}"
      using sv queue_save_any(1) [OF assms(1) ok] disk1 by (cases res) fastforce+
    have done_: "res = Ok y \<Longrightarrow> queue_on_disk json root w' = Some ?rs" for y
      using sv queue_save_any(2) [OF assms(1) ok] by (cases res) auto
    have "queue_rows_ok []" by (simp add: queue_rows_ok_def rows_distinct_def)
    then have first: "\<exists>rs. queue_on_disk json root w' = Some rs \<and> queue_rows_ok rs"
      using any ok assms(3) by auto
    have counts: "count_active p ?rs \<le> Suc (count_active p (rows q))" for p
      using make_room_count [OF rs, of p] by (simp add: count_active_def)
    have "count_active (\<lambda>_. True) ?rs \<le> MAX_ACTIVE"
      "count_active (\<lambda>row. req_client (request row) = c) ?rs \<le> 8"
      using counts n by (meson Suc_leI le_trans)+
    moreover have "\<forall>row \<in> set (rows q). active (state (request row)) \<longrightarrow> row \<in> set ?rs"
      using mr(4) d by simp
    ultimately show ?thesis
      using first done_ x fields new(2) q' by auto
  qed
  then show "\<exists>rs. queue_on_disk json root w' = Some rs \<and> queue_rows_ok rs"
    and "res = Ok r \<Longrightarrow> queue_on_disk json root w' = Some (rows q')
      \<and> count_active (\<lambda>_. True) (rows q') \<le> MAX_ACTIVE
      \<and> count_active (\<lambda>row. req_client (request row) = c) (rows q') \<le> 8
      \<and> last (rows q') = \<lparr>request = r, credential_generation = g\<rparr> \<and> state r = S_pending \<and> target r = t
      \<and> unat (expires_at r) = unat now + 86400
      \<and> (\<forall>row \<in> set (rows q). active (state (request row)) \<longrightarrow> row \<in> set (rows q'))" by blast+
qed

section \<open>Sample\<close>

definition sample_binding :: engine_binding where
  "sample_binding = \<lparr>schema_version = 1, engine_program = ''docker'', endpoint = ''unix:///s''\<rparr>"

definition sample_target :: "string \<Rightarrow> mutation_target" where
  "sample_target n = \<lparr>target_kind = Install_app, target_app = ''a'', target_name = n,
     fingerprint = replicate 64 (CHR ''0''), engine = sample_binding,
     engine_fingerprint = replicate 64 (CHR ''0'')\<rparr>"

definition sample_gen :: string where "sample_gen = replicate 64 (CHR ''1'')"
definition sample_req :: string where "sample_req = hex_bytes (replicate 32 (CHR 0x01))"

definition sample_row1 :: request_row where
  "sample_row1 = \<lparr>request = new_request sample_req ''c'' (sample_target ''A'') 5 86405, credential_generation = sample_gen\<rparr>"

definition sample_history :: "queue_event list" where
  "sample_history = [Claimed sample_req ''c'' sample_gen (sample_target ''A'') 9,
     Decided sample_req sample_gen (sample_target ''A'') True 7, Submitted sample_req]"

lemma sample_history_run: "\<exists>rs. queue_run sample_history rs"
proof -
  let ?t = "sample_target ''A''"
  define r0 where "r0 = new_request sample_req ''c'' ?t 5 86405"
  define r1 where "r1 = r0\<lparr>state := S_approved, approved_until := Some 607\<rparr>"
  define r2 where "r2 = r1\<lparr>state := S_running, started_at := Some 9, operation_id := Some 1\<rparr>"
  let ?row = "\<lambda>r. \<lparr>request = r, credential_generation = sample_gen\<rparr>"
  have s1: "queue_step [] (Submitted sample_req) ([] @ [?row r0])"
    unfolding r0_def by (rule q_submit) (simp add: make_room_def MAX_ROWS_def)
  have m: "min (saturating_add 7 APPROVAL_SECONDS) (86405 :: u64) = 607" by code_simp
  have "decide_row sample_gen ?t True 7 (?row r0) = Ok r1"
    unfolding decide_row_def r1_def Let_def by (simp add: r0_def new_request_def m)
  from q_decide [of "?row r0" "[?row r0]" sample_req, OF _ _ this]
  have s2: "queue_step [?row r0] (Decided sample_req sample_gen ?t True 7) [?row r1]"
    by (simp add: has_id_def r0_def new_request_def)
  have "claim_row ''c'' sample_gen ?t 1 9 (?row r1) = Ok r2"
    unfolding claim_row_def r2_def Let_def by (simp add: r1_def r0_def new_request_def)
  from q_claim [of "?row r1" "[?row r1]" sample_req, OF _ _ this]
  have s3: "queue_step [?row r1] (Claimed sample_req ''c'' sample_gen ?t 9) [?row r2]"
    by (simp add: has_id_def r1_def r0_def new_request_def)
  have "queue_run [Submitted sample_req] [?row r0]"
    using run_step [OF run_empty s1] by simp
  from run_step [OF run_step [OF this s2] s3] show ?thesis
    unfolding sample_history_def by blast
qed

section \<open>Properties\<close>

text \<open>
  Claim C20. An agent's request runs at most once and only as approved: in any history of the queue
  file in which random identifiers do not repeat, including expiries, cancellations, removals and
  lost writes, a request is handed to a worker at most once, and then the owner approved exactly this
  identifier, credential and target less than ten minutes before.
\<close>

theorem request_runs_once_as_approved:
  assumes "queue_run es rs"
  shows "claims i es \<le> 1
    \<and> (Claimed i c g t now \<in> set es \<longrightarrow>
         (\<exists>now0. Decided i g t True now0 \<in> set es \<and> unat now < unat now0 + 600))"
  using queue_run_inv [OF assms] by (auto simp: queue_inv_def claims_inv_def)

theorem request_runs_once_as_approved_witness:
  "claims sample_req sample_history = 1 \<and> claims sample_req sample_history \<le> 1
   \<and> (\<exists>now0. Decided sample_req sample_gen (sample_target ''A'') True now0 \<in> set sample_history
        \<and> unat (9 :: u64) < unat now0 + 600)"
proof -
  obtain rs where run: "queue_run sample_history rs" using sample_history_run by blast
  have "claims sample_req sample_history = 1"
    "Claimed sample_req ''c'' sample_gen (sample_target ''A'') 9 \<in> set sample_history"
    by (simp_all add: sample_history_def)
  then show ?thesis using request_runs_once_as_approved [OF run] by blast
qed


text \<open>A disk without a queue, and a codec that knows the queue with one request of the given app name.\<close>

definition request_world :: world where
  "request_world = \<lparr>files = (\<lambda>_. None), dirs = {}, locked = {}, clock_secs = Some 5, clock_nanos = 7,
     entropy = replicate 32 (CHR 0x01), faults = []\<rparr>"

definition sample_row :: "string \<Rightarrow> request_row" where
  "sample_row n = \<lparr>request = new_request sample_req ''c'' (sample_target n) 5 86405, credential_generation = sample_gen\<rparr>"

definition sample_queue_json :: "string \<Rightarrow> queue_file codec" where
  "sample_queue_json n = table_codec [(\<lparr>qf_version = 1, qf_rows = [sample_row n]\<rparr>, ''1'')]"

lemma sample_queue_json_ok: "codec_ok (sample_queue_json n)"
  unfolding sample_queue_json_def by (rule table_codec_ok) simp

definition sample_queue :: queue where
  "sample_queue = \<lparr>q_path = queue_path [], rows = []\<rparr>"

definition opened_world :: world where
  "opened_world = request_world\<lparr>files := [queue_lock [] \<mapsto> []], dirs := {[]}\<rparr>"

lemma sample_queue_open: "queue_open (sample_queue_json n) [] 5 request_world = (Done sample_queue, opened_world)"
  unfolding queue_open_def queue_load_def open_checked_def open_locked_def read_bounded_def
  by (simp add: io_bind_def io_map_err_run fs_create_dir_all_def fs_open_lock_def fs_op_def fs_try_lock_def
      fs_exists_def next_fault_def request_world_def spend_fault_def put_file_def path_join_def queue_check_def
      sample_queue_def queue_path_def opened_world_def queue_lock_def)

lemma sample_submit:
  "\<exists>w'. submit (sample_queue_json n) sample_queue ''c'' sample_gen (sample_target n) 5 opened_world
     = (Done (Ok (request (sample_row n)), sample_queue\<lparr>rows := [sample_row n]\<rparr>), w')
     \<and> files w' (queue_path []) = Some ''1''"
proof -
  let ?w = "opened_world\<lparr>entropy := []\<rparr>"
  have w: "fst (write_file_atomically (queue_path []) ''1'' ?w) = Done ()"
    "files (snd (write_file_atomically (queue_path []) ''1'' ?w)) (queue_path []) = Some ''1''"
    unfolding opened_world_def by code_simp+
  then obtain w' where w': "write_file_atomically (queue_path []) ''1'' ?w = (Done (), w')"
    "files w' (queue_path []) = Some ''1''" by (metis prod.collapse)
  have e: "checked_add 5 REQUEST_SECONDS = Some 86405" by code_simp
  have s: "queue_save (sample_queue_json n) (queue_path []) [sample_row n] ?w = (Done (), w')"
    using w'(1) by (simp add: queue_save_def write_bounded_def sample_queue_json_def table_codec_def
        Q_MAX_BYTES_def io_map_err_run)
  have r: "random_bytes 32 opened_world = (Done (Some (replicate 32 (CHR 0x01))), ?w)"
    by (simp add: random_bytes_def opened_world_def request_world_def)
  have "submit (sample_queue_json n) sample_queue ''c'' sample_gen (sample_target n) 5 opened_world
     = (Done (Ok (request (sample_row n)), sample_queue\<lparr>rows := [sample_row n]\<rparr>), w')"
    unfolding submit_def count_active_def make_room_def
    using s by (simp add: sample_queue_def MAX_ACTIVE_def MAX_ROWS_def io_bind_def r e Let_def save_rows_def
        io_try_def io_match_def sample_row_def sample_req_def)
  then show ?thesis using w'(2) by blast
qed



end
