(* ===== verification/Runtime.thy ===== *)
theory Runtime
  imports Engine Setup
begin

text \<open>
  Commands of one app, \<^verbatim>\<open>src/runtime/mod.rs\<close>: the check of the prerequisites, status, start, stop and
  logs, the wait for an address to answer, and what is kept of a failure. Child processes, the probe of
  an address and the saved engine's readers are parameters, collected in \<open>runtime_env\<close>.
\<close>

section \<open>Environment\<close>

text \<open>A command runs under the operation's own token, or under a fresh one that nobody can raise.\<close>

datatype token_use = Own | Detached

type_synonym runner = "token_use \<Rightarrow> command_spec \<Rightarrow> (process_error, process_output) prog"

record runtime_env =
  engine_json :: "engine_binding codec"
  wsl_route :: "command_spec \<Rightarrow> (app_error, command_spec) result"
  show_error :: "app_error \<Rightarrow> string"

text \<open>\<^verbatim>\<open>EngineRunner\<close> over another runner.\<close>

definition engine_runner :: "runtime_env \<Rightarrow> engine_binding option \<Rightarrow> runner \<Rightarrow> runner" where
  "engine_runner env binding inner use = engine_run (wsl_route env) (show_error env) binding (inner use)"

definition DIAGNOSTIC_TIMEOUT :: nat where "DIAGNOSTIC_TIMEOUT = 30"
definition LIFECYCLE_TIMEOUT :: nat where "LIFECYCLE_TIMEOUT = 180"
definition PROVISION_TIMEOUT :: nat where "PROVISION_TIMEOUT = 900"
definition FIRST_START_TIMEOUT :: nat where "FIRST_START_TIMEOUT = 180"

section \<open>Messages\<close>

definition ellipsis :: string where
  "ellipsis = [CHR 0xE2, CHR 0x80, CHR 0xA6]"

text \<open>\<^verbatim>\<open>char_indices\<close>: where the characters of a text begin.\<close>

definition char_starts :: "string \<Rightarrow> nat list" where
  "char_starts s = filter (is_char_boundary s) [0..<length s]"

definition nth_start :: "string \<Rightarrow> nat \<Rightarrow> nat option" where
  "nth_start s n = (if n < length (char_starts s) then Some (char_starts s ! n) else None)"

definition last_chars :: "string \<Rightarrow> nat \<Rightarrow> string" where
  "last_chars s limit =
     (if char_count s \<le> limit then s
      else ellipsis @ drop (case nth_start s (char_count s - limit) of Some i \<Rightarrow> i | None \<Rightarrow> 0) s)"

definition concise_error :: "process_output \<Rightarrow> string" where
  "concise_error out =
     (let said = (if trim (stderr out) = [] then trim (stdout out) else trim (stderr out));
          kept = (if said = [] then ''the command returned an error''
                  else last_chars (redact_diagnostic said (truncated out)) 1000)
      in kept @ (if truncated out then newline # ''(output was truncated)'' else []))"

section \<open>Prerequisites\<close>

record doctor_check =
  check_id :: string
  check_label :: string
  check_ok :: bool
  check_detail :: string
  check_error :: "process_error option"

record doctor_report =
  doctor_ready :: bool
  doctor_checks :: "doctor_check list"

definition doctor_verdict :: "string \<Rightarrow> string \<Rightarrow> process_output \<Rightarrow> doctor_check" where
  "doctor_verdict i label out =
     (if success out \<and> \<not> truncated out \<and> trim (stdout out) \<noteq> []
      then \<lparr>check_id = i, check_label = label, check_ok = True, check_detail = trim (stdout out), check_error = None\<rparr>
      else \<lparr>check_id = i, check_label = label, check_ok = False, check_detail = concise_error out,
            check_error = Some (process_error_new PFailed (concise_error out))\<rparr>)"

definition doctor_one :: "runner \<Rightarrow> string \<times> string \<times> string list \<Rightarrow> ('e, doctor_check) prog" where
  "doctor_one run spec =
     (let (i, label, as) = spec
      in io_match (run Detached (command_docker as None DIAGNOSTIC_TIMEOUT))
           (\<lambda>out. io_return (doctor_verdict i label out))
           (\<lambda>e. io_return \<lparr>check_id = i, check_label = label, check_ok = False, check_detail = pmessage e,
                            check_error = Some e\<rparr>))"

definition doctor_with :: "runner \<Rightarrow> ('e, doctor_report) prog" where
  "doctor_with run =
     io_bind (doctor_one run (''docker'', ''Docker engine'', [''version'', ''--format'', ''{{.Server.Version}}''])) (\<lambda>a.
     io_bind (doctor_one run (''compose'', ''Docker Compose'', [''compose'', ''version'', ''--short''])) (\<lambda>b.
       io_return \<lparr>doctor_ready = list_all check_ok [a, b], doctor_checks = [a, b]\<rparr>))"

definition doctor :: "runtime_env \<Rightarrow> (app_error, engine_binding) prog \<Rightarrow> runner \<Rightarrow> ('e, doctor_report) prog" where
  "doctor env discover run =
     io_match discover (\<lambda>b. doctor_with (engine_runner env (Some b) run))
       (\<lambda>e. io_return \<lparr>doctor_ready = False, doctor_checks =
          [\<lparr>check_id = ''docker'', check_label = ''Docker engine'', check_ok = False, check_detail = show_error env e,
            check_error = None\<rparr>]\<rparr>)"

section \<open>Commands of an app\<close>

definition compose_command :: "runtime_env \<Rightarrow> installed_app \<Rightarrow> string list \<Rightarrow> nat \<Rightarrow> (app_error, command_spec) prog" where
  "compose_command env app as t =
     (case runtime app of
        Compose name dir cfile \<Rightarrow>
          project_command (engine_json env) (wsl_route env) dir
            (command_docker ([''compose'', ''-f'', path_string cfile, ''-p'', name] @ as) (Some dir) t)
      | External \<Rightarrow> io_fail (app_error_new UnsupportedOperation
          ''This is a connected app; Local Store does not manage its server.''))"

definition checked_run :: "runner \<Rightarrow> token_use \<Rightarrow> command_spec \<Rightarrow> string \<Rightarrow> (app_error, process_output) prog" where
  "checked_run run use spec action =
     io_bind (io_map_err from_process (run use spec)) (\<lambda>out.
       if success out then io_return out
       else io_fail (app_error_new ProcessFailed (action @ '' failed: '' @ concise_error out)))"

datatype app_status = Connected | Running | Stopped | Broken

definition status_with :: "runtime_env \<Rightarrow> runner \<Rightarrow> installed_app \<Rightarrow> (app_error, app_status) prog" where
  "status_with env run app =
     (if \<not> is_managed app then io_return Connected
      else
        io_bind (compose_command env app [''ps'', ''--status'', ''running'', ''--quiet''] DIAGNOSTIC_TIMEOUT) (\<lambda>spec.
        io_bind (io_map_err from_process (run Detached spec)) (\<lambda>out.
          if \<not> success out then io_fail (app_error_new ProcessFailed (concise_error out))
          else io_return (if trim (stdout out) = [] then Stopped else Running))))"

definition start_with_cancel :: "runtime_env \<Rightarrow> runner \<Rightarrow> token_use \<Rightarrow> installed_app \<Rightarrow> (app_error, unit) prog" where
  "start_with_cancel env run use app =
     io_bind (compose_command env app [''up'', ''-d''] PROVISION_TIMEOUT) (\<lambda>spec.
     io_bind (checked_run run use spec ''Start'') (\<lambda>_. io_return ()))"

definition stop_with :: "runtime_env \<Rightarrow> runner \<Rightarrow> installed_app \<Rightarrow> (app_error, unit) prog" where
  "stop_with env run app =
     io_bind (compose_command env app [''stop''] LIFECYCLE_TIMEOUT) (\<lambda>spec.
     io_bind (checked_run run Detached spec ''Stop'') (\<lambda>_. io_return ()))"

definition tail_bytes :: "nat \<Rightarrow> string \<Rightarrow> string" where
  "tail_bytes n s =
     (if length s > n
      then drop (case find (\<lambda>i. length s - n \<le> i) (char_starts s) of Some i \<Rightarrow> i | None \<Rightarrow> 0) s
      else s)"

definition logs_with :: "runtime_env \<Rightarrow> runner \<Rightarrow> installed_app \<Rightarrow> (app_error, string) prog" where
  "logs_with env run app =
     io_bind (compose_command env app [''logs'', ''--tail'', ''200'', ''--no-color''] DIAGNOSTIC_TIMEOUT) (\<lambda>spec.
     io_bind (checked_run run Detached spec ''Logs'') (\<lambda>out.
       io_return (tail_bytes 32768 (stdout out @ stderr out))))"

section \<open>Waiting for an address\<close>

datatype readiness = Ready | Unreachable | Unknown

definition address_readiness_with :: "(string \<Rightarrow> bool) \<Rightarrow> string \<Rightarrow> readiness" where
  "address_readiness_with ready url =
     (if \<not> starts_with ''http://'' url then Unknown
      else if ready url then Ready else Unreachable)"

definition readiness_with :: "(string \<Rightarrow> bool) \<Rightarrow> installed_app \<Rightarrow> readiness" where
  "readiness_with ready app = address_readiness_with ready (launch_url app)"

text \<open>What the rounds of a wait see: whether the address answers, whether the token is raised, and by how many
  milliseconds the clock is ahead of the sleeps, each of which lasts at least its 400 milliseconds.\<close>

record rounds =
  answers :: "nat \<Rightarrow> bool"
  raised_in :: "nat \<Rightarrow> bool"
  ahead :: "nat \<Rightarrow> nat"

function wait_round :: "rounds \<Rightarrow> string \<Rightarrow> nat \<Rightarrow> nat \<Rightarrow> app_error check" where
  "wait_round rs target limit k =
     (if answers rs k then Ok ()
      else if raised_in rs k
      then Err (app_error_new Cancelled (''Setup was cancelled while waiting for '' @ target))
      else if limit \<le> 400 * k + ahead rs k
      then Err (app_error_new TimedOut (''Health check timed out for '' @ target))
      else wait_round rs target limit (Suc k))"
  by pat_completeness auto
termination
  by (relation "measure (\<lambda>(rs, target, limit, k). Suc limit - 400 * k)") auto

declare wait_round.simps [simp del]

definition wait_for_health_with :: "rounds \<Rightarrow> string \<Rightarrow> nat \<Rightarrow> app_error check" where
  "wait_for_health_with rs target seconds = wait_round rs target (1000 * seconds) 0"

text \<open>The path of the first release: start what a legacy entry names, then wait a minute for it.\<close>

definition boot_and_wait :: "runner \<Rightarrow> rounds \<Rightarrow> app_def \<Rightarrow> (app_error, unit) prog" where
  "boot_and_wait run rs app =
     io_bind
       (case def_compose app of
          Some compose \<Rightarrow>
            io_bind (checked_run run Detached
                (command_docker [''compose'', ''-f'', compose, ''up'', ''-d''] None PROVISION_TIMEOUT) ''Start'')
              (\<lambda>_. io_return ())
        | None \<Rightarrow> io_return ()) (\<lambda>_.
     io_lift (wait_for_health_with rs (case def_health app of Some h \<Rightarrow> h | None \<Rightarrow> def_url app) 60))"

section \<open>Last words\<close>

fun strip_colours :: "bool \<Rightarrow> string \<Rightarrow> string" where
  "strip_colours skipping [] = []"
| "strip_colours True (c # cs) = strip_colours (\<not> is_alpha c) cs"
| "strip_colours False (c # cs) =
     (if c = CHR 0x1B \<and> cs \<noteq> [] \<and> hd cs = CHR ''['' then strip_colours True (tl cs)
      else c # strip_colours False cs)"

definition strip_terminal_colours :: "string \<Rightarrow> string" where
  "strip_terminal_colours = strip_colours False"

definition strip_one_of :: "string list \<Rightarrow> string \<Rightarrow> string option" where
  "strip_one_of ps s = find_map (\<lambda>p. strip_suffix p s) ps"

definition log_line :: "string \<Rightarrow> string \<times> string" where
  "log_line l =
     (case split_once '' | '' l of
        Some (prefix, rest) \<Rightarrow> (trim prefix, trim rest)
      | None \<Rightarrow> (case strip_one_of ['' |'', ''|''] l of
                   Some prefix \<Rightarrow> (trim prefix, [])
                 | None \<Rightarrow> ([], l)))"

fun push_said :: "string \<Rightarrow> string \<Rightarrow> (string \<times> string list) list \<Rightarrow> (string \<times> string list) list" where
  "push_said service said [] = [(service, [said])]"
| "push_said service said ((name, ls) # rest) =
     (if name = service then (name, ls @ [said]) # rest else (name, ls) # push_said service said rest)"

definition by_service :: "string \<Rightarrow> (string \<times> string list) list" where
  "by_service logs =
     foldl (\<lambda>acc l. let (service, said) = log_line l in if said = [] then acc else push_said service said acc) []
       (filter (\<lambda>l. l \<noteq> []) (map trim (lines (strip_terminal_colours logs))))"

definition cut_chars :: "nat \<Rightarrow> string \<Rightarrow> string" where
  "cut_chars n s = (case nth_start s n of Some i \<Rightarrow> take i s @ ellipsis | None \<Rightarrow> s)"

definition service_label :: "installed_app \<Rightarrow> string \<Rightarrow> string" where
  "service_label app service =
     (case runtime app of
        Compose name _ _ \<Rightarrow>
          (case map_option (dropWhile (\<lambda>c. c = CHR ''-'')) (strip_prefix name service) of
             Some rest \<Rightarrow> if rest \<noteq> [] then rest else service
           | None \<Rightarrow> service)
      | External \<Rightarrow> service)"

definition said_parts :: "installed_app \<Rightarrow> string \<Rightarrow> string list" where
  "said_parts app logs =
     map (\<lambda>(service, ls). service_label app service @ '' last said: ''
            @ join '' | '' (map (cut_chars 200) (drop (length ls - 20) ls)))
       (sort_key (\<lambda>(service, _). length service) (by_service logs))"

definition container_part :: "process_output \<Rightarrow> string list" where
  "container_part out =
     (let states = filter (\<lambda>l. l \<noteq> []) (map trim (drop 1 (lines (stdout out))))
      in if states = [] then [] else [''Containers: '' @ join ''; '' states @ ''.''])"

text \<open>Best effort: an error on the way leaves its part out.\<close>

definition last_words :: "runtime_env \<Rightarrow> runner \<Rightarrow> installed_app \<Rightarrow> ('e, string option) prog" where
  "last_words env run app =
     io_bind
       (io_match (compose_command env app [''ps'', ''--all''] DIAGNOSTIC_TIMEOUT)
          (\<lambda>spec. io_match (run Detached spec) (\<lambda>out. io_return (container_part out)) (\<lambda>_. io_return []))
          (\<lambda>_. io_return [])) (\<lambda>containers.
     io_bind
       (io_match (logs_with env run app) (\<lambda>logs. io_return (said_parts app logs)) (\<lambda>_. io_return [])) (\<lambda>said.
       io_return
         (if containers @ said = [] then None
          else (let text = join '' '' (containers @ said)
                in Some (if char_count text > 2000 then cut_chars 2000 text else text)))))"

end
