(* ===== verification/Wsl_Projection.thy ===== *)
theory Wsl_Projection
  imports Engine Setup Plan_Props
begin

text \<open>
  The second Compose file of a plan that runs in the owned WSL distribution,
  \<^verbatim>\<open>src/runtime/engine/wsl/projection.rs\<close>: every path of this computer is translated to where the
  distribution mounts its drive. \<open>quote\<close> is \<^verbatim>\<open>serde_json::to_string\<close> of a string.
\<close>

section \<open>Projection\<close>

record path_pair =
  windows_path :: string
  linux_path :: string

record projected_seed =
  projected_path :: path_pair
  projected_content :: string

record projected_plan =
  projected_project :: path_pair
  projected_file :: path_pair
  projected_compose :: string
  projected_binds :: "path_pair list"
  projected_seeds :: "projected_seed list"

definition path_pair_new :: "string \<Rightarrow> (app_error, path_pair) result" where
  "path_pair_new w = and_then (windows_drive_path w) (\<lambda>l. Ok \<lparr>windows_path = w, linux_path = l\<rparr>)"

definition trim_end_separators :: "string \<Rightarrow> string" where
  "trim_end_separators s = rev (dropWhile (\<lambda>c. c = CHR ''/'' \<or> c = backslash) (rev s))"

definition child_pair :: "string \<Rightarrow> string \<Rightarrow> (app_error, path_pair) result" where
  "child_pair project relative = path_pair_new (trim_end_separators project @ ''/'' @ relative)"

fun project_seeds :: "string \<Rightarrow> string list \<Rightarrow> seed_file list \<Rightarrow> (app_error, projected_seed list) result" where
  "project_seeds project seen [] = Ok []"
| "project_seeds project seen (s # ss) =
     (if \<not> is_confined_seed_path (seed_path s) \<or> int (length (seed_content s)) > MAX_SEED_BYTES
         \<or> lowercase (seed_path s) \<in> set seen
      then Err (app_error_invalid ''Invalid or duplicate seed file for WSL projection.'')
      else and_then (child_pair project (seed_path s)) (\<lambda>pair.
           and_then (project_seeds project (lowercase (seed_path s) # seen) ss) (\<lambda>rest.
             Ok (\<lparr>projected_path = pair, projected_content = seed_content s\<rparr> # rest))))"

definition bind_of :: "string \<Rightarrow> plan_mount \<Rightarrow> (app_error, path_pair) result option" where
  "bind_of project m =
     (case m of
        Directory source _ _ \<Rightarrow> Some (child_pair project source)
      | Host source _ _ \<Rightarrow> Some (path_pair_new source)
      | Volume _ _ _ \<Rightarrow> None)"

text \<open>The message of an error, which a mount's renderer reports instead of the error.\<close>

definition invalid_text :: "app_error \<Rightarrow> string" where
  "invalid_text e = (case detail_of e of detail.Text m \<Rightarrow> redact m | _ \<Rightarrow> [])"

definition double_dollars :: "string \<Rightarrow> string" where
  "double_dollars = replace ''$'' ''$$''"

definition projected_mount ::
  "(string \<Rightarrow> (string, string) result) \<Rightarrow> string \<Rightarrow> plan_mount \<Rightarrow> (plan_error, string) result" where
  "projected_mount quote project m =
     and_then
       (case bind_of project m of
          None \<Rightarrow> Ok (''volume'', mount_volume m)
        | Some r \<Rightarrow> and_then (map_err (\<lambda>e. Projection (invalid_text e)) r) (\<lambda>pair. Ok (''bind'', linux_path pair))) (\<lambda>(mkind, source).
     and_then (map_err Projection (quote (double_dollars source))) (\<lambda>quoted_source.
     and_then (map_err Projection (quote (double_dollars (mount_target m)))) (\<lambda>quoted_target.
       Ok (line (''      - type: '' @ mkind) @ line (''        source: '' @ quoted_source)
           @ line (''        target: '' @ quoted_target)
           @ line (''        read_only: '' @ (if mount_read_only m then ''true'' else ''false''))
           @ (if mkind = ''bind'' then line ''        bind:'' @ line ''          create_host_path: false'' else [])))))"

definition project_plan ::
  "(string \<Rightarrow> (string, string) result) \<Rightarrow> (plan_error \<Rightarrow> string) \<Rightarrow> deployment_plan \<Rightarrow> string \<Rightarrow> seed_file list
   \<Rightarrow> (app_error, projected_plan) result" where
  "project_plan quote show_plan plan project seeds =
     and_then (path_pair_new project) (\<lambda>own.
     and_then (child_pair project COMPOSE_FILE) (\<lambda>compose_pair.
       if length seeds > MAX_SEEDS then Err (app_error_invalid ''Too many seed files for WSL projection.'')
       else
         and_then (project_seeds project [] seeds) (\<lambda>ss.
         and_then (map_err (\<lambda>e. app_error_invalid (show_plan e))
                     (to_compose_with_mounts (projected_mount quote project) plan)) (\<lambda>compose.
         and_then (map_ok id (List.map_filter (bind_of project) (concat (map mounts (services plan))))) (\<lambda>binds.
           Ok \<lparr>projected_project = own, projected_file = compose_pair, projected_compose = compose,
               projected_binds = binds, projected_seeds = ss\<rparr>)))))"

section \<open>Properties\<close>

definition on_drive :: "path_pair \<Rightarrow> bool" where
  "on_drive pair =
     (case split_char (CHR ''/'') (linux_path pair) of
        [] # mnt # [d] # parts \<Rightarrow> mnt = ''mnt'' \<and> is_lower d
          \<and> (parts = [[]] \<or> list_all (\<lambda>part. part \<notin> {[], ''.'', ''..''} \<and> CHR '':'' \<notin> set part) parts)
      | _ \<Rightarrow> False)"

lemma path_pair_on_drive: "path_pair_new w = Ok pair \<Longrightarrow> on_drive pair \<and> windows_path pair = w"
proof -
  assume "path_pair_new w = Ok pair"
  then obtain l where l: "windows_drive_path w = Ok l" "pair = \<lparr>windows_path = w, linux_path = l\<rparr>"
    unfolding path_pair_new_def and_then_Ok_iff by auto
  obtain d parts where "split_char (CHR ''/'') l = [] # ''mnt'' # [d] # parts" "is_lower d"
    "parts = [[]] \<or> (\<forall>part \<in> set parts. part \<notin> {[], ''.'', ''..''} \<and> CHR '':'' \<notin> set part \<and> CHR ''*'' \<notin> set part)"
    using wsl_path_stays_on_drive [OF l(1)] by blast
  then show ?thesis unfolding l(2) by (auto simp: on_drive_def list_all_iff)
qed

lemma project_seeds_Ok:
  "project_seeds project seen ss = Ok qs \<Longrightarrow>
   list_all (\<lambda>q. on_drive (projected_path q)) qs \<and> map projected_content qs = map seed_content ss"
proof (induction project seen ss arbitrary: qs rule: project_seeds.induct)
  case (2 project seen s ss)
  from 2(2) obtain pair rest where pair: "child_pair project (seed_path s) = Ok pair"
    and rest: "project_seeds project (lowercase (seed_path s) # seen) ss = Ok rest"
    and qs: "qs = \<lparr>projected_path = pair, projected_content = seed_content s\<rparr> # rest"
    and ok: "\<not> (\<not> is_confined_seed_path (seed_path s) \<or> int (length (seed_content s)) > MAX_SEED_BYTES
         \<or> lowercase (seed_path s) \<in> set seen)"
    unfolding project_seeds.simps by (auto simp: and_then_Ok_iff split: if_splits)
  from 2(1) [OF ok rest] path_pair_on_drive pair show ?case unfolding qs child_pair_def by simp
qed simp



end
