(* ===== verification/Operation_Lock.thy ===== *)
theory Operation_Lock
  imports World App_Model
begin

text \<open>
  The slot of the one operation that may change an app, \<^verbatim>\<open>src/runtime/mod.rs\<close>: \<^verbatim>\<open>lock_operation\<close>, the
  drop of an \<^verbatim>\<open>OperationLock\<close>, its token and \<^verbatim>\<open>cancel_operation\<close>. The table of the process is a value of
  \<open>operations\<close>, with the lock files its locks hold; a lock file held by another process is in
  \<open>locked\<close> of the world.
\<close>

section \<open>The table\<close>

text \<open>A token is a flag shared by its clones: the flag of an operation is named by the operation's number.\<close>

record operations =
  slots :: "string \<rightharpoonup> u64"
  next_id :: u64
  raised :: "u64 set"
  held_files :: "path set"

definition operations_new :: operations where
  "operations_new = \<lparr>slots = (\<lambda>_. None), next_id = 1, raised = {}, held_files = {}\<rparr>"

record operation_lock =
  lock_app :: string
  lock_id :: u64
  lock_file :: path

datatype cancel_token = Flag u64 | Fresh

definition is_cancelled :: "operations \<Rightarrow> cancel_token \<Rightarrow> bool" where
  "is_cancelled ops t = (case t of Flag i \<Rightarrow> i \<in> raised ops | Fresh \<Rightarrow> False)"

section \<open>Taking and releasing\<close>

definition operation_busy :: "string \<Rightarrow> app_error" where
  "operation_busy app = app_error_new OperationBusy
     (''Another operation is already running for '' @ [dquote] @ app @ [dquote] @ ''. Wait for it to finish.'')"

text \<open>The system's words for the lock that failed, which end this message in the code, are left out.\<close>

definition process_busy :: "string \<Rightarrow> app_error" where
  "process_busy app = app_error_new OperationBusy
     (''Another process may be operating on '' @ [dquote] @ app @ [dquote])"

text \<open>\<open>root\<close> is the directory of the lock files. A file that is locked through any open description, of this
  process or of another, cannot be locked again.\<close>

definition lock_operation :: "path \<Rightarrow> string \<Rightarrow> operations \<Rightarrow> (app_error, operation_lock \<times> operations) prog" where
  "lock_operation root app ops =
     (if \<not> is_valid_installed_app_id app
      then io_fail (app_error_invalid ''Invalid app ID for operation lock.'')
      else if slots ops app \<noteq> None then io_fail (operation_busy app)
      else
        (let file = path_join root (app @ ''.lock'')
         in io_bind (io_map_err from_io (fs_create_dir_all root)) (\<lambda>_.
            io_bind (io_map_err from_io (fs_open_lock file)) (\<lambda>_.
            io_bind (fs_try_lock file) (\<lambda>free.
              if \<not> free \<or> file \<in> held_files ops then io_fail (process_busy app)
              else io_return (\<lparr>lock_app = app, lock_id = next_id ops, lock_file = file\<rparr>,
                     ops\<lparr>slots := (slots ops)(app \<mapsto> next_id ops), next_id := next_id ops + 1,
                         held_files := insert file (held_files ops)\<rparr>))))))"

text \<open>\<^verbatim>\<open>Drop\<close> clears the slot if it is still its own; the file is closed after it, which unlocks it.\<close>

definition drop_slot :: "operation_lock \<Rightarrow> operations \<Rightarrow> operations" where
  "drop_slot l ops =
     (if slots ops (lock_app l) = Some (lock_id l)
      then ops\<lparr>slots := (slots ops)(lock_app l := None)\<rparr> else ops)"

definition close_file :: "operation_lock \<Rightarrow> operations \<Rightarrow> operations" where
  "close_file l ops = ops\<lparr>held_files := held_files ops - {lock_file l}\<rparr>"

definition lock_token :: "operation_lock \<Rightarrow> operations \<Rightarrow> cancel_token" where
  "lock_token l ops = (if slots ops (lock_app l) = Some (lock_id l) then Flag (lock_id l) else Fresh)"

definition cancel_operation :: "string \<Rightarrow> u64 \<Rightarrow> operations \<Rightarrow> bool \<times> operations" where
  "cancel_operation app i ops =
     (if slots ops app = Some i then (True, ops\<lparr>raised := insert i (raised ops)\<rparr>) else (False, ops))"

section \<open>Histories\<close>

text \<open>The locks whose slot is not yet cleared, and those that are being dropped and still hold their file. Any
  thread may take a step at any time; between steps other processes take and release their own locks, so
  the world of a step is arbitrary.\<close>

record lock_state =
  table :: operations
  live :: "operation_lock list"
  closing :: "operation_lock list"

inductive lock_step :: "path \<Rightarrow> lock_state \<Rightarrow> lock_state \<Rightarrow> bool" for root where
  take: "lock_operation root app (table st) w = (Done (l, ops), w') \<Longrightarrow>
     lock_step root st (st\<lparr>table := ops, live := l # live st\<rparr>)"
| drop: "l \<in> set (live st) \<Longrightarrow>
     lock_step root st (st\<lparr>table := drop_slot l (table st), live := remove1 l (live st), closing := l # closing st\<rparr>)"
| close: "l \<in> set (closing st) \<Longrightarrow>
     lock_step root st (st\<lparr>table := close_file l (table st), closing := remove1 l (closing st)\<rparr>)"
| cancel: "lock_step root st (st\<lparr>table := snd (cancel_operation app i (table st))\<rparr>)"

definition lock_start :: lock_state where
  "lock_start = \<lparr>table = operations_new, live = [], closing = []\<rparr>"

text \<open>At most \<open>n\<close> steps.\<close>

inductive lock_reach :: "path \<Rightarrow> nat \<Rightarrow> lock_state \<Rightarrow> bool" for root where
  start: "lock_reach root 0 lock_start"
| step: "lock_reach root n st \<Longrightarrow> lock_step root st st' \<Longrightarrow> lock_reach root (Suc n) st'"

section \<open>The invariant\<close>

definition lock_inv :: "path \<Rightarrow> nat \<Rightarrow> lock_state \<Rightarrow> bool" where
  "lock_inv root n st =
     (slots (table st) = map_of (map (\<lambda>l. (lock_app l, lock_id l)) (live st))
      \<and> distinct (map lock_app (live st @ closing st)) \<and> distinct (map lock_id (live st @ closing st))
      \<and> held_files (table st) = lock_file ` set (live st @ closing st)
      \<and> (\<forall>l \<in> set (live st @ closing st). lock_file l = path_join root (lock_app l @ ''.lock'')
           \<and> unat (lock_id l) < unat (next_id (table st)))
      \<and> (\<forall>i \<in> raised (table st). unat i < unat (next_id (table st)))
      \<and> unat (next_id (table st)) \<le> Suc n)"

lemma lock_operation_Done:
  assumes "lock_operation root app ops w = (Done (l, ops'), w')"
  shows "is_valid_installed_app_id app" "slots ops app = None" "path_join root (app @ ''.lock'') \<notin> held_files ops"
    "path_join root (app @ ''.lock'') \<notin> locked w"
    "l = \<lparr>lock_app = app, lock_id = next_id ops, lock_file = path_join root (app @ ''.lock'')\<rparr>"
    "ops' = ops\<lparr>slots := (slots ops)(app \<mapsto> next_id ops), next_id := next_id ops + 1,
       held_files := insert (path_join root (app @ ''.lock'')) (held_files ops)\<rparr>"
  using assms
  by (auto simp: lock_operation_def Let_def fs_try_lock_def fs_open_lock_def fs_create_dir_all_def fs_op_def
      elim!: io_bind_DoneE split: if_splits fault.splits)

lemma lock_inv_start: "lock_inv root 0 lock_start"
  by (simp add: lock_inv_def lock_start_def operations_new_def)

lemma next_id_grows:
  assumes "unat (i :: u64) \<le> Suc n" "Suc n < 2 ^ 64 - 1"
  shows "unat (i + 1) = Suc (unat i)"
proof -
  have "unat i + unat (1 :: u64) < 2 ^ LENGTH(64)" using assms by simp
  then show ?thesis by (subst unat_add_lem [THEN iffD1]) simp_all
qed

lemma map_of_remove1:
  "distinct (map fst xs) \<Longrightarrow> (k, v) \<in> set xs \<Longrightarrow> map_of (remove1 (k, v) xs) = (map_of xs)(k := None)"
proof (induction xs)
  case (Cons x xs)
  show ?case
  proof (cases "x = (k, v)")
    case True
    with Cons.prems(1) have "map_of xs k = None" by (auto simp: map_of_eq_None_iff)
    with True show ?thesis by (auto simp: fun_eq_iff)
  next
    case False
    with Cons.prems have "k \<in> fst ` set xs" by force
    with Cons.prems(1) have "fst x \<noteq> k" by auto
    with False Cons show ?thesis by (cases x) (auto simp: fun_eq_iff)
  qed
qed simp

lemma distinct_map_same:
  "distinct (map f xs) \<Longrightarrow> x \<in> set xs \<Longrightarrow> y \<in> set xs \<Longrightarrow> f x = f y \<Longrightarrow> x = y"
  by (auto simp: distinct_map dest: inj_onD)

lemma moved_set:
  "distinct (xs @ ys) \<Longrightarrow> x \<in> set xs \<Longrightarrow>
   distinct (remove1 x xs @ x # ys) \<and> set (remove1 x xs @ x # ys) = set (xs @ ys)"
  by (auto simp: set_remove1_eq)

lemma distinct_moved:
  "distinct (map f (xs @ ys)) \<Longrightarrow> x \<in> set xs \<Longrightarrow> distinct (map f (remove1 x xs @ x # ys))"
  using moved_set [of xs ys x] by (metis distinct_map)

lemma distinct_removed:
  "distinct (map f (xs @ ys)) \<Longrightarrow> distinct (map f (xs @ remove1 y ys))"
  by (auto simp: distinct_map set_remove1_eq intro: inj_on_subset dest: notin_set_remove1)

lemma map_remove1_inj:
  "inj_on f (set xs) \<Longrightarrow> x \<in> set xs \<Longrightarrow> map f (remove1 x xs) = remove1 (f x) (map f xs)"
  by (induction xs) (auto simp: inj_on_def)

lemma lock_inv_take:
  assumes inv: "lock_inv root n st" and n: "Suc n < 2 ^ 64 - 1"
    and run: "lock_operation root app (table st) w = (Done (l, ops), w')"
  shows "lock_inv root (Suc n) (st\<lparr>table := ops, live := l # live st\<rparr>)"
proof -
  note r = lock_operation_Done [OF run]
  have next_id: "unat (next_id (table st) + 1) = Suc (unat (next_id (table st)))"
    using inv n by (intro next_id_grows) (auto simp: lock_inv_def)
  have inv': "slots (table st) = map_of (map (\<lambda>l. (lock_app l, lock_id l)) (live st))"
    "distinct (map lock_app (live st @ closing st))" "distinct (map lock_id (live st @ closing st))"
    "held_files (table st) = lock_file ` set (live st @ closing st)"
    "\<forall>l \<in> set (live st @ closing st). lock_file l = path_join root (lock_app l @ ''.lock'')"
    "\<forall>l \<in> set (live st @ closing st). unat (lock_id l) < unat (next_id (table st))"
    "\<forall>i \<in> raised (table st). unat i < unat (next_id (table st))" "unat (next_id (table st)) \<le> Suc n"
    using inv unfolding lock_inv_def by blast+
  have app: "app \<notin> lock_app ` set (live st @ closing st)"
  proof
    assume "app \<in> lock_app ` set (live st @ closing st)"
    then have "path_join root (app @ ''.lock'') \<in> held_files (table st)" unfolding inv'(4) using inv'(5) by force
    with r(3) show False by contradiction
  qed
  have id: "next_id (table st) \<notin> lock_id ` set (live st @ closing st)" using inv'(6) by force
  show ?thesis
    unfolding lock_inv_def r(5,6)
  proof (simp, intro conjI ballI; (elim disjE UnE)?)
  qed (use inv' app id next_id in \<open>auto simp: less_SucI\<close>)
qed

lemma lock_inv_drop:
  assumes inv: "lock_inv root n st" and l: "l \<in> set (live st)"
  shows "lock_inv root (Suc n) (st\<lparr>table := drop_slot l (table st), live := remove1 l (live st), closing := l # closing st\<rparr>)"
proof -
  have d: "distinct (map lock_app (live st))" "distinct (live st)"
    using inv by (auto simp: lock_inv_def distinct_map)
  then have slot: "slots (table st) (lock_app l) = Some (lock_id l)"
    using inv l by (auto simp: lock_inv_def intro!: map_of_is_SomeI image_eqI simp: comp_def)
  have slots: "(slots (table st))(lock_app l := None) = map_of (map (\<lambda>l. (lock_app l, lock_id l)) (remove1 l (live st)))"
  proof -
    have "inj_on (\<lambda>l. (lock_app l, lock_id l)) (set (live st))"
      using d(1) by (auto simp: inj_on_def dest: distinct_map_same)
    then have "map (\<lambda>l. (lock_app l, lock_id l)) (remove1 l (live st))
        = remove1 (lock_app l, lock_id l) (map (\<lambda>l. (lock_app l, lock_id l)) (live st))"
      using l by (rule map_remove1_inj)
    moreover have "distinct (map fst (map (\<lambda>l. (lock_app l, lock_id l)) (live st)))" using d(1) by (simp add: comp_def)
    moreover have "(lock_app l, lock_id l) \<in> set (map (\<lambda>l. (lock_app l, lock_id l)) (live st))" using l by simp
    moreover have "slots (table st) = map_of (map (\<lambda>l. (lock_app l, lock_id l)) (live st))" using inv by (simp add: lock_inv_def)
    ultimately show ?thesis by (simp only: map_of_remove1)
  qed
  have members: "set (remove1 l (live st) @ l # closing st) = set (live st @ closing st)"
    using l d(2) by (auto simp: set_remove1_eq)
  have old: "distinct (map lock_app (live st @ closing st))" "distinct (map lock_id (live st @ closing st))"
    "held_files (table st) = lock_file ` set (live st @ closing st)"
    "\<forall>l \<in> set (live st @ closing st). lock_file l = path_join root (lock_app l @ ''.lock'')
       \<and> unat (lock_id l) < unat (next_id (table st))"
    "\<forall>i \<in> raised (table st). unat i < unat (next_id (table st))" "unat (next_id (table st)) \<le> Suc n"
    using inv unfolding lock_inv_def by blast+
  define st' where "st' = st\<lparr>table := drop_slot l (table st), live := remove1 l (live st), closing := l # closing st\<rparr>"
  have st': "live st' = remove1 l (live st)" "closing st' = l # closing st"
    "slots (table st') = (slots (table st))(lock_app l := None)" "held_files (table st') = held_files (table st)"
    "raised (table st') = raised (table st)" "next_id (table st') = next_id (table st)"
    by (simp_all add: st'_def drop_slot_def slot)
  show ?thesis
    unfolding st'_def [symmetric] lock_inv_def st' members slots
    by (intro conjI refl distinct_moved [OF old(1) l] distinct_moved [OF old(2) l] old(3-5) le_SucI [OF old(6)])
qed

lemma lock_inv_close:
  assumes inv: "lock_inv root n st" and l: "l \<in> set (closing st)"
  shows "lock_inv root (Suc n) (st\<lparr>table := close_file l (table st), closing := remove1 l (closing st)\<rparr>)"
proof -
  have d: "distinct (map lock_app (live st @ closing st))" using inv unfolding lock_inv_def by blast
  have dc: "distinct (closing st)" using d by (auto simp: distinct_map)
  have other: "lock_file k \<noteq> lock_file l" if "k \<in> set (live st @ closing st)" "k \<noteq> l" for k
  proof
    assume "lock_file k = lock_file l"
    then have "lock_app k = lock_app l" using inv l that(1) by (auto simp: lock_inv_def)
    with distinct_map_same [OF d that(1)] l that(2) show False by auto
  qed
  have "l \<notin> set (live st)" using d l by (auto simp: distinct_map dest: inj_onD)
  then have "lock_file ` set (live st @ closing st) - {lock_file l} = lock_file ` set (live st @ remove1 l (closing st))"
    using other by (auto simp: set_remove1_eq [OF dc])
  then show ?thesis
    using inv distinct_removed [of lock_app "live st" "closing st" l] distinct_removed [of lock_id "live st" "closing st" l]
    unfolding lock_inv_def close_file_def by (auto simp: set_remove1_eq [OF dc])
qed

lemma lock_inv_cancel:
  assumes inv: "lock_inv root n st"
  shows "lock_inv root (Suc n) (st\<lparr>table := snd (cancel_operation app i (table st))\<rparr>)"
proof (cases "slots (table st) app = Some i")
  case True
  then obtain l where "l \<in> set (live st)" "lock_id l = i"
    using inv by (auto simp: lock_inv_def dest!: map_of_SomeD)
  then have "unat i < unat (next_id (table st))" using inv by (auto simp: lock_inv_def)
  then show ?thesis using inv by (simp add: lock_inv_def cancel_operation_def True)
next
  case False
  then show ?thesis using inv by (simp add: lock_inv_def cancel_operation_def)
qed

lemma lock_inv_step: "lock_step root st st' \<Longrightarrow> lock_inv root n st \<Longrightarrow> Suc n < 2 ^ 64 - 1 \<Longrightarrow> lock_inv root (Suc n) st'"
  by (induction rule: lock_step.induct)
     (blast intro: lock_inv_take lock_inv_drop lock_inv_close lock_inv_cancel)+

lemma lock_reach_inv: "lock_reach root n st \<Longrightarrow> n < 2 ^ 64 - 1 \<Longrightarrow> lock_inv root n st"
  by (induction rule: lock_reach.induct) (simp_all add: lock_inv_start lock_inv_step)

lemma calm_dirs: "calm (w\<lparr>dirs := d\<rparr>) = calm w"
  by (simp add: calm_def)

lemma fs_create_dir_all_calm:
  "calm w \<Longrightarrow> \<exists>w1. fs_create_dir_all p w = (Done (), w1) \<and> calm w1 \<and> files w1 = files w \<and> locked w1 = locked w"
  using calm_spend [of w] by (simp add: fs_create_dir_all_def fs_op_def calm_dirs)

lemma fs_open_lock_calm:
  "calm w \<Longrightarrow> \<exists>w1. fs_open_lock p w = (Done (), w1) \<and> calm w1 \<and> locked w1 = locked w"
  by (simp add: fs_open_lock_def fs_op_def)

section \<open>Properties\<close>

text \<open>Claim C18. In every history of fewer than \<open>2 ^ 64 - 1\<close> steps, whatever other processes and other threads do, no
  two operations on one app hold their locks together, an app whose operation has not released its slot
  cannot be locked again, and a slot is never left behind: when no operation of an app is live or closing,
  its slot is free, and locking it fails only for its identifier, the file system or another process.\<close>

theorem one_operation_per_app:
  assumes "lock_reach root n st" "n < 2 ^ 64 - 1"
  shows "distinct (map lock_app (live st @ closing st))
    \<and> (\<forall>app \<in> set (map lock_app (live st @ closing st)). \<forall>w r w'.
         lock_operation root app (table st) w = (r, w') \<longrightarrow> (\<nexists>x. r = Done x))
    \<and> (\<forall>app. app \<notin> set (map lock_app (live st @ closing st)) \<longrightarrow> slots (table st) app = None
         \<and> (\<forall>w. is_valid_installed_app_id app \<and> calm w \<and> path_join root (app @ ''.lock'') \<notin> locked w \<longrightarrow>
              (\<exists>x. fst (lock_operation root app (table st) w) = Done x)))"
proof (intro conjI ballI allI impI)
  have inv: "lock_inv root n st" by (rule lock_reach_inv [OF assms])
  then have held: "held_files (table st) = lock_file ` set (live st @ closing st)"
    "\<forall>l \<in> set (live st @ closing st). lock_file l = path_join root (lock_app l @ ''.lock'')"
    "slots (table st) = map_of (map (\<lambda>l. (lock_app l, lock_id l)) (live st))"
    unfolding lock_inv_def by blast+
  show "distinct (map lock_app (live st @ closing st))" using inv unfolding lock_inv_def by blast
  show "\<nexists>x. r = Done x" if app: "app \<in> set (map lock_app (live st @ closing st))"
    and run: "lock_operation root app (table st) w = (r, w')" for app w r w'
  proof
    assume "\<exists>x. r = Done x"
    then obtain l ops where "lock_operation root app (table st) w = (Done (l, ops), w')" using run by auto
    from lock_operation_Done(3) [OF this] app held(1,2) show False by auto
  qed
  fix app assume app: "app \<notin> set (map lock_app (live st @ closing st))"
  then show none: "slots (table st) app = None" unfolding held(3) by (auto simp: map_of_eq_None_iff)
  have unlocked: "path_join root (app @ ''.lock'') \<notin> held_files (table st)" using app held(1,2) by auto
  show "\<exists>x. fst (lock_operation root app (table st) w) = Done x"
    if given: "is_valid_installed_app_id app \<and> calm w \<and> path_join root (app @ ''.lock'') \<notin> locked w" for w
  proof -
    obtain w1 where w1: "fs_create_dir_all root w = (Done (), w1)" "calm w1" "locked w1 = locked w"
      using given fs_create_dir_all_calm [of w root] by blast
    obtain w2 where w2: "fs_open_lock (path_join root (app @ ''.lock'')) w1 = (Done (), w2)" "locked w2 = locked w"
      using fs_open_lock_calm [OF w1(2)] w1(3) by metis
    show ?thesis
      using given none unlocked w2(2)
      by (simp add: lock_operation_def Let_def io_bind_def io_map_err_run w1(1) w2(1) fs_try_lock_def)
  qed
qed

text \<open>Claim C26. A request to cancel reaches the operation it names and no other: it returns true exactly when that
  operation is live, raises the flag of that operation's token only, and a stale number raises none, so
  that an operation that has just taken the slot is never cancelled already.\<close>

theorem cancel_is_exact:
  assumes "lock_reach root n st" "n < 2 ^ 64 - 1" "cancel_operation app i (table st) = (hit, ops)"
  shows "hit = (\<exists>l \<in> set (live st). lock_app l = app \<and> lock_id l = i)
    \<and> (\<forall>l \<in> set (live st). is_cancelled ops (lock_token l ops) =
         (is_cancelled (table st) (lock_token l (table st)) \<or> (lock_app l = app \<and> lock_id l = i)))
    \<and> (\<forall>app' w l ops' w'. lock_operation root app' ops w = (Done (l, ops'), w') \<longrightarrow>
         \<not> is_cancelled ops' (lock_token l ops'))"
proof -
  have inv: "lock_inv root n st" by (rule lock_reach_inv [OF assms(1,2)])
  have ids: "distinct (map lock_id (live st))" and slots: "slots (table st) = map_of (map (\<lambda>l. (lock_app l, lock_id l)) (live st))"
    and apps: "distinct (map lock_app (live st))"
    using inv by (auto simp: lock_inv_def)
  have slot: "slots (table st) (lock_app l) = Some (lock_id l)" if "l \<in> set (live st)" for l
    unfolding slots using apps that by (auto intro!: map_of_is_SomeI simp: comp_def)
  have hit: "hit = (slots (table st) app = Some i)" "ops = (if hit then (table st)\<lparr>raised := insert i (raised (table st))\<rparr> else table st)"
    using assms(3) by (auto simp: cancel_operation_def split: if_splits)
  then have same: "slots ops = slots (table st)" "next_id ops = next_id (table st)" by simp_all
  have live: "(slots (table st) app = Some i) = (\<exists>l \<in> set (live st). lock_app l = app \<and> lock_id l = i)"
    using slot by (auto simp: slots dest!: map_of_SomeD)
  have flags: "is_cancelled ops (lock_token l ops) = (is_cancelled (table st) (lock_token l (table st)) \<or> (lock_app l = app \<and> lock_id l = i))"
    if l: "l \<in> set (live st)" for l
    using slot [OF l] hit live distinct_map_same [OF ids _ l] l
    by (auto simp: lock_token_def is_cancelled_def same split: if_splits)
  have fresh: "next_id (table st) \<notin> raised ops"
    using inv hit live by (auto simp: lock_inv_def split: if_splits)
  have "\<not> is_cancelled ops' (lock_token l ops')" if run: "lock_operation root app' ops w = (Done (l, ops'), w')" for app' w l ops' w'
    using lock_operation_Done(5,6) [OF run] fresh by (simp add: lock_token_def is_cancelled_def same)
  with flags hit(1) live show ?thesis by blast
qed

section \<open>Examples\<close>

definition notes_lock :: operation_lock where
  "notes_lock = \<lparr>lock_app = ''notes'', lock_id = 1, lock_file = [Normal ''notes.lock'']\<rparr>"

definition notes_table :: operations where
  "notes_table = \<lparr>slots = [''notes'' \<mapsto> 1], next_id = 2, raised = {}, held_files = {[Normal ''notes.lock'']}\<rparr>"

lemma notes_reach: "lock_reach [] 1 \<lparr>table = notes_table, live = [notes_lock], closing = []\<rparr>"
proof -
  define w :: world where "w = \<lparr>files = (\<lambda>_. None), dirs = {}, locked = {}, clock_secs = Some 1, clock_nanos = 0, entropy = [], faults = []\<rparr>"
  have "is_valid_installed_app_id ''notes''" by code_simp
  then have "\<exists>w'. lock_operation [] ''notes'' (table lock_start) w = (Done (notes_lock, notes_table), w')"
    by (simp add: lock_operation_def lock_start_def operations_new_def Let_def io_bind_def io_map_err_run w_def
        fs_create_dir_all_def fs_open_lock_def fs_op_def fs_try_lock_def next_fault_def spend_fault_def
        notes_lock_def notes_table_def path_join_def put_file_def)
  then obtain w' where "lock_operation [] ''notes'' (table lock_start) w = (Done (notes_lock, notes_table), w')" by blast
  from lock_reach.step [OF lock_reach.start lock_step.take [OF this]] show ?thesis by (simp add: lock_start_def)
qed

theorem one_operation_per_app_witness:
  "\<forall>w x. fst (lock_operation [] ''notes'' notes_table w) \<noteq> Done x"
proof (intro allI notI)
  fix w x assume "fst (lock_operation [] ''notes'' notes_table w) = Done x"
  moreover have "\<forall>app \<in> set (map lock_app ([notes_lock] @ [])). \<forall>w r w'.
      lock_operation [] app notes_table w = (r, w') \<longrightarrow> (\<nexists>x. r = Done x)"
    using one_operation_per_app [OF notes_reach] by simp
  ultimately show False
    by (cases "lock_operation [] ''notes'' notes_table w"; cases x) (fastforce simp: notes_lock_def)
qed

theorem cancel_is_exact_witness:
  "cancel_operation ''notes'' 1 notes_table = (True, notes_table\<lparr>raised := {1}\<rparr>)
   \<and> fst (cancel_operation ''notes'' 7 notes_table) = False"
proof -
  have "cancel_operation ''notes'' 1 notes_table = (True, notes_table\<lparr>raised := {1}\<rparr>)"
    by (simp add: cancel_operation_def notes_table_def)
  moreover obtain hit ops where c: "cancel_operation ''notes'' 7 notes_table = (hit, ops)" by (metis surj_pair)
  have "hit = (\<exists>l \<in> set [notes_lock]. lock_app l = ''notes'' \<and> lock_id l = 7)"
    using cancel_is_exact [OF notes_reach, of "''notes''" 7 hit ops] c by simp
  then have "\<not> hit" by (simp add: notes_lock_def)
  ultimately show ?thesis using c by simp
qed

end
