(* ===== verification/Install.thy ===== *)
theory Install
  imports Runtime Wsl_Projection Storage Operation_Lock
begin

text \<open>
  Installing, undoing and removing an app, \<^verbatim>\<open>src/runtime/mod.rs\<close>: one path for every source of an
  installation, with its checkpoints, its rollback and its commit to the registry. Progress reports are
  left out; they only observe.
\<close>

section \<open>More of the file system\<close>

text \<open>\<^verbatim>\<open>fs::read_dir\<close>: \<open>entries\<close> are the names the system lists.\<close>

definition fs_read_dir :: "(path \<Rightarrow> world \<Rightarrow> string list) \<Rightarrow> path \<Rightarrow> (io_error, string list) prog" where
  "fs_read_dir entries p = fs_op (\<lambda>w. (Done (entries p w), w))"

definition remove_tree :: "(path \<Rightarrow> bool) \<Rightarrow> path \<Rightarrow> world \<Rightarrow> world" where
  "remove_tree gone p w =
     w\<lparr>files := (\<lambda>q. if path_starts_with q p \<and> gone q then None else files w q),
       dirs := Set.filter (\<lambda>q. \<not> (path_starts_with q p \<and> gone q)) (dirs w)\<rparr>"

text \<open>\<^verbatim>\<open>fs::remove_dir_all\<close>. One that is interrupted has removed part of the tree, children before their parent:
  here, what lies more than \<open>n\<close> levels down.\<close>

definition fs_remove_dir_all :: "path \<Rightarrow> (io_error, unit) prog" where
  "fs_remove_dir_all p w =
     (let w1 = spend_fault w
      in case next_fault w of
           Fine \<Rightarrow> if p \<in> dirs w then (Done (), remove_tree (\<lambda>_. True) p w1) else (Failed (io_err KNotFound), w1)
         | Faulty \<Rightarrow> (Failed (io_err KOther), w1)
         | Torn n \<Rightarrow> (Failed (io_err KOther), remove_tree (\<lambda>q. length p + n < length q) p w1)
         | Dies \<Rightarrow> (Crashed, w1)
         | Dies_torn n \<Rightarrow> (Crashed, remove_tree (\<lambda>q. length p + n < length q) p w1))"

text \<open>\<^verbatim>\<open>.ok()\<close>\<close>

definition io_ok :: "('e, 'a) prog \<Rightarrow> ('f, 'a option) prog" where
  "io_ok m = io_match m (\<lambda>x. io_return (Some x)) (\<lambda>_. io_return None)"

definition join_relative :: "path \<Rightarrow> string \<Rightarrow> path" where
  "join_relative p s = (if is_absolute (parse_path s) then parse_path s else p @ filter (\<lambda>c. c \<noteq> CurDir) (parse_path s))"

text \<open>Well-formed UTF-8: the bytes that may still come, each in a range.\<close>

definition utf8_lead :: "nat \<Rightarrow> (nat \<times> nat) list option" where
  "utf8_lead b =
     (if b < 0x80 then Some []
      else if 0xC2 \<le> b \<and> b \<le> 0xDF then Some [(0x80, 0xBF)]
      else if b = 0xE0 then Some [(0xA0, 0xBF), (0x80, 0xBF)]
      else if b = 0xED then Some [(0x80, 0x9F), (0x80, 0xBF)]
      else if 0xE1 \<le> b \<and> b \<le> 0xEF then Some [(0x80, 0xBF), (0x80, 0xBF)]
      else if b = 0xF0 then Some [(0x90, 0xBF), (0x80, 0xBF), (0x80, 0xBF)]
      else if 0xF1 \<le> b \<and> b \<le> 0xF3 then Some [(0x80, 0xBF), (0x80, 0xBF), (0x80, 0xBF)]
      else if b = 0xF4 then Some [(0x80, 0x8F), (0x80, 0xBF), (0x80, 0xBF)]
      else None)"

fun utf8_run :: "(nat \<times> nat) list \<Rightarrow> nat list \<Rightarrow> bool" where
  "utf8_run expected [] = (expected = [])"
| "utf8_run [] (b # bs) = (case utf8_lead b of Some expected \<Rightarrow> utf8_run expected bs | None \<Rightarrow> False)"
| "utf8_run ((lo, hi) # expected) (b # bs) = (lo \<le> b \<and> b \<le> hi \<and> utf8_run expected bs)"

text \<open>\<^verbatim>\<open>fs::read_to_string\<close>\<close>

definition fs_read_to_string :: "path \<Rightarrow> (io_error, string) prog" where
  "fs_read_to_string p =
     io_bind (fs_read p) (\<lambda>b.
       if utf8_run [] (map of_char b) then io_return b else io_fail (io_err KOther))"

section \<open>What an installation needs\<close>

datatype checkpoint = At_start | Before_doctor | Before_files | Before_validation | Before_start

record install_context =
  run :: runner
  engine_binding_of :: "(app_error, engine_binding option) prog"
  health :: rounds
  port_free :: "u16 \<Rightarrow> bool"
  cancelled_at :: "checkpoint \<Rightarrow> bool"

record install_env =
  rt_env :: runtime_env
  entries :: "path \<Rightarrow> world \<Rightarrow> string list"
  json_quote :: "string \<Rightarrow> (string, string) result"
  path_unicode :: "path \<Rightarrow> string option"
  show_plan :: "plan_error \<Rightarrow> string"
  show_setup :: "setup_error \<Rightarrow> string"
  show_secret :: "secret_fault \<Rightarrow> string"
  debug_form :: "string \<Rightarrow> string"
  secrets_json :: "(string, string) btree codec"
  offering_catalog :: "string \<Rightarrow> string option"
  setup_world :: setup_env
  ensure_owned :: "(app_error, unit) prog"

record install_source =
  source_id :: string
  source_name :: string
  source_catalog :: "string option"
  source_launch :: string
  source_health :: string
  source_port :: u16
  companion_ports :: "u16 list"
  source_compose :: string
  resolved_plan :: "deployment_plan option"
  source_directories :: "string list"
  extra_files :: "(string \<times> string) list"
  source_seeds :: "(string \<times> string) list"
  first_start_timeout :: "nat option"

definition check_cancelled :: "install_context \<Rightarrow> checkpoint \<Rightarrow> (app_error, unit) prog" where
  "check_cancelled ctx c = io_ensure (\<not> cancelled_at ctx c)
     (app_error_new Cancelled ''Setup was cancelled before it finished.'')"

section \<open>Before anything is written\<close>

definition make_projection ::
  "install_env \<Rightarrow> engine_binding option \<Rightarrow> install_source \<Rightarrow> path \<Rightarrow> (app_error, projected_plan option) result" where
  "make_projection env binding source project =
     (if \<not> (case binding of Some b \<Rightarrow> is_wsl b | None \<Rightarrow> False) then Ok None
      else
        and_then (ok_or (resolved_plan source)
                    (app_error_invalid ''WSL installation requires a resolved deployment plan.'')) (\<lambda>plan.
        and_then (map_err (\<lambda>e. app_error_invalid (show_plan env e)) (to_compose plan)) (\<lambda>compose.
          if compose \<noteq> source_compose source
          then Err (app_error_invalid ''The resolved plan does not match the reviewed Compose source.'')
          else
            and_then (ok_or (path_unicode env project) (app_error_invalid ''Project path must be Unicode.'')) (\<lambda>text.
            and_then (project_plan (json_quote env) (show_plan env) plan text
                (map (\<lambda>(p, c). \<lparr>seed_path = p, seed_content = c\<rparr>) (source_seeds source))) (\<lambda>projected.
              Ok (Some projected))))))"

definition port_in_use :: "path \<Rightarrow> u16 \<Rightarrow> (app_error, 'a) prog" where
  "port_in_use cfile busy = with_world (\<lambda>w.
     io_fail (app_error_new PortInUse
       (''Port '' @ show_word busy @ '' is already in use. Stop whatever is using it and try again.''
        @ (if files w cfile \<noteq> None
           then '' Setup files remain at '' @ path_string cfile
             @ ''. If an earlier setup was interrupted, stop that retained Compose project without deleting its data, then retry.''
           else []))))"

definition first_segment :: "string \<Rightarrow> string option" where
  "first_segment d = find (\<lambda>seg. seg \<noteq> []) (split_char (CHR ''/'') (map (\<lambda>c. if c = backslash then CHR ''/'' else c) d))"

definition allowed_entries :: "install_source \<Rightarrow> bool \<Rightarrow> string list" where
  "allowed_entries source projected =
     List.map_filter first_segment (source_directories source)
     @ [''compose.yaml'', ENGINE_FILE] @ (if projected then [COMPOSE_FILE] else []) @ map fst (extra_files source)"

definition check_preserved :: "install_env \<Rightarrow> install_source \<Rightarrow> bool \<Rightarrow> path \<Rightarrow> (app_error, unit) prog" where
  "check_preserved env source projected project =
     io_bind (io_map_err from_io (fs_read_dir (entries env) project)) (\<lambda>names.
       io_ensure (list_all (\<lambda>n. n \<in> set (allowed_entries source projected)) names)
         (app_error_new UnsafePath
            ''The preserved app directory contains unexpected files; review it before reinstalling.''))"

text \<open>The engine, the projection and whether the project directory is new.\<close>

definition prepare ::
  "install_env \<Rightarrow> install_context \<Rightarrow> install_source \<Rightarrow> path
   \<Rightarrow> (app_error, engine_binding option \<times> projected_plan option \<times> bool) prog" where
  "prepare env ctx source project =
     io_bind (check_cancelled ctx At_start) (\<lambda>_.
     io_bind (retained (engine_json (rt_env env)) project) (\<lambda>kept.
     io_bind (case kept of Some b \<Rightarrow> io_return (Some b) | None \<Rightarrow> engine_binding_of ctx) (\<lambda>binding.
     io_bind (io_lift (make_projection env binding source project)) (\<lambda>projection.
     io_bind (check_cancelled ctx Before_doctor) (\<lambda>_.
     io_bind (doctor_with (engine_runner (rt_env env) binding (run ctx))) (\<lambda>report.
     io_bind (io_ensure (doctor_ready report) (app_error_new PrerequisiteUnavailable
                ''Docker and Docker Compose must be running before installation.'')) (\<lambda>_.
     io_bind (case find (\<lambda>p. \<not> port_free ctx p) (source_port source # companion_ports source) of
                Some busy \<Rightarrow> port_in_use (path_join project ''compose.yaml'') busy
              | None \<Rightarrow> io_return ()) (\<lambda>_.
     io_bind (fs_exists project) (\<lambda>there.
     io_bind (if there then check_preserved env source (projection \<noteq> None) project else io_return ()) (\<lambda>_.
     io_bind (check_cancelled ctx Before_files) (\<lambda>_.
       io_return (binding, projection, \<not> there))))))))))))"

section \<open>Writing and starting\<close>

fun write_extra :: "path \<Rightarrow> (string \<times> string) list \<Rightarrow> (app_error, unit) prog" where
  "write_extra project [] = io_return ()"
| "write_extra project ((name, content) # rest) =
     io_bind (io_map_err from_storage (write_file_atomically (path_join project name) content)) (\<lambda>_.
       write_extra project rest)"

fun write_seeds :: "install_env \<Rightarrow> path \<Rightarrow> (string \<times> string) list \<Rightarrow> (app_error, unit) prog" where
  "write_seeds env project [] = io_return ()"
| "write_seeds env project ((p, content) # rest) =
     (if \<not> is_confined_seed_path p
      then io_fail (app_error_new UnsafePath (''seed file '' @ debug_form env p @ '' is not inside the app's data folder''))
      else
        (let target = join_relative project p
         in io_bind (fs_exists target) (\<lambda>there.
            if there then write_seeds env project rest
            else
              io_bind (case path_parent target of
                         Some parent \<Rightarrow> io_map_err from_io (fs_create_dir_all parent)
                       | None \<Rightarrow> io_return ()) (\<lambda>_.
              io_bind (io_map_err from_storage (write_file_atomically target content)) (\<lambda>_.
                write_seeds env project rest)))))"

fun make_directories :: "path \<Rightarrow> string list \<Rightarrow> string list \<Rightarrow> (app_error, unit) prog" where
  "make_directories project seeds [] = io_return ()"
| "make_directories project seeds (d # ds) =
     io_bind (if d \<in> set seeds then io_return () else io_map_err from_io (fs_create_dir_all (join_relative project d)))
       (\<lambda>_. make_directories project seeds ds)"

definition project_name_of :: "install_source \<Rightarrow> string" where
  "project_name_of source = ''local-store-'' @ source_id source"

definition source_app :: "install_source \<Rightarrow> path \<Rightarrow> u64 \<Rightarrow> installed_app" where
  "source_app source project now =
     \<lparr>app_id = source_id source, catalog_id = source_catalog source, display_name = source_name source,
      launch_url = source_launch source, icon_path = None,
      runtime = Compose (project_name_of source) project (path_join project ''compose.yaml''),
      created_at_unix = now, updated_at_unix = now\<rparr>"

definition write_project ::
  "install_env \<Rightarrow> install_source \<Rightarrow> engine_binding option \<Rightarrow> projected_plan option \<Rightarrow> path \<Rightarrow> (app_error, unit) prog" where
  "write_project env source binding projection project =
     io_bind (case binding of
                Some b \<Rightarrow> engine_save (engine_json (rt_env env)) project b
              | None \<Rightarrow> io_return ()) (\<lambda>_.
     io_bind (io_map_err from_storage (write_file_atomically (path_join project ''compose.yaml'')
                ((if binding \<noteq> None then COMPOSE_BINDING_MARKER else []) @ source_compose source))) (\<lambda>_.
     io_bind (case projection of
                Some p \<Rightarrow> io_map_err from_storage
                  (write_file_atomically (path_join project COMPOSE_FILE) (projected_compose p))
              | None \<Rightarrow> io_return ()) (\<lambda>_.
     io_bind (write_extra project (extra_files source)) (\<lambda>_.
     io_bind (write_seeds env project (source_seeds source)) (\<lambda>_.
       make_directories project (map fst (source_seeds source)) (source_directories source))))))"

definition start_project ::
  "install_env \<Rightarrow> install_context \<Rightarrow> install_source \<Rightarrow> runner \<Rightarrow> installed_app \<Rightarrow> (app_error, unit) prog" where
  "start_project env ctx source runner app =
     io_bind (check_cancelled ctx Before_validation) (\<lambda>_.
     io_bind (compose_command (rt_env env) app [''config'', ''--quiet''] DIAGNOSTIC_TIMEOUT) (\<lambda>spec.
     io_bind (checked_run runner Own spec ''Recipe validation'') (\<lambda>_.
     io_bind (check_cancelled ctx Before_start) (\<lambda>_.
     io_bind (start_with_cancel (rt_env env) runner Own app) (\<lambda>_.
       io_lift (wait_for_health_with (health ctx) (source_health source)
         (case first_start_timeout source of Some t \<Rightarrow> t | None \<Rightarrow> FIRST_START_TIMEOUT)))))))"

section \<open>Rollback\<close>

definition remove_if_there :: "path \<Rightarrow> (app_error, unit) prog" where
  "remove_if_there p =
     io_match (fs_remove_file p) io_return
       (\<lambda>e. if kind e = KNotFound then io_return () else io_fail (from_io e))"

definition put_back :: "path \<Rightarrow> bytes option \<Rightarrow> (app_error, unit) prog" where
  "put_back p previous =
     (case previous of
        Some b \<Rightarrow> io_map_err from_storage (write_file_atomically p b)
      | None \<Rightarrow> remove_if_there p)"

definition also_failed :: "app_error \<Rightarrow> app_error \<Rightarrow> app_error" where
  "also_failed original cleanup = app_error_rollback (detail_of original) (detail_of cleanup)"

definition roll_back ::
  "install_env \<Rightarrow> install_source \<Rightarrow> runner \<Rightarrow> path \<Rightarrow> u64 \<Rightarrow> bool \<Rightarrow> bytes option \<Rightarrow> bool \<Rightarrow> bytes option
   \<Rightarrow> app_error \<Rightarrow> (app_error, 'a) prog" where
  "roll_back env source runner project now created previous_compose projected previous_projection failure =
     (let fallback = (source_app source project now)\<lparr>catalog_id := None\<rparr>;
          rt = rt_env env
      in io_bind (if code_of failure = TimedOut then last_words rt runner fallback else io_return None) (\<lambda>said.
         (let original = (case said of
                Some words \<Rightarrow> app_error_new (code_of failure) (show_error rt failure @ '' '' @ words)
              | None \<Rightarrow> failure)
          in io_bind (compose_command rt fallback [''down''] LIFECYCLE_TIMEOUT) (\<lambda>spec.
             io_bind (io_map_err (also_failed original) (checked_run runner Detached spec ''Install cleanup'')) (\<lambda>_.
             io_bind (io_map_err (also_failed original)
                (if created then io_map_err from_io (fs_remove_dir_all project)
                 else put_back (path_join project ''compose.yaml'') previous_compose)) (\<lambda>_.
             io_bind (if \<not> created \<and> projected
                then io_map_err (also_failed original)
                       (put_back (path_join project COMPOSE_FILE) previous_projection)
                else io_return ()) (\<lambda>_.
               io_fail original)))))))"

section \<open>The installation\<close>

definition install_source_with ::
  "install_env \<Rightarrow> install_context \<Rightarrow> install_source \<Rightarrow> path \<Rightarrow> u64 \<Rightarrow> (app_error, installed_app) prog" where
  "install_source_with env ctx source root now =
     (let project = path_join root (source_id source);
          cfile = path_join project ''compose.yaml'';
          app = source_app source project now
      in io_bind (prepare env ctx source project) (\<lambda>(binding, projection, created).
         io_bind (io_map_err from_io (fs_create_dir_all project)) (\<lambda>_.
         io_bind (io_ok (fs_read cfile)) (\<lambda>previous_compose.
         io_bind (if projection \<noteq> None then io_ok (fs_read (path_join project COMPOSE_FILE)) else io_return None)
           (\<lambda>previous_projection.
           (let runner = engine_runner (rt_env env) binding (run ctx)
            in io_match
                 (io_bind (write_project env source binding projection project) (\<lambda>_.
                    start_project env ctx source runner app))
                 (\<lambda>_. io_return app)
                 (roll_back env source runner project now created previous_compose (projection \<noteq> None)
                    previous_projection)))))))"

section \<open>Installing a template\<close>

definition SECRETS_FILE :: string where "SECRETS_FILE = ''local-store-secrets.json''"
definition PORT_SEARCH_ATTEMPTS :: u16 where "PORT_SEARCH_ATTEMPTS = 20"

definition retained_secrets :: "install_env \<Rightarrow> path \<Rightarrow> (app_error, (string, string) btree) prog" where
  "retained_secrets env project =
     io_match (fs_read_to_string (path_join project SECRETS_FILE))
       (\<lambda>b. io_lift (ok_or (decode (secrets_json env) b) (app_error_invalid
          (''Stored setup credentials are invalid. Restore the credential file before reinstalling; ''
           @ ''existing credentials were not replaced.''))))
       (\<lambda>e. if kind e = KNotFound then io_return []
            else io_fail (app_error_invalid
              (''Stored setup credentials could not be read. Restore access before reinstalling; ''
               @ ''existing credentials were not replaced.'')))"

fun fill_secrets ::
  "install_env \<Rightarrow> secret_spec list \<Rightarrow> (string, string) btree \<Rightarrow> (app_error, (string, string) btree) prog" where
  "fill_secrets env [] kept = io_return kept"
| "fill_secrets env (s # ss) kept =
     (if bt_get kept (secret_key s) \<noteq> None then fill_secrets env ss kept
      else io_bind (io_map_err (\<lambda>e. app_error_internal (show_secret env e)) (generate s)) (\<lambda>v.
             fill_secrets env ss (bt_insert (secret_key s) v kept)))"

definition choose_port :: "install_env \<Rightarrow> (u16 \<Rightarrow> bool) \<Rightarrow> u16 option \<Rightarrow> u16 \<Rightarrow> (app_error, u16) result" where
  "choose_port env available previous wanted =
     (case previous of
        Some p \<Rightarrow> Ok p
      | None \<Rightarrow> map_err (\<lambda>e. app_error_new PortInUse (show_plan env e))
                  (choose_free_port available wanted PORT_SEARCH_ATTEMPTS))"

text \<open>\<^verbatim>\<open>ExceptTaken\<close>: a port is free when it is and this install has not taken it.\<close>

definition except_taken :: "(u16 \<Rightarrow> bool) \<Rightarrow> u16 list \<Rightarrow> u16 \<Rightarrow> bool" where
  "except_taken inner taken port = (port \<notin> set taken \<and> inner port)"

fun settle_companions ::
  "install_env \<Rightarrow> (u16 \<Rightarrow> bool) \<Rightarrow> (string, u16) btree \<Rightarrow> (string \<times> u16) list \<Rightarrow> u16 list \<Rightarrow> deployment_plan
   \<Rightarrow> (app_error, u16 list \<times> deployment_plan) result" where
  "settle_companions env available previous [] taken plan = Ok (taken, plan)"
| "settle_companions env available previous ((service, wanted) # rest) taken plan =
     (case choose_port env (except_taken available taken) (bt_get previous service) wanted of
        Err e \<Rightarrow> Err e
      | Ok port \<Rightarrow>
          if port \<in> set taken
          then Err (app_error_new PortInUse
                 (''Port '' @ show_word port @ '' would be published twice by this app.''))
          else settle_companions env available previous rest (taken @ [port]) (set_companion_host service port plan))"

definition address_of_port :: "u16 \<Rightarrow> string" where
  "address_of_port port = ''http://localhost:'' @ show_word port"

definition secret_files :: "install_env \<Rightarrow> (string, string) btree \<Rightarrow> (app_error, (string \<times> string) list) result" where
  "secret_files env secrets =
     (if secrets = [] then Ok []
      else (case encode (secrets_json env) secrets of
              Some b \<Rightarrow> Ok [(SECRETS_FILE, b)]
            | None \<Rightarrow> Err (app_error_internal [])))"

definition template_source ::
  "install_env \<Rightarrow> plan_template \<Rightarrow> string \<Rightarrow> deployment_plan \<Rightarrow> string \<Rightarrow> u16 \<Rightarrow> u16 list
   \<Rightarrow> (string \<times> string) list \<Rightarrow> install_source" where
  "template_source env template display plan compose port taken extra =
     \<lparr>source_id = plan_id plan, source_name = display,
      source_catalog = offering_catalog env (plan_id plan),
      source_launch = address_of_port port, source_health = address_of_port port,
      source_port = port, companion_ports = tl taken, source_compose = compose,
      resolved_plan = Some plan, source_directories = data_directories plan, extra_files = extra,
      source_seeds = map (\<lambda>s. (seed_path s, seed_content s)) (template_seeds template),
      first_start_timeout = first_start template\<rparr>"

text \<open>The ports first, then the values that name them, then the plan.\<close>

definition settle_ports ::
  "install_env \<Rightarrow> (u16 \<Rightarrow> bool) \<Rightarrow> string option \<Rightarrow> deployment_plan \<Rightarrow> published_port
   \<Rightarrow> (app_error, u16 \<times> u16 list \<times> deployment_plan) result" where
  "settle_ports env available kept plan published_at =
     and_then (choose_port env available (Option.bind kept published_host_port) (host published_at)) (\<lambda>port.
     and_then (settle_companions env available (case kept of Some c \<Rightarrow> companion_host_ports c | None \<Rightarrow> [])
                 (map (\<lambda>(s, p). (service_name s, host p)) (companions (set_published_host port plan)))
                 [port] (set_published_host port plan)) (\<lambda>(taken, settled).
       Ok (port, taken, fill_platform_values settled port)))"

definition install_template_with ::
  "install_env \<Rightarrow> install_context \<Rightarrow> plan_template \<Rightarrow> string \<Rightarrow> (string, string) btree \<Rightarrow> path \<Rightarrow> u64
   \<Rightarrow> (app_error, installed_app) prog" where
  "install_template_with env ctx template display given root now =
     (let project = path_join root (plan_id (template_plan template))
      in io_bind (retained_secrets env project) (\<lambda>kept.
         io_bind (fill_secrets env (template_secrets template) kept) (\<lambda>filled.
         (let secrets = bt_retain (\<lambda>k _. list_ex (\<lambda>s. secret_key s = k) (template_secrets template)) filled
          in case published (template_plan template) of
               None \<Rightarrow> io_fail (app_error_new InvalidInput ''This plan publishes no address to open.'')
             | Some (_, address) \<Rightarrow>
                 io_bind (io_ok (fs_read_to_string (path_join project ''compose.yaml''))) (\<lambda>kept_compose.
                 io_bind (io_lift (settle_ports env (port_free ctx) kept_compose (template_plan template) address))
                   (\<lambda>(port, taken, settled).
                 io_bind (io_lift (map_err (\<lambda>e. app_error_invalid (show_setup env e))
                            (resolve (setup_world env) (template\<lparr>template_plan := settled\<rparr>) given secrets))) (\<lambda>plan.
                 io_bind (io_lift (map_err (\<lambda>e. app_error_invalid (show_plan env e)) (to_compose plan))) (\<lambda>compose.
                 io_bind (io_lift (secret_files env secrets)) (\<lambda>extra.
                   install_source_with env ctx (template_source env template display plan compose port taken extra)
                     root now)))))))))"

section \<open>Removing an app\<close>

definition uninstall_with :: "runtime_env \<Rightarrow> runner \<Rightarrow> installed_app \<Rightarrow> bool \<Rightarrow> (app_error, unit) prog" where
  "uninstall_with rt runner app delete_data =
     io_bind (compose_command rt app (if delete_data then [''down'', ''--volumes''] else [''down'']) LIFECYCLE_TIMEOUT)
       (\<lambda>spec.
     io_bind (checked_run runner Detached spec ''Uninstall'') (\<lambda>_.
       if delete_data
       then (case runtime app of
               Compose _ dir _ \<Rightarrow> io_map_err from_io (fs_remove_dir_all dir)
             | External \<Rightarrow> io_return ())
       else io_return ()))"

definition rollback_install_with :: "runtime_env \<Rightarrow> runner \<Rightarrow> installed_app \<Rightarrow> bool \<Rightarrow> (app_error, unit) prog" where
  "rollback_install_with rt runner app preserved = uninstall_with rt runner app (\<not> preserved)"

definition not_managed :: app_error where
  "not_managed = app_error_new UnsafePath
     ''Data deletion is available only for directories created by Local Store.''"

definition canonical :: "install_env \<Rightarrow> path \<Rightarrow> (app_error, path) result" where
  "canonical env p = ok_or (os_canonicalize (setup_world env) p) (from_io (io_err KOther))"

definition confined_to_managed_root :: "install_env \<Rightarrow> path \<Rightarrow> string \<Rightarrow> path \<Rightarrow> app_error check" where
  "confined_to_managed_root env project app root =
     (if project \<noteq> path_join root app then Err not_managed
      else
        and_then (canonical env root) (\<lambda>real_root.
        and_then (canonical env project) (\<lambda>real_project.
          ensure (path_parent real_project = Some real_root \<and> path_file_name real_project = Some app) not_managed)))"

definition keep_owned_app_engine :: "install_env \<Rightarrow> installed_app \<Rightarrow> (app_error, unit) prog" where
  "keep_owned_app_engine env app =
     (case runtime app of
        Compose _ dir _ \<Rightarrow>
          io_bind (retained (engine_json (rt_env env)) dir) (\<lambda>b.
            case b of Some binding \<Rightarrow> (if is_wsl binding then ensure_owned env else io_return ()) | None \<Rightarrow> io_return ())
      | External \<Rightarrow> io_return ())"

definition uninstall_locked ::
  "install_env \<Rightarrow> runner \<Rightarrow> path \<Rightarrow> installed_app \<Rightarrow> bool \<Rightarrow> (app_error, unit) prog" where
  "uninstall_locked env runner root app delete_data =
     io_bind (keep_owned_app_engine env app) (\<lambda>_.
     io_bind
       (if delete_data
        then (case runtime app of
                Compose _ dir _ \<Rightarrow> io_lift (confined_to_managed_root env dir (app_id app) root)
              | External \<Rightarrow> io_fail (app_error_new UnsupportedOperation
                  ''Connected apps do not have Local Store managed data.''))
        else io_return ()) (\<lambda>_.
       uninstall_with (rt_env env) runner app delete_data))"

section \<open>Operations that hold the slot of their app\<close>

text \<open>\<^verbatim>\<open>let _lock = lock_operation(id)?\<close>: the body runs with the slot taken, and the lock is dropped however it
  ends.\<close>

definition under_lock ::
  "path \<Rightarrow> string \<Rightarrow> operations \<Rightarrow> (app_error, 'a) prog \<Rightarrow> world \<Rightarrow> ((app_error, 'a) run \<times> world) \<times> operations" where
  "under_lock locks app ops body w =
     (case lock_operation locks app ops w of
        (Done (l, held), w1) \<Rightarrow> (body w1, close_file l (drop_slot l held))
      | (Failed e, w1) \<Rightarrow> ((Failed e, w1), ops)
      | (Crashed, w1) \<Rightarrow> ((Crashed, w1), ops))"

definition start_app where
  "start_app env runner locks app ops =
     under_lock locks (app_id app) ops
       (io_bind (keep_owned_app_engine env app) (\<lambda>_. start_with_cancel (rt_env env) runner Detached app))"

definition stop_app where
  "stop_app env runner locks app ops =
     under_lock locks (app_id app) ops
       (io_bind (keep_owned_app_engine env app) (\<lambda>_. stop_with (rt_env env) runner app))"

definition uninstall where
  "uninstall env runner root locks app delete_data ops =
     under_lock locks (app_id app) ops (uninstall_locked env runner root app delete_data)"

definition uninstall_and_remove where
  "uninstall_and_remove env runner json json1 config root locks app delete_data ops =
     under_lock locks (app_id app) ops
       (io_bind (uninstall_locked env runner root app delete_data) (\<lambda>_.
        io_bind (io_map_err from_storage (remove_installed_app json json1 config (app_id app))) (\<lambda>_. io_return ())))"

section \<open>From an installation to the registry\<close>

record pending_install =
  pending_app :: installed_app
  preserved_data :: bool
  pending_lock :: operation_lock

definition begin_pending_install_on_engine ::
  "install_env \<Rightarrow> string \<Rightarrow> operation_lock \<Rightarrow> engine_binding option \<Rightarrow> install_context \<Rightarrow> path
   \<Rightarrow> (install_context \<Rightarrow> path \<Rightarrow> u64 \<Rightarrow> (app_error, installed_app) prog) \<Rightarrow> (app_error, pending_install) prog" where
  "begin_pending_install_on_engine env i l binding ctx root body =
     (if lock_app l \<noteq> i
      then io_fail (app_error_invalid ''The operation lock does not match the app being installed.'')
      else
        io_bind (fs_exists (path_join root i)) (\<lambda>preserved.
        io_bind now_secs (\<lambda>now.
        io_bind (io_lift (ok_or now (app_error_internal []))) (\<lambda>secs.
        io_bind (body (if binding = None then ctx
                       else ctx\<lparr>run := engine_runner (rt_env env) binding (run ctx),
                                engine_binding_of := io_return binding\<rparr>) root secs) (\<lambda>app.
          io_return \<lparr>pending_app = app, preserved_data = preserved, pending_lock = l\<rparr>)))))"

definition commit ::
  "install_env \<Rightarrow> runner \<Rightarrow> registry_v2 codec \<Rightarrow> app_def list codec \<Rightarrow> path \<Rightarrow> pending_install
   \<Rightarrow> (app_error, installed_app) prog" where
  "commit env runner json json1 config p =
     io_match (insert_installed_app json json1 config (pending_app p))
       (\<lambda>_. io_return (pending_app p))
       (\<lambda>e. io_bind (io_map_err (also_failed (from_storage e))
               (rollback_install_with (rt_env env) runner (pending_app p) (preserved_data p))) (\<lambda>_.
            io_fail (from_storage e)))"

definition install_template where
  "install_template env ctx template display given json json1 config root locks ops w =
     (case lock_operation locks (plan_id (template_plan template)) ops w of
        (Done (l, held), w1) \<Rightarrow>
          (io_bind
             (begin_pending_install_on_engine env (plan_id (template_plan template)) l None ctx root
                (\<lambda>ctx root now. install_template_with env ctx template display given root now))
             (commit env (run ctx) json json1 config) w1,
           close_file l (drop_slot l held))
      | (Failed e, w1) \<Rightarrow> ((Failed e, w1), ops)
      | (Crashed, w1) \<Rightarrow> ((Crashed, w1), ops))"

end
