(* ===== verification/Frames.thy ===== *)
theory Frames
  imports Install Json_Store
begin

text \<open>
  What a program leaves alone. \<open>spares c d q m\<close>: running \<open>m\<close>, however it ends, leaves the file \<open>q\<close> as it
  was; with \<open>c\<close> this is only asked of a world where the file exists and the directory \<open>d\<close> does, and
  the directory stays. The rules follow the shape of a program, so that a frame of an operation is
  proved by unfolding it.
\<close>

definition standing :: "bool \<Rightarrow> path \<Rightarrow> path \<Rightarrow> world \<Rightarrow> bool" where
  "standing c d q w = (c \<longrightarrow> files w q \<noteq> None \<and> d \<in> dirs w)"

definition spares :: "bool \<Rightarrow> path \<Rightarrow> path \<Rightarrow> ('e, 'a) prog \<Rightarrow> bool" where
  "spares c d q m =
     (\<forall>w r w'. standing c d q w \<longrightarrow> m w = (r, w') \<longrightarrow> standing c d q w' \<and> files w' q = files w q)"

named_theorems spares_intros \<open>frames by the shape of a program\<close>

lemma sparesI:
  "(\<And>w r w'. standing c d q w \<Longrightarrow> m w = (r, w') \<Longrightarrow> files w' q = files w q \<and> (d \<in> dirs w \<longrightarrow> d \<in> dirs w'))
   \<Longrightarrow> spares c d q m"
  unfolding spares_def standing_def by (intro allI impI) (metis (no_types))

lemma sparesD:
  "spares c d q m \<Longrightarrow> standing c d q w \<Longrightarrow> m w = (r, w') \<Longrightarrow> standing c d q w'"
  "spares c d q m \<Longrightarrow> standing c d q w \<Longrightarrow> m w = (r, w') \<Longrightarrow> files w' q = files w q"
  unfolding spares_def by blast+

lemma spares_return [spares_intros, simp]: "spares c d q (io_return x)"
  and spares_fail [spares_intros, simp]: "spares c d q (io_fail e)"
  and spares_panic [spares_intros, simp]: "spares c d q io_panic"
  by (auto intro: sparesI)

lemma spares_Pair [spares_intros, simp]: "spares c d q (Pair r)"
  by (auto intro: sparesI)

lemma spares_lift [spares_intros, simp]: "spares c d q (io_lift r)"
  by (cases r) simp_all

lemma spares_ensure [spares_intros, simp]: "spares c d q (io_ensure b e)"
  by (cases b) simp_all

lemma spares_bind_knowing:
  assumes "spares c d q m"
    and "\<And>x w w1. standing c d q w \<Longrightarrow> m w = (Done x, w1) \<Longrightarrow> spares c d q (f x)"
  shows "spares c d q (io_bind m f)"
  unfolding spares_def
proof (intro allI impI)
  fix w r w'
  assume st: "standing c d q w" and run: "io_bind m f w = (r, w')"
  from run show "standing c d q w' \<and> files w' q = files w q"
  proof (cases rule: io_bind_cases)
    case (Done x w1)
    note m = sparesD [OF assms(1) st Done(1)]
    show ?thesis using sparesD [OF assms(2) [OF st Done(1)] m(1) Done(2)] m(2) by simp
  next
    case (Failed e)
    then show ?thesis using sparesD [OF assms(1) st] by blast
  next
    case Crashed
    then show ?thesis using sparesD [OF assms(1) st] by blast
  qed
qed

lemma spares_bind [spares_intros]: "spares c d q m \<Longrightarrow> (\<And>x. spares c d q (f x)) \<Longrightarrow> spares c d q (io_bind m f)"
  by (rule spares_bind_knowing)

lemma spares_match [spares_intros]:
  assumes "spares c d q m" "\<And>x. spares c d q (f x)" "\<And>e. spares c d q (h e)"
  shows "spares c d q (io_match m f h)"
  unfolding spares_def
proof (intro allI impI)
  fix w r w'
  assume st: "standing c d q w" and run: "io_match m f h w = (r, w')"
  from run show "standing c d q w' \<and> files w' q = files w q"
  proof (cases rule: io_match_cases)
    case (Done x w1)
    note m = sparesD [OF assms(1) st Done(1)]
    show ?thesis using sparesD [OF assms(2) m(1) Done(2)] m(2) by simp
  next
    case (Failed e w1)
    note m = sparesD [OF assms(1) st Failed(1)]
    show ?thesis using sparesD [OF assms(3) m(1) Failed(2)] m(2) by simp
  next
    case Crashed
    then show ?thesis using sparesD [OF assms(1) st] by blast
  qed
qed

lemma spares_map_err [spares_intros]: "spares c d q m \<Longrightarrow> spares c d q (io_map_err g m)"
  unfolding io_map_err_def by (intro spares_intros)

lemma spares_ok [spares_intros]: "spares c d q m \<Longrightarrow> spares c d q (io_ok m)"
  unfolding io_ok_def by (intro spares_intros)

lemma spares_ignore [spares_intros]: "spares c d q m \<Longrightarrow> spares c d q (io_ignore m)"
  unfolding io_ignore_def by (intro spares_intros)

lemma spares_with_world [spares_intros]: "(\<And>w. spares c d q (f w)) \<Longrightarrow> spares c d q (with_world f)"
  unfolding spares_def with_world_def by blast

lemma spares_if [spares_intros]: "(b \<Longrightarrow> spares c d q m) \<Longrightarrow> (\<not> b \<Longrightarrow> spares c d q n) \<Longrightarrow> spares c d q (if b then m else n)"
  by simp

lemma spares_option [spares_intros]:
  "(o' = None \<Longrightarrow> spares c d q m) \<Longrightarrow> (\<And>x. o' = Some x \<Longrightarrow> spares c d q (f x))
   \<Longrightarrow> spares c d q (case o' of None \<Rightarrow> m | Some x \<Rightarrow> f x)"
  by (cases o') simp_all

lemma spares_prod [spares_intros]: "(\<And>x y. p = (x, y) \<Longrightarrow> spares c d q (f x y)) \<Longrightarrow> spares c d q (case p of (x, y) \<Rightarrow> f x y)"
  by (cases p) simp

lemma spares_keeps:
  assumes "\<And>w r w'. m w = (r, w') \<Longrightarrow> keeps S w w' \<and> dirs w \<subseteq> dirs w'" "q \<notin> S"
  shows "spares c d q m"
  using assms by (intro sparesI) (meson keeps_file subsetD)

section \<open>The file system\<close>

lemma spares_read [spares_intros, simp]: "spares c d q (fs_read p)"
  and spares_open [spares_intros, simp]: "spares c d q (fs_open p)"
  and spares_exists [spares_intros, simp]: "spares c d q (fs_exists p)"
  and spares_read_dir [spares_intros, simp]: "spares c d q (fs_read_dir listing p)"
  and spares_sync [spares_intros, simp]: "spares c d q (fs_sync_all p)"
  and spares_create_dir_all [spares_intros, simp]: "spares c d q (fs_create_dir_all p)"
  and spares_now [spares_intros, simp]: "spares c d q now_secs"
  and spares_random [spares_intros, simp]: "spares c d q (random_bytes n)"
  and spares_try_lock [spares_intros, simp]: "spares c d q (fs_try_lock p)"
  by (auto intro!: sparesI simp: fs_read_def fs_open_def fs_exists_def fs_read_dir_def fs_sync_all_def now_secs_def
      fs_create_dir_all_def random_bytes_def fs_try_lock_def fs_op_def
      split: fault.splits option.splits if_splits)

lemma spares_read_to_string [spares_intros, simp]: "spares c d q (fs_read_to_string p)"
  unfolding fs_read_to_string_def by (intro spares_intros)

lemma spares_remove_file [spares_intros]: "q \<noteq> p \<Longrightarrow> spares c d q (fs_remove_file p)"
  and spares_write_all [spares_intros]: "q \<noteq> p \<Longrightarrow> spares c d q (fs_write_all p b)"
  and spares_rename: "q \<noteq> p \<Longrightarrow> q \<noteq> p' \<Longrightarrow> spares c d q (fs_rename p p')"
  and spares_create_new: "c \<or> q \<noteq> p \<Longrightarrow> spares c d q (fs_create_new p)"
  by (auto intro!: sparesI simp: fs_remove_file_def fs_write_all_def fs_rename_def fs_create_new_def fs_op_def Let_def
      standing_def split: fault.splits option.splits)

lemma spares_remove_dir_all [spares_intros]:
  "\<not> path_starts_with q p \<Longrightarrow> \<not> c \<or> \<not> path_starts_with d p \<Longrightarrow> spares c d q (fs_remove_dir_all p)"
  unfolding spares_def standing_def
  by (auto simp: fs_remove_dir_all_def remove_tree_def Let_def split: fault.splits if_splits)

section \<open>Atomic writes\<close>

text \<open>A temporary name that a file already has is never taken.\<close>

lemma allocate_temp_fresh:
  "allocate_temp parent name n k left w = (Done (Some t), w') \<Longrightarrow> files w t = None"
proof (induction left arbitrary: k w)
  case (Suc left)
  from Suc.prems show ?case
    unfolding allocate_temp.simps Let_def
  proof (cases rule: io_match_cases)
    case (Done x w1)
    with fs_create_new_run(2) [OF Done(1)] show ?thesis by auto
  next
    case (Failed e w1)
    have "w1 = spend_fault w" using fs_create_new_run(3) [OF Failed(1)] by simp
    with Failed(2) Suc.IH [of "Suc k" w1] show ?thesis by (simp split: if_splits)
  next
    case Crashed
    then show ?thesis by simp
  qed
qed simp

lemma spares_allocate: "c \<or> (\<forall>k. q \<noteq> temp_path parent name n k) \<Longrightarrow> spares c d q (allocate_temp parent name n k left)"
  by (induction left arbitrary: k) (auto simp: Let_def intro!: spares_intros spares_create_new)

lemma spares_replace_target: "q \<noteq> t \<Longrightarrow> q \<noteq> p \<Longrightarrow> spares c d q (replace_target t p b)"
  unfolding replace_target_def by (intro spares_intros spares_rename) auto

lemma spares_atomic_write:
  assumes "q \<noteq> p" "c \<or> q \<notin> temps p"
  shows "spares c d q (atomic_write p b)"
proof -
  have body: "spares c d q
      (io_bind (allocate_temp parent name n 0 100) (\<lambda>t.
         (case t of
            None \<Rightarrow> io_fail (SMigrationRefused NoTemporaryName)
          | Some temp \<Rightarrow>
              io_match (replace_target temp p b) io_return
                (\<lambda>e. io_bind (io_ignore (fs_remove_file temp)) (\<lambda>_. io_fail (SIo e))))))"
    if pn: "path_parent p = Some parent" "path_file_name p = Some name" for parent name n
  proof (rule spares_bind_knowing)
    have own: "\<And>k. temp_path parent name n k \<in> temps p" using pn by (auto simp: temps_def)
    then show "spares c d q (allocate_temp parent name n 0 100)" using assms(2) by (intro spares_allocate) metis
    fix t w w1
    assume st: "standing c d q w" and run: "allocate_temp parent name n 0 100 w = (Done t, w1)"
    have "q \<noteq> temp" if "t = Some temp" for temp
      using allocate_temp_fresh [of parent name n 0 100 w temp w1] allocate_temp_run [OF run] run that st own assms(2)
      by (auto simp: standing_def)
    then show "spares c d q (case t of
            None \<Rightarrow> io_fail (SMigrationRefused NoTemporaryName)
          | Some temp \<Rightarrow>
              io_match (replace_target temp p b) io_return
                (\<lambda>e. io_bind (io_ignore (fs_remove_file temp)) (\<lambda>_. io_fail (SIo e))))"
      using assms(1) by (auto intro!: spares_intros spares_replace_target split: option.split)
  qed
  show ?thesis
    unfolding atomic_write_def
    by (auto intro!: spares_intros body split: option.split)
qed

lemma temps_beside: "path_starts_with p d \<Longrightarrow> p \<noteq> d \<Longrightarrow> t \<in> temps p \<Longrightarrow> path_starts_with t d"
  unfolding path_starts_with_iff
  by (fastforce simp: temps_def temp_path_def path_join_def path_parent_def split: if_splits component.splits
      simp: butlast_append)

text \<open>A write below a directory spares what is not below it, and every other file that exists.\<close>

lemma spares_write_below:
  assumes "q \<noteq> p" "c \<or> (path_starts_with p d' \<and> p \<noteq> d' \<and> \<not> path_starts_with q d')"
  shows "spares c d q (write_file_atomically p b)"
  unfolding write_file_atomically_eq
  using assms temps_beside by (intro spares_atomic_write) auto

end
