(* ===== verification/Runtime_Props.thy ===== *)
theory Runtime_Props
  imports Runtime
begin

text \<open>
  The commands of an app and the wait for its address: how a wait ends, what every command of an app is
  pinned to, and when the prerequisites count as met.
\<close>

section \<open>The wait\<close>

definition ends :: "rounds \<Rightarrow> nat \<Rightarrow> nat \<Rightarrow> bool" where
  "ends rs limit k = (answers rs k \<or> raised_in rs k \<or> limit \<le> 400 * k + ahead rs k)"

definition verdict :: "rounds \<Rightarrow> string \<Rightarrow> nat \<Rightarrow> app_error check" where
  "verdict rs target k =
     (if answers rs k then Ok ()
      else if raised_in rs k
      then Err (app_error_new Cancelled (''Setup was cancelled while waiting for '' @ target))
      else Err (app_error_new TimedOut (''Health check timed out for '' @ target)))"

lemma wait_round_ends:
  "\<exists>n. k \<le> n \<and> (n = k \<or> 400 * n < limit + 400) \<and> ends rs limit n \<and> (\<forall>j. k \<le> j \<and> j < n \<longrightarrow> \<not> ends rs limit j)
     \<and> wait_round rs target limit k = verdict rs target n"
proof (induction rs target limit k rule: wait_round.induct)
  case (1 rs target limit k)
  show ?case
  proof (cases "ends rs limit k")
    case True
    then have "wait_round rs target limit k = verdict rs target k"
      by (subst wait_round.simps) (auto simp: ends_def verdict_def)
    with True show ?thesis by (intro exI [of _ k]) auto
  next
    case False
    then have step: "wait_round rs target limit k = wait_round rs target limit (Suc k)"
      by (subst wait_round.simps) (auto simp: ends_def)
    from False 1 obtain n where n: "Suc k \<le> n" "n = Suc k \<or> 400 * n < limit + 400" "ends rs limit n"
      "\<forall>j. Suc k \<le> j \<and> j < n \<longrightarrow> \<not> ends rs limit j" "wait_round rs target limit (Suc k) = verdict rs target n"
      by (auto simp: ends_def)
    have "400 * n < limit + 400" using n(2) False by (auto simp: ends_def)
    moreover have "\<not> ends rs limit j" if "k \<le> j" "j < n" for j
      using n(4) False that by (cases "j = k") auto
    ultimately show ?thesis using n(1,3,5) step by (intro exI [of _ n]) auto
  qed
qed

text \<open>
  Claim C29. The wait for an address always ends: in the first round that finds the address answering, the token
  raised or the deadline past, in that order, and no later than the round after the last full 400
  milliseconds of the deadline. It asks at least once, even with a deadline of zero.
\<close>

theorem wait_ends_in_first_round:
  "\<exists>n. 400 * n < 1000 * seconds + 400 \<and> (\<forall>j < n. \<not> ends rs (1000 * seconds) j) \<and> ends rs (1000 * seconds) n
     \<and> wait_for_health_with rs target seconds = verdict rs target n"
proof -
  let ?l = "1000 * seconds"
  obtain n where n: "0 \<le> n \<and> (n = 0 \<or> 400 * n < ?l + 400) \<and> ends rs ?l n \<and> (\<forall>j. 0 \<le> j \<and> j < n \<longrightarrow> \<not> ends rs ?l j)
     \<and> wait_round rs target ?l 0 = verdict rs target n"
    using wait_round_ends [of 0 ?l rs target] by (rule exE)
  have "400 * n < ?l + 400" using n by linarith
  then have "400 * n < ?l + 400 \<and> (\<forall>j < n. \<not> ends rs ?l j) \<and> ends rs ?l n \<and> wait_for_health_with rs target seconds = verdict rs target n"
    using n by (simp add: wait_for_health_with_def)
  then show ?thesis by (rule exI)
qed

theorem wait_ends_in_first_round_witness:
  "wait_for_health_with \<lparr>answers = (\<lambda>k. k = 3), raised_in = (\<lambda>_. False), ahead = (\<lambda>k. k)\<rparr> ''http://x'' 60 = Ok ()"
proof -
  let ?rs = "\<lparr>answers = (\<lambda>k. k = 3), raised_in = (\<lambda>_. False), ahead = (\<lambda>k. k)\<rparr> :: rounds"
  obtain n where n: "400 * n < 1000 * (60 :: nat) + 400" "\<forall>j < n. \<not> ends ?rs (1000 * 60) j" "ends ?rs (1000 * 60) n"
    "wait_for_health_with ?rs ''http://x'' 60 = verdict ?rs ''http://x'' n"
    using wait_ends_in_first_round [of 60 ?rs "''http://x''"] by blast
  have e3: "ends ?rs (1000 * 60) 3" by (simp add: ends_def)
  then have "n \<le> 3" using n(2) by (meson not_le_imp_less)
  then have "n = 3" using n(3) by (auto simp: ends_def)
  then show ?thesis using n(4) by (simp add: verdict_def)
qed

section \<open>Commands of an app\<close>

definition compose_base :: "installed_app \<Rightarrow> string list \<Rightarrow> string list" where
  "compose_base app as =
     (case runtime app of
        Compose name dir cfile \<Rightarrow> [''compose'', ''-f'', path_string cfile, ''-p'', name] @ as
      | External \<Rightarrow> [])"

text \<open>
  Every command for a managed app names the Compose file and the project of this app, runs in its
  directory with the given deadline, and goes to the engine saved for the project: to its program and
  endpoint, or through the WSL route. Without a saved engine it is the plain command. Forming it writes
  nothing, and a connected app has no command.
\<close>

theorem app_command_pinned:
  assumes "compose_command rt app as t w = (Done c, w')"
  shows "\<exists>name dir cfile b. runtime app = Compose name dir cfile \<and> keeps {} w w'
    \<and> retained (engine_json rt) dir w = (Done b, w')
    \<and> (case b of
         None \<Rightarrow> c = command_docker (compose_base app as) (Some dir) t
       | Some e \<Rightarrow>
           if is_wsl e then wsl_route rt (command_docker (compose_base app as) (Some dir) t) = Ok c
           else program c = engine_program e \<and> args c = ''--host'' # endpoint e # compose_base app as
             \<and> cwd c = Some dir \<and> command_spec.timeout c = t \<and> set engine_env \<subseteq> set (remove_env c))"
proof -
  from assms obtain name dir cfile where app: "runtime app = Compose name dir cfile"
    by (auto simp: compose_command_def split: runtime_spec.splits)
  let ?spec = "command_docker (compose_base app as) (Some dir) t"
  have base: "compose_base app as = [''compose'', ''-f'', path_string cfile, ''-p'', name] @ as"
    by (simp add: compose_base_def app)
  from assms have "io_bind (retained (engine_json rt) dir) (\<lambda>b.
      case b of Some binding \<Rightarrow> io_lift (binding_command (wsl_route rt) binding ?spec) | None \<Rightarrow> io_return ?spec) w = (Done c, w')"
    unfolding base compose_command_def project_command_def app runtime_spec.case .
  then obtain b w1 where ret: "retained (engine_json rt) dir w = (Done b, w1)"
    and rest: "(case b of Some binding \<Rightarrow> io_lift (binding_command (wsl_route rt) binding ?spec)
        | None \<Rightarrow> io_return ?spec) w1 = (Done c, w')"
    by (rule io_bind_DoneE)
  have w1: "w1 = w'" using rest by (auto simp: io_lift_def split: option.splits result.splits)
  have "case b of
         None \<Rightarrow> c = ?spec
       | Some e \<Rightarrow>
           if is_wsl e then wsl_route rt ?spec = Ok c
           else program c = engine_program e \<and> args c = ''--host'' # endpoint e # compose_base app as
             \<and> cwd c = Some dir \<and> command_spec.timeout c = t \<and> set engine_env \<subseteq> set (remove_env c)"
  proof (cases b)
    case None
    then show ?thesis using rest by simp
  next
    case (Some e)
    then have bc: "binding_command (wsl_route rt) e ?spec = Ok c"
      using rest by (auto simp: io_lift_def split: result.splits)
    show ?thesis
    proof (cases "is_wsl e")
      case True
      then show ?thesis using bc Some by (auto simp: binding_command_def and_then_Ok_iff)
    next
      case False
      note r = binding_command_Ok [OF bc False]
      have "args c = ''--host'' # endpoint e # compose_base app as"
        using r(3) by (auto simp: base command_docker_def command_new_def)
      moreover have "set engine_env \<subseteq> set (remove_env c)" using r(6) by (simp add: set_push_missing)
      ultimately show ?thesis using r(2,4,5) Some False by (simp add: command_docker_def command_new_def)
    qed
  qed
  then show ?thesis using app ret retained_keeps [OF ret] by (auto simp: w1)
qed

definition plain_runtime :: runtime_env where
  "plain_runtime = \<lparr>engine_json = \<lparr>encode = (\<lambda>_. None), decode = (\<lambda>_. None)\<rparr>, wsl_route = Ok,
     show_error = (\<lambda>_. [])\<rparr>"

definition notes_app :: installed_app where
  "notes_app = \<lparr>app_id = ''notes'', catalog_id = None, display_name = ''Notes'', launch_url = ''http://localhost:8080'',
     icon_path = None, runtime = Compose ''local-store-notes'' [RootDir, Normal ''notes'']
       [RootDir, Normal ''notes'', Normal ''compose.yaml''], created_at_unix = 0, updated_at_unix = 0\<rparr>"

theorem app_command_pinned_witness:
  "fst (compose_command plain_runtime notes_app [''stop''] 180 (sample_world []))
     = Done (command_docker [''compose'', ''-f'', ''/notes/compose.yaml'', ''-p'', ''local-store-notes'', ''stop'']
               (Some [RootDir, Normal ''notes'']) 180)
   \<and> keeps {} (sample_world []) (snd (compose_command plain_runtime notes_app [''stop''] 180 (sample_world [])))"
proof -
  let ?c = "command_docker [''compose'', ''-f'', ''/notes/compose.yaml'', ''-p'', ''local-store-notes'', ''stop'']
     (Some [RootDir, Normal ''notes'']) 180"
  have f: "fst (compose_command plain_runtime notes_app [''stop''] 180 (sample_world [])) = Done ?c"
    by code_simp
  then have "compose_command plain_runtime notes_app [''stop''] 180 (sample_world [])
     = (Done ?c, snd (compose_command plain_runtime notes_app [''stop''] 180 (sample_world [])))"
    by (metis prod.collapse)
  with app_command_pinned [OF this] f show ?thesis by blast
qed

end
