(* ===== verification/Install_Props.thy ===== *)
theory Install_Props
  imports Frames Runtime_Props
begin

text \<open>
  What an installation, its undoing and a removal do to the disk and to the registry, for every fault of
  the file system and every behaviour of the engine.
\<close>

section \<open>Frames of the operations\<close>

lemma spares_retained [spares_intros, simp]: "spares c d q (retained json project)"
  unfolding retained_def compose_header_def by (intro spares_intros)

lemma spares_engine_save [spares_intros]:
  "q \<noteq> path_join project ENGINE_FILE \<Longrightarrow> c \<or> \<not> path_starts_with q project
   \<Longrightarrow> spares c d q (engine_save json project b)"
  unfolding engine_save_def
  by (auto intro!: spares_intros spares_write_below [where d' = project] split: option.split
      simp: path_join_def path_starts_with_iff)

lemma spares_compose_command [spares_intros, simp]: "spares c d q (compose_command rt app as t)"
  unfolding compose_command_def project_command_def
  by (auto intro!: spares_intros split: runtime_spec.split option.split)

definition sparing :: "bool \<Rightarrow> path \<Rightarrow> path \<Rightarrow> runner \<Rightarrow> bool" where
  "sparing c d q runner = (\<forall>use spec. spares c d q (runner use spec))"

lemma sparing_run [spares_intros]: "sparing c d q runner \<Longrightarrow> spares c d q (runner use spec)"
  by (simp add: sparing_def)

lemma sparing_engine [intro]: "sparing c d q runner \<Longrightarrow> sparing c d q (engine_runner rt b runner)"
  unfolding sparing_def [of _ _ _ "engine_runner rt b runner"] engine_runner_def engine_run_def
  by (intro allI spares_intros)

lemma spares_checked_run [spares_intros]: "sparing c d q runner \<Longrightarrow> spares c d q (checked_run runner use spec action)"
  unfolding checked_run_def by (intro spares_intros)

lemma spares_doctor [spares_intros]: "sparing c d q runner \<Longrightarrow> spares c d q (doctor_with runner)"
  unfolding doctor_with_def doctor_one_def by (simp add: Let_def) (intro spares_intros)

lemma spares_logs [spares_intros]: "sparing c d q runner \<Longrightarrow> spares c d q (logs_with rt runner app)"
  unfolding logs_with_def by (intro spares_intros)

lemma spares_last_words [spares_intros]: "sparing c d q runner \<Longrightarrow> spares c d q (last_words rt runner app)"
  unfolding last_words_def by (intro spares_intros)

lemma spares_start [spares_intros]: "sparing c d q runner \<Longrightarrow> spares c d q (start_with_cancel rt runner use app)"
  unfolding start_with_cancel_def by (intro spares_intros)

lemma spares_start_project [spares_intros]:
  "sparing c d q runner \<Longrightarrow> spares c d q (start_project env ctx source runner app)"
  unfolding start_project_def check_cancelled_def by (intro spares_intros)

text \<open>The files an installation writes in its project directory.\<close>

definition own_files :: "install_source \<Rightarrow> path \<Rightarrow> path set" where
  "own_files source project =
     path_join project ` ({''compose.yaml'', ENGINE_FILE, COMPOSE_FILE} \<union> fst ` set (extra_files source))"

lemma below_join: "path_starts_with (path_join d n) d" "path_join d n \<noteq> d"
  by (simp_all add: path_join_def path_starts_with_iff)

lemma spares_write_own [spares_intros]:
  "q \<noteq> path_join d' n \<Longrightarrow> c \<or> \<not> path_starts_with q d' \<Longrightarrow> spares c d q (write_file_atomically (path_join d' n) b)"
  by (rule spares_write_below [where d' = d']) (use below_join in auto)

lemma spares_extra:
  "q \<notin> path_join project ` fst ` set extra \<Longrightarrow> c \<or> \<not> path_starts_with q project
   \<Longrightarrow> spares c d q (write_extra project extra)"
  by (induction project extra rule: write_extra.induct) (auto intro!: spares_intros)

lemma confined_seed_below:
  assumes "is_confined_seed_path s"
  shows "\<exists>r. join_relative project s = project @ Normal ''data'' # r"
proof -
  from assms obtain r where s: "s = ''data/'' @ r"
    by (auto simp: is_confined_seed_path_def starts_with_iff)
  have "parse_path s = Normal ''data'' # map piece_component (filter (\<lambda>w. w \<noteq> [] \<and> w \<noteq> ''.'') (split_char (CHR ''/'') r))"
    by (simp add: s parse_path_def Let_def piece_component_def)
  then show ?thesis by (simp add: join_relative_def is_absolute_def)
qed

lemma spares_seed_write:
  assumes "is_confined_seed_path s" "q \<noteq> join_relative project s" "c \<or> \<not> path_starts_with q project"
  shows "spares c d q (write_file_atomically (join_relative project s) b)"
  using confined_seed_below [OF assms(1), of project] assms
  by (intro spares_write_below [where d' = project]) (auto simp: path_starts_with_iff)

text \<open>A seed is written only where nothing is, so it never replaces a file.\<close>

lemma spares_write_seeds:
  assumes "c \<or> \<not> path_starts_with q project"
  shows "spares c d q (write_seeds env project seeds)"
  using assms
proof (induction env project seeds rule: write_seeds.induct)
  case (2 env project s content rest)
  let ?t = "join_relative project s"
  show ?case
  proof (cases "is_confined_seed_path s")
    case True
    show ?thesis
      unfolding write_seeds.simps Let_def
    proof (simp add: True, rule spares_bind_knowing)
      show "spares c d q (fs_exists ?t)" by simp
      fix there w w1
      assume st: "standing c d q w" and run: "fs_exists ?t w = (Done there, w1)"
      have ne: "q \<noteq> ?t" if "\<not> there"
      proof
        assume q: "q = ?t"
        obtain r where "?t = project @ r" using confined_seed_below [OF True] by blast
        then have "path_starts_with q project" using q by (simp add: path_starts_with_def)
        with "2.prems" have "c" by blast
        then show False using st run that q by (simp add: fs_exists_def standing_def)
      qed
      show "spares c d q
          (if there then write_seeds env project rest
           else io_bind (case path_parent ?t of
                   Some parent \<Rightarrow> io_map_err from_io (fs_create_dir_all parent) | None \<Rightarrow> io_return ())
                 (\<lambda>_. io_bind (io_map_err from_storage (write_file_atomically ?t content))
                   (\<lambda>_. write_seeds env project rest)))"
        using 2 True ne by (auto intro!: spares_intros spares_seed_write split: option.split)
    qed
  qed simp
qed simp

lemma spares_make_directories [spares_intros, simp]: "spares c d q (make_directories project seeds ds)"
  by (induction project seeds ds rule: make_directories.induct) (auto intro!: spares_intros)

lemma spares_write_project:
  assumes "q \<notin> own_files source project" "c \<or> \<not> path_starts_with q project"
  shows "spares c d q (write_project env source b projection project)"
  unfolding write_project_def
  using assms by (auto intro!: spares_intros spares_extra spares_write_seeds simp: own_files_def split: option.split)

lemma spares_put_back:
  "q \<noteq> path_join project n \<Longrightarrow> c \<or> \<not> path_starts_with q project \<Longrightarrow> spares c d q (put_back (path_join project n) previous)"
  unfolding put_back_def remove_if_there_def by (auto intro!: spares_intros split: option.split)

lemma spares_roll_back:
  assumes "sparing c d q runner" "q \<notin> own_files source project"
    and "c \<or> \<not> path_starts_with q project" "created \<longrightarrow> \<not> path_starts_with q project \<and> (\<not> c \<or> \<not> path_starts_with d project)"
  shows "spares c d q (roll_back env source runner project now created previous projected previous_projection failure)"
  unfolding roll_back_def Let_def
  using assms by (auto intro!: spares_intros spares_put_back simp: own_files_def split: option.split)

lemma spares_prepare [spares_intros]:
  "sparing c d q (run ctx) \<Longrightarrow> spares c d q (engine_binding_of ctx) \<Longrightarrow> spares c d q (prepare env ctx source project)"
  unfolding prepare_def check_cancelled_def check_preserved_def port_in_use_def
  by (auto intro!: spares_intros sparing_engine split: option.split)

text \<open>A directory that stands is found.\<close>

definition finds :: "bool \<Rightarrow> path \<Rightarrow> path \<Rightarrow> ('e, 'a) prog \<Rightarrow> ('a \<Rightarrow> bool) \<Rightarrow> bool" where
  "finds c d q m P = (\<forall>w x w'. standing c d q w \<longrightarrow> m w = (Done x, w') \<longrightarrow> P x)"

lemma finds_return: "P x \<Longrightarrow> finds c d q (io_return x) P"
  by (simp add: finds_def)

lemma finds_bind: "spares c d q m \<Longrightarrow> (\<And>x. finds c d q (f x) P) \<Longrightarrow> finds c d q (io_bind m f) P"
  unfolding finds_def by (intro allI impI, erule io_bind_DoneE) (blast dest: sparesD(1))

lemma finds_exists: "(\<And>b. (c \<longrightarrow> b) \<Longrightarrow> finds c d q (f b) P) \<Longrightarrow> finds c d q (io_bind (fs_exists d) f) P"
  unfolding finds_def
proof (intro allI impI)
  fix w x w'
  assume h: "\<And>b. (c \<longrightarrow> b) \<Longrightarrow> \<forall>w x w'. standing c d q w \<longrightarrow> f b w = (Done x, w') \<longrightarrow> P x"
    and st: "standing c d q w" and run: "io_bind (fs_exists d) f w = (Done x, w')"
  from run have "f (files w d \<noteq> None \<or> d \<in> dirs w) w = (Done x, w')" by (simp add: io_bind_def fs_exists_def)
  moreover have "c \<longrightarrow> files w d \<noteq> None \<or> d \<in> dirs w" using st by (simp add: standing_def)
  ultimately show "P x" using h [of "files w d \<noteq> None \<or> d \<in> dirs w"] st by simp
qed

lemma prepare_finds:
  assumes "sparing c project q (run ctx)" "spares c project q (engine_binding_of ctx)"
  shows "finds c project q (prepare env ctx source project) (\<lambda>(b, p, created). c \<longrightarrow> \<not> created)"
  unfolding prepare_def check_cancelled_def check_preserved_def port_in_use_def
  using assms
  by (auto intro!: finds_exists finds_bind finds_return spares_intros sparing_engine split: option.split)

definition spared_source :: "bool \<Rightarrow> path \<Rightarrow> install_source \<Rightarrow> path \<Rightarrow> bool" where
  "spared_source c q source project = (if c then q \<notin> own_files source project else \<not> path_starts_with q project)"

lemma own_files_below: "p \<in> own_files source project \<Longrightarrow> path_starts_with p project"
  by (auto simp: own_files_def below_join)

lemma spares_install:
  assumes run: "sparing c project q (run ctx)" and engine: "spares c project q (engine_binding_of ctx)"
    and project: "project = path_join root (source_id source)" and q: "spared_source c q source project"
  shows "spares c project q (install_source_with env ctx source root now)"
proof -
  have own: "q \<notin> own_files source project" and out: "c \<or> \<not> path_starts_with q project"
    using q own_files_below by (auto simp: spared_source_def split: if_splits)
  have created: "snd (snd x) \<longrightarrow> \<not> path_starts_with q project \<and> (\<not> c \<or> \<not> path_starts_with project project)"
    if "standing c project q w" "prepare env ctx source project w = (Done x, w1)" for x w w1
    using prepare_finds [OF run engine] that out unfolding finds_def by (fastforce split: prod.splits)
  show ?thesis
    unfolding install_source_with_def Let_def project [symmetric] split_def
    by (rule spares_bind_knowing, rule spares_prepare [OF run engine])
       (intro spares_intros spares_write_project spares_roll_back sparing_engine run own out created)
qed

section \<open>What an installation leaves alone\<close>

definition project_of :: "install_source \<Rightarrow> path \<Rightarrow> path" where
  "project_of source root = path_join root (source_id source)"

text \<open>
  Claim C4. Whatever fails and wherever the process dies, an installation whose commands and probes leave a file
  alone does so too when the file lies outside of the project directory. In a project directory that
  was there before, a keep-data reinstall, it leaves every file alone that exists and is not one of its own:
  the Compose files, the engine's record and the extra files. Seeds never replace a file, temporary
  files never take a name in use, and the directory is never removed.
\<close>

theorem install_spares_files:
  assumes "\<And>use spec v r v'. run ctx use spec v = (r, v') \<Longrightarrow>
      files v' q = files v q \<and> (project_of source root \<in> dirs v \<longrightarrow> project_of source root \<in> dirs v')"
    and "\<And>v r v'. engine_binding_of ctx v = (r, v') \<Longrightarrow>
      files v' q = files v q \<and> (project_of source root \<in> dirs v \<longrightarrow> project_of source root \<in> dirs v')"
    and "install_source_with env ctx source root now w = (r, w')"
    and "\<not> path_starts_with q (project_of source root)
       \<or> project_of source root \<in> dirs w \<and> files w q \<noteq> None \<and> q \<notin> own_files source (project_of source root)"
  shows "files w' q = files w q"
proof -
  let ?p = "project_of source root"
  have s: "spares c ?p q (install_source_with env ctx source root now)"
    if "spared_source c q source ?p" for c
    using assms(1,2) that
    by (intro spares_install sparesI allI) (auto simp: sparing_def project_of_def intro!: sparesI)
  show ?thesis
  proof (cases "path_starts_with q ?p")
    case False
    then have "spared_source False q source ?p" by (simp add: spared_source_def)
    from sparesD(2) [OF s [OF this] _ assms(3)] show ?thesis by (simp add: standing_def)
  next
    case True
    with assms(4) have a: "?p \<in> dirs w" "files w q \<noteq> None" "q \<notin> own_files source ?p" by auto
    then have "spared_source True q source ?p" by (simp add: spared_source_def)
    from sparesD(2) [OF s [OF this] _ assms(3)] a show ?thesis by (simp add: standing_def)
  qed
qed

section \<open>A small installation\<close>

text \<open>An engine that accepts every command and writes nothing, free ports, an address that answers at once.\<close>

definition quiet_output :: process_output where
  "quiet_output = \<lparr>success = True, stdout = ''ok'', stderr = [], truncated = False\<rparr>"

definition quiet_context :: install_context where
  "quiet_context = \<lparr>run = (\<lambda>_ _. io_return quiet_output), engine_binding_of = io_return None,
     health = \<lparr>answers = (\<lambda>_. True), raised_in = (\<lambda>_. False), ahead = (\<lambda>_. 0)\<rparr>,
     port_free = (\<lambda>_. True), cancelled_at = (\<lambda>_. False)\<rparr>"

definition plain_env :: install_env where
  "plain_env = \<lparr>rt_env = plain_runtime, entries = (\<lambda>_ _. [''data'']), json_quote = Ok, path_unicode = (\<lambda>_. None),
     show_plan = (\<lambda>_. []), show_setup = (\<lambda>_. []), show_secret = (\<lambda>_. []), debug_form = id,
     secrets_json = \<lparr>encode = (\<lambda>_. None), decode = (\<lambda>_. None)\<rparr>, offering_catalog = (\<lambda>_. None),
     setup_world = \<lparr>regex_build = (\<lambda>_. None), os_canonicalize = Some, os_is_dir = (\<lambda>_. True),
       home_folder = None, records_root = []\<rparr>, ensure_owned = io_return ()\<rparr>"

definition notes_source :: install_source where
  "notes_source = \<lparr>source_id = ''notes'', source_name = ''Notes'', source_catalog = None,
     source_launch = ''http://localhost:8080'', source_health = ''http://localhost:8080'', source_port = 8080,
     companion_ports = [], source_compose = ''services:'', resolved_plan = None, source_directories = [''data''],
     extra_files = [], source_seeds = [(''data/a'', ''new'')], first_start_timeout = Some 0\<rparr>"

definition kept_world :: world where
  "kept_world = \<lparr>files = [[Normal ''apps'', Normal ''notes'', Normal ''data'', Normal ''a''] \<mapsto> ''old''],
     dirs = {[Normal ''apps'', Normal ''notes'']}, locked = {}, clock_secs = Some 5, clock_nanos = 7, entropy = [],
     faults = []\<rparr>"

lemma notes_installed:
  "fst (install_source_with plain_env quiet_context notes_source [Normal ''apps''] 5 kept_world)
     = Done (source_app notes_source [Normal ''apps'', Normal ''notes''] 5)"
  by code_simp

lemma quiet_leaves: "run quiet_context use spec v = (r, v') \<Longrightarrow> v' = v"
    "engine_binding_of quiet_context v = (r', v') \<Longrightarrow> v' = v"
  by (auto simp: quiet_context_def)

theorem install_spares_files_witness:
  "fst (install_source_with plain_env quiet_context notes_source [Normal ''apps''] 5 kept_world)
     = Done (source_app notes_source [Normal ''apps'', Normal ''notes''] 5)
   \<and> files (snd (install_source_with plain_env quiet_context notes_source [Normal ''apps''] 5 kept_world))
       [Normal ''apps'', Normal ''notes'', Normal ''data'', Normal ''a''] = Some ''old''"
proof -
  let ?i = "install_source_with plain_env quiet_context notes_source [Normal ''apps''] 5 kept_world"
  let ?q = "[Normal ''apps'', Normal ''notes'', Normal ''data'', Normal ''a'']"
  have k: "files kept_world ?q = Some ''old''" "project_of notes_source [Normal ''apps''] \<in> dirs kept_world"
    by (simp_all add: kept_world_def project_of_def notes_source_def path_join_def)
  have own: "?q \<notin> own_files notes_source (project_of notes_source [Normal ''apps''])"
    by (auto simp: own_files_def project_of_def notes_source_def path_join_def)
  have i: "?i = (fst ?i, snd ?i)" by (rule prod.collapse [symmetric])
  have "files (snd ?i) ?q = files kept_world ?q"
  proof (rule install_spares_files [OF _ _ i])
    show "files v' ?q = files v ?q \<and> (project_of notes_source [Normal ''apps''] \<in> dirs v
        \<longrightarrow> project_of notes_source [Normal ''apps''] \<in> dirs v')"
      if "run quiet_context use spec v = (r, v')" for use spec v r v'
      using quiet_leaves(1) [OF that] by simp
    show "files v' ?q = files v ?q \<and> (project_of notes_source [Normal ''apps''] \<in> dirs v
        \<longrightarrow> project_of notes_source [Normal ''apps''] \<in> dirs v')"
      if "engine_binding_of quiet_context v = (r, v')" for v r v'
      using quiet_leaves(2) [OF that] by simp
  qed (use k own in simp)
  then have "files (snd ?i) ?q = Some ''old''" unfolding k(1) .
  then show ?thesis using notes_installed by (rule conjI [rotated])
qed

end
