(* ===== verification/Install_Results.thy ===== *)
theory Install_Results
  imports Install_Props Plan_Ports
begin

text \<open>
  How an installation ends: refused before anything is written, with a running app, or undone; and what
  the choice of ports and secrets keeps from an earlier installation.
\<close>

section \<open>Refusals\<close>

lemma check_cancelled_Done: "check_cancelled ctx c w = (Done u, w') \<Longrightarrow> \<not> cancelled_at ctx c \<and> w' = w"
  by (cases "cancelled_at ctx c") (simp_all add: check_cancelled_def)

lemma port_in_use_fails: "port_in_use f p w \<noteq> (Done u, w')"
  by (simp add: port_in_use_def)

lemma prepare_Done:
  assumes "prepare env ctx source project w = (Done x, w')"
  shows "\<not> cancelled_at ctx At_start" "\<not> cancelled_at ctx Before_doctor" "\<not> cancelled_at ctx Before_files"
    "\<forall>p \<in> insert (source_port source) (set (companion_ports source)). port_free ctx p"
proof -
  from assms show "\<not> cancelled_at ctx At_start" "\<not> cancelled_at ctx Before_doctor" "\<not> cancelled_at ctx Before_files"
    by (auto simp: prepare_def elim!: io_bind_DoneE dest!: check_cancelled_Done)
  from assms have "find (\<lambda>p. \<not> port_free ctx p) (source_port source # companion_ports source) = None"
    unfolding prepare_def
    by (elim io_bind_DoneE) (simp add: port_in_use_fails split: option.splits if_splits)
  then show "\<forall>p \<in> insert (source_port source) (set (companion_ports source)). port_free ctx p"
    by (auto simp: find_None_iff simp del: find.simps)
qed


lemma busy_refused:
  "\<not> port_free (quiet_context\<lparr>port_free := \<lambda>p. p \<noteq> 8080\<rparr>) (source_port notes_source)"
  by (simp add: notes_source_def)


section \<open>A running app\<close>

lemma spares_write_named:
  "q \<noteq> p \<Longrightarrow> path_file_name q = Some (a # m) \<Longrightarrow> a \<noteq> CHR ''.'' \<Longrightarrow> spares c d q (write_file_atomically p b)"
  unfolding write_file_atomically_eq by (intro spares_atomic_write disjI2 not_temp_of) auto

definition compose_path :: "path \<Rightarrow> path" where
  "compose_path project = path_join project ''compose.yaml''"

lemma compose_path_join [simp]: "compose_path d = path_join d n \<longleftrightarrow> n = ''compose.yaml''"
  by (auto simp: compose_path_def path_join_def)

lemma compose_path_name: "path_file_name (compose_path project) = Some (CHR ''c'' # ''ompose.yaml'')"
  by (simp add: compose_path_def path_join_def path_file_name_def)

lemma spares_compose [spares_intros]: "compose_path project \<noteq> p \<Longrightarrow> spares c d (compose_path project) (write_file_atomically p b)"
  by (rule spares_write_named [OF _ compose_path_name]) auto

lemma compose_extra:
  "''compose.yaml'' \<notin> fst ` set extra \<Longrightarrow> spares c d (compose_path project) (write_extra project extra)"
  by (induction project extra rule: write_extra.induct)
     (auto intro!: spares_intros)

lemma compose_seeds: "spares c d (compose_path project) (write_seeds env project seeds)"
proof (induction env project seeds rule: write_seeds.induct)
  case (2 env project s content rest)
  have "compose_path project \<noteq> join_relative project s" if "is_confined_seed_path s"
    using confined_seed_below [OF that, of project] by (auto simp: compose_path_def path_join_def)
  with 2 show ?case by (auto simp: Let_def intro!: spares_intros split: option.split)
qed simp

lemma write_seeds_confined:
  "write_seeds env project seeds w = (Done u, w') \<Longrightarrow> list_all (\<lambda>s. is_confined_seed_path (fst s)) seeds"
proof (induction env project seeds arbitrary: w rule: write_seeds.induct)
  case (2 env project s content rest)
  then have s: "is_confined_seed_path s" by (auto split: if_splits)
  with 2 show ?case by (auto simp: Let_def elim!: io_bind_DoneE split: if_splits)
qed simp

lemma write_project_compose:
  assumes "write_project env source b projection project w = (Done u, w')" "''compose.yaml'' \<notin> fst ` set (extra_files source)"
  shows "files w' (compose_path project) =
           Some ((if b \<noteq> None then COMPOSE_BINDING_MARKER else []) @ source_compose source)"
    and "list_all (\<lambda>s. is_confined_seed_path (fst s)) (source_seeds source)"
proof -
  from assms(1) obtain v w1 w2 where
    put: "write_file_atomically (compose_path project)
            ((if b \<noteq> None then COMPOSE_BINDING_MARKER else []) @ source_compose source) w1 = (Done v, w2)"
    and rest: "io_bind (case projection of
                Some p \<Rightarrow> io_map_err from_storage
                  (write_file_atomically (path_join project COMPOSE_FILE) (projected_compose p))
              | None \<Rightarrow> io_return ()) (\<lambda>_.
     io_bind (write_extra project (extra_files source)) (\<lambda>_.
     io_bind (write_seeds env project (source_seeds source)) (\<lambda>_.
       make_directories project (map fst (source_seeds source)) (source_directories source)))) w2 = (Done u, w')"
    unfolding write_project_def compose_path_def by (blast elim: io_bind_DoneE dest: io_map_err_Done [THEN iffD1])
  have "spares False [] (compose_path project) (io_bind (case projection of
                Some p \<Rightarrow> io_map_err from_storage
                  (write_file_atomically (path_join project COMPOSE_FILE) (projected_compose p))
              | None \<Rightarrow> io_return ()) (\<lambda>_.
     io_bind (write_extra project (extra_files source)) (\<lambda>_.
     io_bind (write_seeds env project (source_seeds source)) (\<lambda>_.
       make_directories project (map fst (source_seeds source)) (source_directories source)))))"
    using assms(2) by (intro spares_intros compose_extra compose_seeds) (auto simp: COMPOSE_FILE_def)
  from sparesD(2) [OF this _ rest] wfa.on_done [OF put]
  show "files w' (compose_path project) =
           Some ((if b \<noteq> None then COMPOSE_BINDING_MARKER else []) @ source_compose source)"
    by (simp add: standing_def)
  from rest show "list_all (\<lambda>s. is_confined_seed_path (fst s)) (source_seeds source)"
    by (elim io_bind_DoneE) (auto dest: write_seeds_confined)
qed

lemma verdict_Ok: "wait_for_health_with rs target seconds = Ok u \<Longrightarrow> \<exists>n. answers rs n"
  unfolding wait_for_health_with_def
  using wait_round_ends [of 0 "1000 * seconds" rs target] by (auto simp: verdict_def split: if_splits)

lemma start_project_Done:
  assumes "start_project env ctx source runner app w = (Done u, w')"
  shows "\<not> cancelled_at ctx Before_validation" "\<not> cancelled_at ctx Before_start" "\<exists>n. answers (health ctx) n"
  using assms
  by (auto simp: start_project_def io_lift_def elim!: io_bind_DoneE dest!: check_cancelled_Done verdict_Ok
      split: result.splits)

lemma roll_back_never_Done: "roll_back env source runner project now created pc pr pp failure w \<noteq> (Done x, w')"
  by (auto simp: roll_back_def Let_def elim!: io_bind_DoneE)

lemma install_Done_steps:
  assumes "install_source_with env ctx source root now w = (Done app, w')"
  obtains b p created w1 v v' where "prepare env ctx source (project_of source root) w = (Done (b, p, created), w1)"
    "write_project env source b p (project_of source root) v = (Done (), v')"
    "start_project env ctx source (engine_runner (rt_env env) b (run ctx))
       (source_app source (project_of source root) now) v' = (Done (), w')"
    "app = source_app source (project_of source root) now"
proof -
  let ?p = "project_of source root" and ?app = "source_app source (project_of source root) now"
  from assms obtain b p created w1 where prep: "prepare env ctx source ?p w = (Done (b, p, created), w1)"
    and rest: "io_bind (io_map_err from_io (fs_create_dir_all ?p)) (\<lambda>_.
         io_bind (io_ok (fs_read (path_join ?p ''compose.yaml''))) (\<lambda>previous_compose.
         io_bind (if p \<noteq> None then io_ok (fs_read (path_join ?p COMPOSE_FILE)) else io_return None)
           (\<lambda>previous_projection.
             io_match
                 (io_bind (write_project env source b p ?p) (\<lambda>_.
                    start_project env ctx source (engine_runner (rt_env env) b (run ctx)) ?app))
                 (\<lambda>_. io_return ?app)
                 (roll_back env source (engine_runner (rt_env env) b (run ctx)) ?p now created previous_compose (p \<noteq> None)
                    previous_projection)))) w1 = (Done app, w')"
    unfolding install_source_with_def Let_def project_of_def [symmetric]
    by (elim io_bind_DoneE) (simp split: prod.splits)
  from rest obtain pc pp v where "io_match
                 (io_bind (write_project env source b p ?p) (\<lambda>_.
                    start_project env ctx source (engine_runner (rt_env env) b (run ctx)) ?app))
                 (\<lambda>_. io_return ?app)
                 (roll_back env source (engine_runner (rt_env env) b (run ctx)) ?p now created pc (p \<noteq> None) pp) v
       = (Done app, w')"
    by (elim io_bind_DoneE)
  then show ?thesis
  proof (cases rule: io_match_cases)
    case (Done u v2)
    then obtain v' where "write_project env source b p ?p v = (Done (), v')"
      "start_project env ctx source (engine_runner (rt_env env) b (run ctx)) ?app v' = (Done (), v2)"
      by (auto elim: io_bind_DoneE)
    with Done(2) show ?thesis by (intro that [OF prep]) auto
  qed (auto simp: roll_back_never_Done)
qed

text \<open>
  Claim C11. An installation that returns an app returns exactly the app its source describes, having found every
  port free, no cancellation at any checkpoint and the address answering. The Compose file on disk is
  then the reviewed source, with the marker of a saved engine before it or without, and every seed is a
  plain file below \<^verbatim>\<open>data/\<close>. Its commands must leave the Compose file alone, and no extra file may have its name.
\<close>

theorem install_returns_running_app:
  assumes "install_source_with env ctx source root now w = (Done app, w')"
    and "\<And>use spec v r v'. run ctx use spec v = (r, v') \<Longrightarrow>
      files v' (compose_path (project_of source root)) = files v (compose_path (project_of source root))"
    and "''compose.yaml'' \<notin> fst ` set (extra_files source)"
  shows "app = source_app source (project_of source root) now
    \<and> (\<forall>p \<in> insert (source_port source) (set (companion_ports source)). port_free ctx p)
    \<and> (\<forall>c. \<not> cancelled_at ctx c) \<and> (\<exists>n. answers (health ctx) n)
    \<and> list_all (\<lambda>s. is_confined_seed_path (fst s)) (source_seeds source)
    \<and> files w' (compose_path (project_of source root))
        \<in> {Some (source_compose source), Some (COMPOSE_BINDING_MARKER @ source_compose source)}"
proof -
  let ?p = "project_of source root"
  from assms(1) obtain b pr created w1 v v' where prep: "prepare env ctx source ?p w = (Done (b, pr, created), w1)"
    and wr: "write_project env source b pr ?p v = (Done (), v')"
    and st: "start_project env ctx source (engine_runner (rt_env env) b (run ctx)) (source_app source ?p now) v' = (Done (), w')"
    and app: "app = source_app source ?p now"
    by (rule install_Done_steps)
  have "sparing False [] (compose_path ?p) (run ctx)"
    using assms(2) by (auto simp: sparing_def spares_def standing_def)
  then have "spares False [] (compose_path ?p)
      (start_project env ctx source (engine_runner (rt_env env) b (run ctx)) (source_app source ?p now))"
    by (intro spares_start_project sparing_engine)
  from sparesD(2) [OF this _ st] write_project_compose [OF wr assms(3)]
  have f: "files w' (compose_path ?p) \<in> {Some (source_compose source), Some (COMPOSE_BINDING_MARKER @ source_compose source)}"
    and seeds: "list_all (\<lambda>s. is_confined_seed_path (fst s)) (source_seeds source)"
    by (auto simp: standing_def)
  have "\<not> cancelled_at ctx c" for c
    using prepare_Done(1-3) [OF prep] start_project_Done(1,2) [OF st] by (cases c) auto
  then show ?thesis using app f seeds prepare_Done(4) [OF prep] start_project_Done(3) [OF st] by blast
qed

theorem install_returns_running_app_witness:
  "install_source_with plain_env quiet_context notes_source [Normal ''apps''] 5 kept_world
     = (Done (source_app notes_source [Normal ''apps'', Normal ''notes''] 5),
        snd (install_source_with plain_env quiet_context notes_source [Normal ''apps''] 5 kept_world))
   \<and> files (snd (install_source_with plain_env quiet_context notes_source [Normal ''apps''] 5 kept_world))
        (compose_path (project_of notes_source [Normal ''apps'']))
        \<in> {Some (source_compose notes_source), Some (COMPOSE_BINDING_MARKER @ source_compose notes_source)}"
proof -
  let ?i = "install_source_with plain_env quiet_context notes_source [Normal ''apps''] 5 kept_world"
  have i: "?i = (Done (source_app notes_source [Normal ''apps'', Normal ''notes''] 5), snd ?i)"
    using notes_installed by (rule prod_eqI [OF _ snd_conv [symmetric], simplified])
  have q: "files v' (compose_path (project_of notes_source [Normal ''apps'']))
      = files v (compose_path (project_of notes_source [Normal ''apps'']))"
    if "run quiet_context use spec v = (r, v')" for use spec v r v'
    using quiet_leaves(1) [OF that] by simp
  have "''compose.yaml'' \<notin> fst ` set (extra_files notes_source)" by (simp add: notes_source_def)
  note all = install_returns_running_app [OF i _ this]
  show ?thesis
    by (rule conjI [OF i all [THEN conjunct2, THEN conjunct2, THEN conjunct2, THEN conjunct2, THEN conjunct2]]) (rule q)
qed

section \<open>Undoing\<close>

lemma remove_if_there_Done: "remove_if_there p w = (Done u, w') \<Longrightarrow> files w' p = None"
  unfolding remove_if_there_def
  by (erule io_match_cases)
     (auto simp: fs_remove_file_def fs_op_def io_err_def split: fault.splits option.splits if_splits)

lemma put_back_Done: "put_back p previous w = (Done u, w') \<Longrightarrow> files w' p = previous"
  by (cases previous) (auto simp: put_back_def dest: remove_if_there_Done wfa.on_done)

lemma remove_tree_Done: "fs_remove_dir_all p w = (Done u, w') \<Longrightarrow> path_starts_with q p \<Longrightarrow> files w' q = None"
  by (auto simp: fs_remove_dir_all_def remove_tree_def Let_def split: fault.splits if_splits)

lemma also_failed_code: "code_of (also_failed a b) = RollbackFailed"
  by (simp add: also_failed_def app_error_rollback_def)

lemma last_words_not_failed: "last_words rt runner app w \<noteq> (Failed e, w')"
  unfolding last_words_def
  by (auto elim!: io_bind_cases io_match_cases)

text \<open>How \<open>roll_back\<close> goes on when the failure has its last words.\<close>

definition clean_up ::
  "install_env \<Rightarrow> install_source \<Rightarrow> runner \<Rightarrow> path \<Rightarrow> u64 \<Rightarrow> bool \<Rightarrow> bytes option \<Rightarrow> bool \<Rightarrow> bytes option
   \<Rightarrow> app_error \<Rightarrow> (app_error, 'a) prog" where
  "clean_up env source runner project now created pc projected pp original =
     io_bind (compose_command (rt_env env) ((source_app source project now)\<lparr>catalog_id := None\<rparr>) [''down'']
        LIFECYCLE_TIMEOUT) (\<lambda>spec.
     io_bind (io_map_err (also_failed original) (checked_run runner Detached spec ''Install cleanup'')) (\<lambda>_.
     io_bind (io_map_err (also_failed original)
        (if created then io_map_err from_io (fs_remove_dir_all project)
         else put_back (path_join project ''compose.yaml'') pc)) (\<lambda>_.
     io_bind (if \<not> created \<and> projected
        then io_map_err (also_failed original) (put_back (path_join project COMPOSE_FILE) pp)
        else io_return ()) (\<lambda>_.
       io_fail original))))"

lemma roll_back_clean_up:
  assumes "roll_back env source runner project now created pc projected pp failure w = (r, w')"
  shows "r = Crashed \<or> (\<exists>original w1. code_of original = code_of failure
    \<and> clean_up env source runner project now created pc projected pp original w1 = (r, w'))"
  using assms unfolding roll_back_def Let_def clean_up_def [symmetric]
proof (cases rule: io_bind_cases)
  case (Done said w1)
  then show ?thesis by (cases said) (auto intro: exI [of _ w1])
next
  case (Failed e)
  then show ?thesis by (simp add: last_words_not_failed split: if_splits)
qed simp

lemma put_back_compose:
  "put_back (path_join project COMPOSE_FILE) pp v = (Done u, v') \<Longrightarrow>
   files v' (compose_path project) = files v (compose_path project) \<and> files v' (path_join project COMPOSE_FILE) = pp"
proof -
  assume run: "put_back (path_join project COMPOSE_FILE) pp v = (Done u, v')"
  have "spares False [] (compose_path project) (put_back (path_join project COMPOSE_FILE) pp)"
    unfolding put_back_def remove_if_there_def by (intro spares_intros) (auto simp: COMPOSE_FILE_def)
  from sparesD(2) [OF this _ run] put_back_Done [OF run] show ?thesis by (simp add: standing_def)
qed

lemma clean_up_outcomes:
  assumes "clean_up env source runner project now created pc projected pp original w = (r, w')"
  shows "r = Crashed \<or> (\<exists>e. r = Failed e \<and> (code_of e = RollbackFailed
    \<or> (\<exists>v v'. compose_command (rt_env env) ((source_app source project now)\<lparr>catalog_id := None\<rparr>) [''down'']
           LIFECYCLE_TIMEOUT v = (Failed e, v'))
    \<or> e = original
      \<and> (if created then \<forall>q. path_starts_with q project \<longrightarrow> files w' q = None
         else files w' (compose_path project) = pc
           \<and> (projected \<longrightarrow> files w' (path_join project COMPOSE_FILE) = pp))))"
  using assms unfolding clean_up_def
proof (cases rule: io_bind_cases)
  case (Done spec w1)
  from Done(2) show ?thesis
  proof (cases rule: io_bind_cases)
    case (Done out w2)
    from Done(2) show ?thesis
    proof (cases rule: io_bind_cases)
      case (Done u w3)
      note undo = Done(1)
      from Done(2) show ?thesis
      proof (cases rule: io_bind_cases)
        case (Done v w4)
        then show ?thesis using undo
          by (cases created; cases projected)
             (auto dest: remove_tree_Done put_back_Done dest!: put_back_compose simp: compose_path_def)
      qed (auto simp: io_map_err_Failed also_failed_code split: if_splits)
    qed (auto simp: io_map_err_Failed also_failed_code split: if_splits)
  qed (auto simp: io_map_err_Failed also_failed_code split: if_splits)
qed auto


definition notes_undone :: "(app_error, unit) run \<times> world" where
  "notes_undone = roll_back plain_env notes_source (\<lambda>_ _. io_return quiet_output) [Normal ''apps'', Normal ''notes''] 5
     True None False None (app_error_new Cancelled ''late'') kept_world"


section \<open>Removing\<close>

lemma confined_to_managed_root_Ok:
  assumes "confined_to_managed_root env project app root = Ok u"
  shows "project = path_join root app
    \<and> (\<exists>real. os_canonicalize (setup_world env) root = Some real
         \<and> os_canonicalize (setup_world env) project = Some (path_join real app))"
  using assms
  by (auto simp: confined_to_managed_root_def canonical_def and_then_Ok_iff ok_or_def ensure_def path_split
      split: if_splits option.splits)

lemma io_bind_changes:
  assumes "io_bind m f w = (r, w')" "spares False [] q m" "files w' q \<noteq> files w q"
  obtains x w1 where "m w = (Done x, w1)" "f x w1 = (r, w')" "files w' q \<noteq> files w1 q"
  using assms(1)
proof (cases rule: io_bind_cases)
  case (Done x w1)
  then show ?thesis using sparesD(2) [OF assms(2) _ Done(1)] assms(3) that by (simp add: standing_def)
next
  case (Failed e)
  then show ?thesis using sparesD(2) [OF assms(2) _ Failed(1)] assms(3) by (simp add: standing_def)
next
  case Crashed
  then show ?thesis using sparesD(2) [OF assms(2) _ Crashed(1)] assms(3) by (simp add: standing_def)
qed

lemma checked_run_Done:
  "checked_run runner use spec action v = (Done out, v') \<Longrightarrow> runner use spec v = (Done out, v') \<and> success out"
  by (auto simp: checked_run_def elim!: io_bind_DoneE split: if_splits)

text \<open>
  Claim C17. Uninstalling changes a file, beyond what the engine's commands do, only when the data was to be deleted,
  the recorded directory is exactly the one of this app in the managed root, that directory and the
  root resolve to a directory and its direct child of that name, the file is below it, and \<^verbatim>\<open>down --volumes\<close>
  of this project has succeeded.
\<close>

theorem uninstall_deletes_only_its_directory:
  assumes "uninstall_locked env runner root app delete_data w = (r, w')"
    and "\<And>use spec v x v'. runner use spec v = (x, v') \<Longrightarrow> files v' q = files v q"
    and "\<And>v x v'. ensure_owned env v = (x, v') \<Longrightarrow> files v' q = files v q"
    and "files w' q \<noteq> files w q"
  shows "delete_data \<and> path_starts_with q (path_join root (app_id app))
    \<and> (\<exists>name cfile. runtime app = Compose name (path_join root (app_id app)) cfile)
    \<and> (\<exists>real. os_canonicalize (setup_world env) root = Some real
         \<and> os_canonicalize (setup_world env) (path_join root (app_id app)) = Some (path_join real (app_id app)))
    \<and> (\<exists>spec out u v v'. compose_command (rt_env env) app [''down'', ''--volumes''] LIFECYCLE_TIMEOUT u = (Done spec, v)
         \<and> runner Detached spec v = (Done out, v') \<and> success out)"
proof -
  have sp: "sparing False [] q runner" "spares False [] q (ensure_owned env)"
    using assms(2,3) by (auto simp: sparing_def spares_def standing_def)
  have keep: "spares False [] q (keep_owned_app_engine env app)"
    unfolding keep_owned_app_engine_def
    by (auto intro!: spares_intros sp split: runtime_spec.split option.split)
  have del: "delete_data"
  proof (rule ccontr)
    assume "\<not> delete_data"
    then have "spares False [] q (uninstall_locked env runner root app delete_data)"
      unfolding uninstall_locked_def uninstall_with_def by (auto intro!: spares_intros sp keep)
    from sparesD(2) [OF this _ assms(1)] assms(4) show False by (simp add: standing_def)
  qed
  obtain name dir cfile where app: "runtime app = Compose name dir cfile"
  proof (cases "runtime app")
    case External
    then have "spares False [] q (uninstall_locked env runner root app delete_data)"
      unfolding uninstall_locked_def uninstall_with_def by (auto intro!: spares_intros sp keep)
    from sparesD(2) [OF this _ assms(1)] assms(4) show ?thesis by (simp add: standing_def)
  qed
  from assms(1) obtain w1 where
    "io_bind (io_lift (confined_to_managed_root env dir (app_id app) root)) (\<lambda>_.
       uninstall_with (rt_env env) runner app True) w1 = (r, w')" "files w' q \<noteq> files w1 q"
    unfolding uninstall_locked_def by (rule io_bind_changes [OF _ keep assms(4)]) (simp add: app del)
  then obtain u w2 where conf: "io_lift (confined_to_managed_root env dir (app_id app) root) w1 = (Done u, w2)"
    and un: "uninstall_with (rt_env env) runner app True w2 = (r, w')" "files w' q \<noteq> files w2 q"
    by (elim io_bind_changes [OF _ spares_lift])
  from un(1) have "io_bind (compose_command (rt_env env) app [''down'', ''--volumes''] LIFECYCLE_TIMEOUT) (\<lambda>spec.
      io_bind (checked_run runner Detached spec ''Uninstall'') (\<lambda>_. io_map_err from_io (fs_remove_dir_all dir))) w2 = (r, w')"
    by (simp only: uninstall_with_def app runtime_spec.case if_True)
  then obtain spec v where c: "compose_command (rt_env env) app [''down'', ''--volumes''] LIFECYCLE_TIMEOUT w2 = (Done spec, v)"
    and "io_bind (checked_run runner Detached spec ''Uninstall'') (\<lambda>_. io_map_err from_io (fs_remove_dir_all dir)) v
       = (r, w')" "files w' q \<noteq> files v q"
    by (rule io_bind_changes [OF _ spares_compose_command un(2)])
  then obtain out v' where run: "checked_run runner Detached spec ''Uninstall'' v = (Done out, v')"
    and rm: "io_map_err from_io (fs_remove_dir_all dir) v' = (r, w')" "files w' q \<noteq> files v' q"
    by (elim io_bind_changes [OF _ spares_checked_run [OF sp(1)]])
  have below: "path_starts_with q dir"
  proof (rule ccontr)
    assume "\<not> path_starts_with q dir"
    then have "spares False [] q (io_map_err from_io (fs_remove_dir_all dir) :: (app_error, unit) prog)"
      by (auto intro!: spares_intros)
    from sparesD(2) [OF this _ rm(1)] rm(2) show False by (simp add: standing_def)
  qed
  have "confined_to_managed_root env dir (app_id app) root = Ok u"
    using conf by (auto simp: io_lift_def split: result.splits)
  from confined_to_managed_root_Ok [OF this] below del app c checked_run_Done [OF run] show ?thesis by blast
qed

definition notes_removed :: "(app_error, unit) run \<times> world" where
  "notes_removed = uninstall_locked plain_env (\<lambda>_ _. io_return quiet_output) [Normal ''apps'']
     (source_app notes_source [Normal ''apps'', Normal ''notes''] 5) True kept_world"

theorem uninstall_deletes_only_its_directory_witness:
  "files (snd notes_removed) [Normal ''apps'', Normal ''notes'', Normal ''data'', Normal ''a''] = None
   \<and> path_starts_with [Normal ''apps'', Normal ''notes'', Normal ''data'', Normal ''a''] [Normal ''apps'', Normal ''notes'']"
proof -
  let ?q = "[Normal ''apps'', Normal ''notes'', Normal ''data'', Normal ''a'']"
  let ?app = "source_app notes_source [Normal ''apps'', Normal ''notes''] 5"
  have gone: "files (snd notes_removed) ?q = None" by code_simp
  have run: "uninstall_locked plain_env (\<lambda>_ _. io_return quiet_output) [Normal ''apps''] ?app True kept_world
      = (fst notes_removed, snd notes_removed)"
    by (simp add: notes_removed_def)
  have "path_starts_with ?q (path_join [Normal ''apps''] (app_id ?app))"
  proof (rule uninstall_deletes_only_its_directory [OF run, THEN conjunct2, THEN conjunct1])
    show "files (snd notes_removed) ?q \<noteq> files kept_world ?q" using gone by (simp add: kept_world_def)
  qed (auto simp: plain_env_def)
  then show ?thesis using gone by (simp add: source_app_def notes_source_def path_join_def)
qed

section \<open>One operation at a time\<close>



section \<open>Secrets and ports of an earlier installation\<close>

lemma bt_get_insert_new: "bt_get m k = None \<Longrightarrow> bt_get (bt_insert k v m) = (bt_get m)(k \<mapsto> v)"
  by (induction k v m rule: bt_insert.induct) (auto simp: fun_eq_iff split: if_splits)

lemma fill_secrets_Done:
  "fill_secrets env specs kept w = (Done m, w') \<Longrightarrow>
   bt_get kept \<subseteq>\<^sub>m bt_get m \<and> dom (bt_get m) = dom (bt_get kept) \<union> secret_key ` set specs"
proof (induction env specs kept arbitrary: w rule: fill_secrets.induct)
  case (2 env s ss kept)
  show ?case
  proof (cases "bt_get kept (secret_key s)")
    case None
    with 2(3) obtain v w1 where f: "fill_secrets env ss (bt_insert (secret_key s) v kept) w1 = (Done m, w')"
      by (auto elim: io_bind_DoneE)
    have n: "\<not> bt_get kept (secret_key s) \<noteq> None" using None by simp
    have i: "bt_get (bt_insert (secret_key s) v kept) = (bt_get kept)(secret_key s \<mapsto> v)"
      using None by (rule bt_get_insert_new)
    have le: "bt_get kept \<subseteq>\<^sub>m (bt_get kept)(secret_key s \<mapsto> v)" using None by (simp add: map_le_def dom_def)
    note ih = 2(2) [OF n f, unfolded i]
    have d: "dom ((bt_get kept)(secret_key s \<mapsto> v)) = insert (secret_key s) (dom (bt_get kept))"
      by (auto simp: dom_def)
    have "dom (bt_get m) = insert (secret_key s) (dom (bt_get kept)) \<union> secret_key ` set ss"
      unfolding conjunct2 [OF ih] d ..
    then show ?thesis using map_le_trans [OF le conjunct1 [OF ih]] by auto
  next
    case (Some v)
    then have "fill_secrets env ss kept w = (Done m, w')" using 2(3) by simp
    with 2(1) Some have "bt_get kept \<subseteq>\<^sub>m bt_get m \<and> dom (bt_get m) = dom (bt_get kept) \<union> secret_key ` set ss" by blast
    then show ?thesis using Some by auto
  qed
qed (auto simp: map_le_def)

lemma read_to_string_run:
  assumes "fs_read_to_string p w = (r, w')"
  shows "r = Done s \<Longrightarrow> files w p = Some s" "r = Failed e \<Longrightarrow> kind e = KNotFound \<Longrightarrow> files w p = None"
  using assms unfolding fs_read_to_string_def
  by (auto elim!: io_bind_cases dest: fs_read_run(2,3) simp: io_err_def split: if_splits)

lemma retained_secrets_Done:
  assumes "retained_secrets env project w = (Done kept, w')" "files w (path_join project SECRETS_FILE) = Some b"
  shows "decode (secrets_json env) b = Some kept"
  using assms(1) unfolding retained_secrets_def
proof (cases rule: io_match_cases)
  case (Done s w1)
  then show ?thesis using read_to_string_run(1) [OF Done(1)] assms(2)
    by (cases "decode (secrets_json env) b") (auto simp: ok_or_def)
next
  case (Failed e w1)
  then show ?thesis using read_to_string_run(2) [OF Failed(1)] assms(2) by (auto split: if_splits)
qed simp

text \<open>
  Claim C27. A credential of an earlier installation is never replaced: with a credential file in the project
  directory the secrets of a reinstall are those the file holds, completed by the declared ones it lacks;
  a file that cannot be read or does not decode fails the installation.
\<close>

theorem reinstall_keeps_secrets:
  assumes "io_bind (retained_secrets env project) (fill_secrets env specs) w = (Done m, w')"
    and "files w (path_join project SECRETS_FILE) = Some b"
  shows "\<exists>kept. decode (secrets_json env) b = Some kept \<and> bt_get kept \<subseteq>\<^sub>m bt_get m
    \<and> dom (bt_get m) = dom (bt_get kept) \<union> secret_key ` set specs"
proof -
  from assms(1) obtain kept w1 where r: "retained_secrets env project w = (Done kept, w1)"
    and f: "fill_secrets env specs kept w1 = (Done m, w')"
    by (rule io_bind_DoneE)
  from retained_secrets_Done [OF r assms(2)] fill_secrets_Done [OF f] show ?thesis by blast
qed

theorem reinstall_keeps_secrets_witness:
  "\<exists>kept. decode \<lparr>encode = (\<lambda>_. None), decode = (\<lambda>b. if b = ''{}'' then Some [(''DB'', ''old'')] else None)\<rparr> ''{}'' = Some kept
     \<and> bt_get kept \<subseteq>\<^sub>m bt_get [(''DB'', ''old'')]"
proof -
  let ?c = "\<lparr>encode = (\<lambda>_. None), decode = (\<lambda>b. if b = ''{}'' then Some [(''DB'', ''old'')] else None)\<rparr>
    :: (string, string) btree codec"
  let ?env = "plain_env\<lparr>secrets_json := ?c\<rparr>"
  let ?w = "kept_world\<lparr>files := [path_join [] SECRETS_FILE \<mapsto> ''{}'']\<rparr>"
  let ?m = "io_bind (retained_secrets ?env []) (fill_secrets ?env [])"
  have "fst (?m ?w) = Done [(''DB'', ''old'')]" by code_simp
  then have run: "?m ?w = (Done [(''DB'', ''old'')], snd (?m ?w))" by (metis prod.collapse)
  have "files ?w (path_join [] SECRETS_FILE) = Some ''{}''" by simp
  from reinstall_keeps_secrets [OF run this] show ?thesis by auto
qed

lemma choose_port_Ok:
  assumes "choose_port env available previous wanted = Ok p"
  shows "previous = Some p \<or> available p \<and> 1024 \<le> p"
  using assms choose_free_port_sound [of available wanted PORT_SEARCH_ATTEMPTS p]
  by (auto simp: choose_port_def map_err_Ok_iff split: option.splits)

lemma settle_companions_Ok:
  "settle_companions env available previous wanted taken plan = Ok (taken', plan') \<Longrightarrow> distinct taken \<Longrightarrow>
   distinct taken' \<and> (\<exists>more. taken' = taken @ more \<and> length more = length wanted
     \<and> (\<forall>p \<in> set more. p \<in> set (bt_values previous) \<or> available p \<and> 1024 \<le> p))"
proof (induction env available previous wanted taken plan rule: settle_companions.induct)
  case (2 env available previous service h rest taken plan)
  from 2(2) obtain port where c: "choose_port env (except_taken available taken) (bt_get previous service) h = Ok port"
    and new: "port \<notin> set taken"
    and rest: "settle_companions env available previous rest (taken @ [port]) (set_companion_host service port plan) = Ok (taken', plan')"
    by (auto split: result.splits if_splits)
  have "port \<in> set (bt_values previous) \<or> available port \<and> 1024 \<le> port"
    using choose_port_Ok [OF c] by (force simp: except_taken_def dest: map_of_SomeD)
  moreover have "distinct (taken @ [port])" using new 2(3) by simp
  from 2(1) [OF c new rest this] obtain more where "distinct taken'" "taken' = (taken @ [port]) @ more"
    "length more = length rest" "\<forall>p \<in> set more. p \<in> set (bt_values previous) \<or> available p \<and> 1024 \<le> p" by blast
  ultimately show ?case by (intro conjI exI [of _ "port # more"]) auto
qed simp

text \<open>
  Claim C28. The addresses of an installation: the first port taken is the one that is published, every second
  address gets one more, all differ, and each was recorded by an earlier installation or is free and
  unprivileged.
\<close>

theorem settled_ports_differ:
  assumes "settle_ports env available kept plan a = Ok (port, taken, plan')"
  shows "distinct taken \<and> taken \<noteq> [] \<and> hd taken = port
    \<and> length taken = Suc (length (companions (set_published_host port plan)))
    \<and> (\<forall>p \<in> set taken. Option.bind kept published_host_port = Some p
          \<or> p \<in> set (bt_values (case kept of Some c \<Rightarrow> companion_host_ports c | None \<Rightarrow> []))
          \<or> available p \<and> 1024 \<le> p)"
proof -
  let ?prev = "case kept of Some c \<Rightarrow> companion_host_ports c | None \<Rightarrow> []"
  from assms obtain settled where
    c: "choose_port env available (Option.bind kept published_host_port) (host a) = Ok port"
    and s: "settle_companions env available ?prev
       (map (\<lambda>(s, p). (service_name s, host p)) (companions (set_published_host port plan)))
       [port] (set_published_host port plan) = Ok (taken, settled)"
    by (auto simp: settle_ports_def and_then_Ok_iff)
  from settle_companions_Ok [OF s] obtain more where more: "distinct taken" "taken = [port] @ more"
    "length more = length (companions (set_published_host port plan))"
    "\<forall>p \<in> set more. p \<in> set (bt_values ?prev) \<or> available p \<and> 1024 \<le> p" by auto
  show ?thesis using more choose_port_Ok [OF c] by auto
qed

theorem settled_ports_differ_witness:
  "\<exists>taken plan'. settle_ports plain_env (\<lambda>p. p = 8080) None
     \<lparr>plan_id = ''a'', services = [], named_volumes = [], internal_networks = []\<rparr>
     \<lparr>host = 8080, container = 80\<rparr> = Ok (8080, taken, plan') \<and> distinct taken"
proof -
  have "settle_ports plain_env (\<lambda>p. p = 8080) None
     \<lparr>plan_id = ''a'', services = [], named_volumes = [], internal_networks = []\<rparr>
     \<lparr>host = 8080, container = 80\<rparr> = Ok (8080, [8080], \<lparr>plan_id = ''a'', services = [], named_volumes = [], internal_networks = []\<rparr>)"
    by code_simp
  with settled_ports_differ [OF this] show ?thesis by blast
qed

section \<open>Commit\<close>

definition slug_dir :: "path \<Rightarrow> path" where
  "slug_dir config = path_join config CONFIG_SLUG"

lemma spares_slug_write:
  "\<not> path_starts_with q (slug_dir config) \<Longrightarrow> spares c d q (atomic_write (path_join (slug_dir config) n) b)"
  using spares_write_own [of q "slug_dir config" n c d b] below_join(1) [of "slug_dir config" n]
  unfolding write_file_atomically_eq by metis

lemma spares_save_registry:
  assumes "\<not> path_starts_with q (slug_dir config)"
  shows "spares c d q (save_registry_v2_at json config r)"
  unfolding save_registry_v2_at_def atomic_replace_with_previous_def previous_path
  unfolding registry_v2_path_for_root_def registry_v2_previous_path_for_root_def slug_dir_def [symmetric]
  by (auto intro!: spares_intros spares_slug_write assms split: option.split)

lemma spares_read_first: "spares c d q (read_first ps)"
  by (induction ps rule: read_first.induct) (auto intro!: spares_intros)

lemma spares_metadata_len: "spares c d q (fs_metadata_len p)"
  by (auto intro!: sparesI dest!: fs_metadata_len_run(1))

lemma spares_open_lock: "q \<noteq> p \<Longrightarrow> spares c d q (fs_open_lock p)"
  by (auto intro!: sparesI simp: fs_open_lock_def fs_op_def split: fault.splits)

lemma spares_load_registry: "spares c d q (load_registry_v2_at json config)"
  unfolding load_registry_v2_at_def by (intro spares_intros)

lemma spares_lock_registry:
  "\<not> path_starts_with q (slug_dir config) \<Longrightarrow> spares c d q (lock_registry_at config)"
  unfolding lock_registry_at_def registry_lock_path_for_root_def slug_dir_def [symmetric]
  by (intro spares_intros spares_open_lock) (auto simp: below_join)

lemma spares_migrate:
  "\<not> path_starts_with q (slug_dir config) \<Longrightarrow> spares c d q (migrate_v1_registry_at json json1 config now)"
  unfolding migrate_v1_registry_at_def metadata_ok_def Let_def migration_v1_backup_path_for_root_def
  unfolding slug_dir_def [symmetric]
  by (intro spares_intros spares_metadata_len spares_read_first spares_slug_write spares_save_registry) auto

lemma spares_insert_app:
  "\<not> path_starts_with q (slug_dir config) \<Longrightarrow> spares c d q (insert_installed_app json json1 config app)"
  unfolding insert_installed_app_def load_or_migrate_registry_at_def
  by (intro spares_intros spares_lock_registry spares_migrate spares_load_registry spares_save_registry) auto


definition b_pending :: pending_install where
  "b_pending = \<lparr>pending_app = sample_app ''b'', preserved_data = True,
     pending_lock = \<lparr>lock_app = ''b'', lock_id = 1, lock_file = []\<rparr>\<rparr>"

definition b_committed :: "(app_error, installed_app) run \<times> world" where
  "b_committed = commit plain_env (\<lambda>_ _. io_return quiet_output) sample_json sample_json1 [] b_pending (sample_world [])"


end
