(* ===== verification/Snapshot.thy ===== *)
theory Snapshot
  imports Install
begin

text \<open>
  Snapshots of an app's data, \<^verbatim>\<open>src/backup.rs\<close> and the archive check of \<^verbatim>\<open>src/backup/volumes.rs\<close>: what
  of a plan is stored, the framing of a snapshot, its validation, and putting the files of one back into
  a fresh project. SHA-256, JSON, the lower case of other scripts and what is a link on disk are parameters; encrypting
  a snapshot and moving volumes through WSL are not modelled.
\<close>

section \<open>Limits and names\<close>

definition SNAP_DATA_BYTES :: int where "SNAP_DATA_BYTES = 268435456"
definition SNAP_ENCODED_BYTES :: int where "SNAP_ENCODED_BYTES = 276824064"
definition SNAP_METADATA_BYTES :: int where "SNAP_METADATA_BYTES = 1048576"
definition SNAP_FILES :: int where "SNAP_FILES = 4096"
definition USIZE_LIMIT :: int where "USIZE_LIMIT = 18446744073709551616"

record snapshot_env =
  sha_hex :: "bytes \<Rightarrow> string"
  lower_text :: "string \<Rightarrow> string"
  special :: "path \<Rightarrow> bool"
  listing :: "path \<Rightarrow> world \<Rightarrow> string list"
  plan_text :: "plan_error \<Rightarrow> string"

definition is_device_name :: "string \<Rightarrow> bool" where
  "is_device_name part =
     (let stem = uppercase (hd (split_char (CHR ''.'') part));
          tail = (case strip_prefix ''COM'' stem of Some t \<Rightarrow> Some t | None \<Rightarrow> strip_prefix ''LPT'' stem)
      in stem \<in> {''CON'', ''PRN'', ''AUX'', ''NUL''}
         \<or> (case tail of Some [c] \<Rightarrow> CHR ''1'' \<le> c \<and> c \<le> CHR ''9'' | _ \<Rightarrow> False))"

definition safe_relative :: "string \<Rightarrow> bool" where
  "safe_relative p =
     (p \<noteq> [] \<and> int (length p) \<le> 1024 \<and> backslash \<notin> set p \<and> CHR '':'' \<notin> set p \<and> \<not> has_control p
      \<and> list_all (\<lambda>part. part \<noteq> [] \<and> \<not> ends_with '' '' part \<and> \<not> ends_with ''.'' part) (split_char (CHR ''/'') p)
      \<and> list_all (\<lambda>part. \<not> is_device_name part) (split_char (CHR ''/'') p)
      \<and> list_all (\<lambda>c. case c of Normal _ \<Rightarrow> True | _ \<Rightarrow> False) (parse_path p))"

section \<open>What is stored of an app\<close>

record storage_contract =
  offering_id :: string
  reviewed_plan_sha256 :: string
  bind_directories :: "string list"
  contract_volumes :: "string list"
  has_shared_host_folders :: bool

fun contract_mounts :: "plan_mount list \<Rightarrow> string list \<Rightarrow> bool \<Rightarrow> (app_error, string list \<times> bool) result" where
  "contract_mounts [] ds shared = Ok (ds, shared)"
| "contract_mounts (m # ms) ds shared =
     (case m of
        Directory source _ _ \<Rightarrow>
          if \<not> safe_relative source then Err (app_error_invalid ''Invalid snapshot bind path.'')
          else contract_mounts ms (insort_insert source ds) shared
      | Host _ _ _ \<Rightarrow> contract_mounts ms ds True
      | Volume _ _ _ \<Rightarrow> contract_mounts ms ds shared)"

fun overlapping :: "string list \<Rightarrow> bool" where
  "overlapping [] = False"
| "overlapping (d # ds) =
     (list_ex (\<lambda>other. path_starts_with (parse_path other) (parse_path d)) ds \<or> overlapping ds)"

definition contract_from_plan :: "snapshot_env \<Rightarrow> deployment_plan \<Rightarrow> (app_error, storage_contract) result" where
  "contract_from_plan env plan =
     and_then (map_err (\<lambda>e. app_error_invalid (plan_text env e)) (validate plan)) (\<lambda>_.
     and_then (contract_mounts (concat (map mounts (services plan))) [] False) (\<lambda>(ds, shared).
       if overlapping ds then Err (app_error_invalid ''Overlapping snapshot bind directories are unsupported.'')
       else and_then (map_err (\<lambda>e. app_error_invalid (plan_text env e)) (to_compose plan)) (\<lambda>compose.
         Ok \<lparr>offering_id = plan_id plan, reviewed_plan_sha256 = sha_hex env compose, bind_directories = ds,
             contract_volumes = named_volumes plan, has_shared_host_folders = shared\<rparr>)))"

definition contract_supported :: "storage_contract \<Rightarrow> app_error check" where
  "contract_supported c =
     (if has_shared_host_folders c
      then Err (app_error_new UnsupportedOperation
        ''Shared host folders are outside this snapshot. No complete backup can be promised for this app yet.'')
      else ensure (bind_directories c \<noteq> [] \<or> contract_volumes c \<noteq> [])
             (app_error_invalid ''No reviewed app data to snapshot.''))"

section \<open>A snapshot and its framing\<close>

record snapshot_entry =
  entry_path :: string
  entry_directory :: bool
  entry_sha :: string
  entry_bytes :: bytes
  entry_length :: nat

record snapshot_volume =
  volume_name :: string
  volume_sha :: string
  volume_bytes :: bytes
  volume_length :: nat

record snapshot =
  snap_version :: u32
  snap_contract :: storage_contract
  snap_engine :: engine_binding
  daemon_id_sha256 :: string
  snap_files :: "snapshot_entry list"
  snap_volumes :: "snapshot_volume list"

text \<open>\<^verbatim>\<open>#[serde(skip)]\<close>: the contents are not part of the metadata.\<close>

definition skip_bytes :: "snapshot \<Rightarrow> snapshot" where
  "skip_bytes s = s\<lparr>snap_files := map (\<lambda>e. e\<lparr>entry_bytes := []\<rparr>) (snap_files s),
                    snap_volumes := map (\<lambda>v. v\<lparr>volume_bytes := []\<rparr>) (snap_volumes s)\<rparr>"

definition le_bytes4 :: "nat \<Rightarrow> bytes" where
  "le_bytes4 n = map (\<lambda>k. char_of (n div 256 ^ k mod 256)) [0..<4]"

definition of_le_bytes4 :: "bytes \<Rightarrow> nat" where
  "of_le_bytes4 b = foldr (\<lambda>c n. code c + 256 * n) b 0"

text \<open>\<^verbatim>\<open>as u32\<close> of a length that has been bounded.\<close>

definition snapshot_encode :: "snapshot codec \<Rightarrow> snapshot \<Rightarrow> (app_error, bytes) result" where
  "snapshot_encode json s =
     and_then (ok_or (encode json (skip_bytes s)) (app_error_internal [])) (\<lambda>metadata.
       if int (length metadata) > SNAP_METADATA_BYTES
       then Err (app_error_invalid ''Snapshot metadata exceeds its limit.'')
       else
         (let output = le_bytes4 (length metadata) @ metadata @ concat (map entry_bytes (snap_files s))
                         @ concat (map volume_bytes (snap_volumes s))
          in if int (length output) > SNAP_ENCODED_BYTES
             then Err (app_error_invalid ''Snapshot encoding exceeds its limit.'')
             else Ok output))"

fun frame_files :: "bytes \<Rightarrow> snapshot_entry list \<Rightarrow> (app_error, snapshot_entry list \<times> bytes) result" where
  "frame_files rest [] = Ok ([], rest)"
| "frame_files rest (e # es) =
     (if entry_length e > length rest then Err (app_error_invalid ''Snapshot file framing is incomplete.'')
      else and_then (frame_files (drop (entry_length e) rest) es) (\<lambda>(fs, left).
             Ok (e\<lparr>entry_bytes := take (entry_length e) rest\<rparr> # fs, left)))"

fun frame_volumes :: "bytes \<Rightarrow> snapshot_volume list \<Rightarrow> (app_error, snapshot_volume list \<times> bytes) result" where
  "frame_volumes rest [] = Ok ([], rest)"
| "frame_volumes rest (v # vs) =
     (if volume_length v > length rest then Err (app_error_invalid ''Snapshot volume framing is incomplete.'')
      else and_then (frame_volumes (drop (volume_length v) rest) vs) (\<lambda>(fs, left).
             Ok (v\<lparr>volume_bytes := take (volume_length v) rest\<rparr> # fs, left)))"

definition decode_plain :: "snapshot codec \<Rightarrow> bytes \<Rightarrow> (app_error, snapshot) result" where
  "decode_plain json b =
     (if length b < 4 then Err (app_error_invalid ''Snapshot framing is incomplete.'')
      else
        (let n = of_le_bytes4 (take 4 b)
         in if int n > SNAP_METADATA_BYTES \<or> n > length b - 4
            then Err (app_error_invalid ''Snapshot metadata framing is invalid.'')
            else
              and_then (ok_or (map_option skip_bytes (decode json (take n (drop 4 b))))
                          (app_error_invalid ''Snapshot metadata is malformed.'')) (\<lambda>s.
                if int (length (snap_files s)) > SNAP_FILES \<or> length (snap_volumes s) > 16
                then Err (app_error_invalid ''Snapshot entry count exceeds its bound.'')
                else
                  and_then (frame_files (drop (4 + n) b) (snap_files s)) (\<lambda>(fs, rest).
                  and_then (frame_volumes rest (snap_volumes s)) (\<lambda>(vs, left).
                    if left \<noteq> [] then Err (app_error_invalid ''Snapshot contains unexpected trailing bytes.'')
                    else Ok (s\<lparr>snap_files := fs, snap_volumes := vs\<rparr>))))))"

section \<open>Archives of volumes\<close>

definition tar_error :: "string \<Rightarrow> app_error" where
  "tar_error m = app_error_invalid (''Snapshot tar '' @ m)"

definition tar_field :: "bytes \<Rightarrow> (app_error, string) result" where
  "tar_field b =
     (let s = takeWhile (\<lambda>c. code c \<noteq> 0) b
      in if utf8_run [] (map of_char s) then Ok s else Err (tar_error ''metadata must be UTF-8.''))"

definition octal_digit :: "char \<Rightarrow> bool" where
  "octal_digit c = (48 \<le> code c \<and> code c \<le> 55)"

definition parse_octal :: "string \<Rightarrow> int option" where
  "parse_octal s =
     (let ds = (if s \<noteq> [] \<and> hd s = CHR ''+'' then tl s else s);
          n = foldl (\<lambda>n c. 8 * n + (int (code c) - 48)) 0 ds
      in if ds = [] \<or> \<not> list_all octal_digit ds \<or> n \<ge> USIZE_LIMIT then None else Some n)"

definition tar_octal :: "bytes \<Rightarrow> (app_error, int) result" where
  "tar_octal b =
     and_then (tar_field b) (\<lambda>s.
       if trim s = [] then Ok 0 else ok_or (parse_octal (trim s)) (tar_error ''numeric field is invalid.''))"

definition cut :: "nat \<Rightarrow> nat \<Rightarrow> bytes \<Rightarrow> bytes" where
  "cut a b s = take (b - a) (drop a s)"

definition tar_checksum :: "bytes \<Rightarrow> int" where
  "tar_checksum header =
     sum_list (map (\<lambda>(i, c). if 148 \<le> i \<and> i < 156 then 32 else int (code c)) (zip [0..<512] header))"

definition tar_relative :: "string \<Rightarrow> string \<Rightarrow> string" where
  "tar_relative prefix name =
     (let full = (if prefix = [] then name else prefix @ ''/'' @ name)
      in trim_end_matches (CHR ''/'') (case strip_prefix ''./'' full of Some r \<Rightarrow> r | None \<Rightarrow> full))"

text \<open>A header that passes: the path of its member, none for the root, and the length of its contents.\<close>

definition tar_header :: "string list \<Rightarrow> bytes \<Rightarrow> (app_error, string option \<times> int) result" where
  "tar_header seen header =
     (if cut 257 263 header \<noteq> ''ustar'' @ [CHR 0x00]
      then Err (app_error_invalid ''Snapshot archive is not bounded POSIX ustar.'')
      else
        and_then (tar_octal (cut 148 156 header)) (\<lambda>checksum.
        if checksum \<noteq> tar_checksum header then Err (tar_error ''checksum is invalid.'')
        else
          and_then (tar_field (cut 0 100 header)) (\<lambda>name.
          and_then (tar_field (cut 345 500 header)) (\<lambda>prefix.
          and_then (tar_octal (cut 124 136 header)) (\<lambda>len.
          (let relative = tar_relative prefix name;
               root = (relative = ''.'' \<or> relative = []);
               kind = header ! 156;
               refused = tar_error ''contains an unsafe path, type or permission.''
           in if (\<not> root \<and> (\<not> safe_relative relative \<or> relative \<in> set seen))
                 \<or> (root \<and> kind \<noteq> CHR ''5'') \<or> kind \<notin> {CHR 0x00, CHR ''0'', CHR ''5''}
                 \<or> (kind = CHR ''5'' \<and> len \<noteq> 0)
              then Err refused
              else and_then (tar_octal (cut 100 108 header)) (\<lambda>mode.
                     if mode div 512 mod 8 \<noteq> 0 then Err refused
                     else Ok (if root then None else Some relative, len))))))))"

text \<open>A length has at most twelve octal digits, so the checked additions of the code cannot overflow.\<close>

function tar_loop :: "int \<Rightarrow> string list \<Rightarrow> bytes \<Rightarrow> app_error check" where
  "tar_loop count seen b =
     (if length b < 512 then Err (tar_error ''has no complete terminator.'')
      else if list_all (\<lambda>c. code c = 0) (take 512 b)
      then ensure (1024 \<le> length b \<and> list_all (\<lambda>c. code c = 0) b) (tar_error ''terminator is invalid.'')
      else if count + 1 > SNAP_FILES
      then Err (app_error_invalid ''Snapshot archive is not bounded POSIX ustar.'')
      else
        (case tar_header seen (take 512 b) of
           Err e \<Rightarrow> Err e
         | Ok (member, len) \<Rightarrow>
             (let padded = (len + 511) div 512 * 512
              in if int (length b) < 512 + padded then Err (tar_error ''data is truncated.'')
                 else tar_loop (count + 1) (case member of Some m \<Rightarrow> m # seen | None \<Rightarrow> seen)
                        (drop (512 + nat padded) b))))"
  by pat_completeness auto
termination
  by (relation "measure (\<lambda>(count, seen, b). length b)") auto

declare tar_loop.simps [simp del]

definition validate_tar :: "bytes \<Rightarrow> app_error check" where
  "validate_tar b =
     (if length b < 1024 \<or> length b mod 512 \<noteq> 0 \<or> int (length b) > SNAP_DATA_BYTES
      then Err (tar_error ''framing is invalid.'')
      else tar_loop 0 [] b)"

section \<open>What a snapshot must be\<close>

definition entry_admitted :: "storage_contract \<Rightarrow> string \<Rightarrow> bool" where
  "entry_admitted c p =
     (p = SECRETS_FILE \<or> list_ex (\<lambda>root. path_starts_with (parse_path p) (parse_path root)) (bind_directories c))"

definition snapshot_overflow :: app_error where
  "snapshot_overflow = app_error_invalid ''Snapshot size overflow.''"

fun check_entries ::
  "snapshot_env \<Rightarrow> storage_contract \<Rightarrow> string list \<Rightarrow> int \<Rightarrow> snapshot_entry list \<Rightarrow> (app_error, int) result" where
  "check_entries env c paths used [] = Ok used"
| "check_entries env c paths used (e # es) =
     (let t = used + int (length (entry_bytes e))
      in if t \<ge> USIZE_LIMIT then Err snapshot_overflow
         else if \<not> safe_relative (entry_path e) \<or> \<not> entry_admitted c (entry_path e)
             \<or> lower_text env (entry_path e) \<in> set paths \<or> entry_sha e \<noteq> sha_hex env (entry_bytes e)
             \<or> (entry_directory e \<and> entry_bytes e \<noteq> []) \<or> t > SNAP_DATA_BYTES
         then Err (app_error_invalid ''Snapshot has an unsafe, duplicate or corrupt entry.'')
         else check_entries env c (lower_text env (entry_path e) # paths) t es)"

fun check_volumes ::
  "snapshot_env \<Rightarrow> storage_contract \<Rightarrow> string list \<Rightarrow> int \<Rightarrow> snapshot_volume list \<Rightarrow> (app_error, string list) result" where
  "check_volumes env c seen used [] = Ok seen"
| "check_volumes env c seen used (v # vs) =
     (let t = used + int (length (volume_bytes v))
      in if t \<ge> USIZE_LIMIT then Err snapshot_overflow
         else if volume_name v \<notin> set (contract_volumes c) \<or> volume_name v \<in> set seen
             \<or> volume_sha v \<noteq> sha_hex env (volume_bytes v) \<or> t > SNAP_DATA_BYTES
         then Err (app_error_invalid ''Snapshot volume is missing, duplicated or corrupt.'')
         else and_then (validate_tar (volume_bytes v)) (\<lambda>_. check_volumes env c (volume_name v # seen) t vs))"

definition file_in_the_way :: "snapshot_entry list \<Rightarrow> snapshot_entry \<Rightarrow> bool" where
  "file_in_the_way all e =
     list_ex (\<lambda>other. \<not> entry_directory other \<and> entry_path other \<noteq> entry_path e
       \<and> path_starts_with (parse_path (entry_path e)) (parse_path (entry_path other))) all"

definition validate_entries :: "snapshot_env \<Rightarrow> snapshot \<Rightarrow> app_error check" where
  "validate_entries env s =
     (let c = snap_contract s
      in and_then (contract_supported c) (\<lambda>_.
         if snap_version s \<noteq> 1 \<or> int (length (snap_files s)) > SNAP_FILES \<or> \<not> is_wsl (snap_engine s)
         then Err (app_error_invalid ''Unsupported snapshot format.'')
         else
           and_then (check_entries env c [] 0 (snap_files s)) (\<lambda>used.
             if \<not> list_all (\<lambda>d. list_ex (\<lambda>e. entry_path e = d \<and> entry_directory e) (snap_files s)) (bind_directories c)
             then Err (app_error_invalid ''Snapshot omitted a required bind directory.'')
             else
               and_then (check_volumes env c [] used (snap_volumes s)) (\<lambda>seen.
                 if length seen \<noteq> length (contract_volumes c)
                 then Err (app_error_invalid ''Snapshot omitted a required named volume.'')
                 else ensure (\<not> list_ex (file_in_the_way (snap_files s)) (snap_files s))
                        (app_error_invalid ''Snapshot has a file where a parent directory is required.'')))))"

definition MAGIC :: string where "MAGIC = ''LOCALSTORE-DPAPI-SNAPSHOT-1'' @ [newline]"

text \<open>\<open>unprotect\<close> is the decryption for the current account.\<close>

definition snapshot_decode ::
  "snapshot_env \<Rightarrow> snapshot codec \<Rightarrow> (bytes \<Rightarrow> (app_error, bytes) result) \<Rightarrow> bytes \<Rightarrow> (app_error, snapshot) result" where
  "snapshot_decode env json unprotect b =
     (if int (length b) > SNAP_ENCODED_BYTES \<or> \<not> starts_with MAGIC b
      then Err (app_error_invalid ''Invalid or oversized protected snapshot.'')
      else
        and_then (unprotect (drop (length MAGIC) b)) (\<lambda>plain.
          if int (length plain) > SNAP_ENCODED_BYTES
          then Err (app_error_invalid ''Decrypted snapshot exceeds its limit.'')
          else and_then (decode_plain json plain) (\<lambda>s. and_then (validate_entries env s) (\<lambda>_. Ok s))))"

section \<open>Putting files back\<close>

text \<open>\<^verbatim>\<open>fs::symlink_metadata\<close>: whether the path is a directory.\<close>

definition fs_symlink_metadata :: "path \<Rightarrow> (io_error, bool) prog" where
  "fs_symlink_metadata p = fs_op (\<lambda>w.
     if files w p \<noteq> None \<or> p \<in> dirs w then (Done (p \<in> dirs w), w) else (Failed (io_err KNotFound), w))"

definition reject_link :: "snapshot_env \<Rightarrow> path \<Rightarrow> (app_error, bool) prog" where
  "reject_link env p =
     io_bind (io_map_err from_io (fs_symlink_metadata p)) (\<lambda>is_directory.
       if special env p
       then io_fail (app_error_new UnsafePath ''Snapshot paths must be ordinary files or directories.'')
       else io_return is_directory)"

fun confine_steps :: "snapshot_env \<Rightarrow> path \<Rightarrow> path \<Rightarrow> (app_error, path) prog" where
  "confine_steps env p [] = io_return p"
| "confine_steps env p (c # cs) =
     io_match (fs_symlink_metadata (p @ [c]))
       (\<lambda>_. io_bind (reject_link env (p @ [c])) (\<lambda>_. confine_steps env (p @ [c]) cs))
       (\<lambda>e. if kind e = KNotFound then confine_steps env (p @ [c]) cs else io_fail (from_io e))"

definition confined_path :: "snapshot_env \<Rightarrow> path \<Rightarrow> string \<Rightarrow> (app_error, path) prog" where
  "confined_path env root relative =
     (if \<not> safe_relative relative then io_fail (app_error_new UnsafePath ''Snapshot path is not confined.'')
      else confine_steps env root (parse_path relative))"

fun check_targets :: "snapshot_env \<Rightarrow> path \<Rightarrow> string list \<Rightarrow> (app_error, unit) prog" where
  "check_targets env project [] = io_return ()"
| "check_targets env project (d # ds) =
     io_bind (confined_path env project d) (\<lambda>target.
     io_bind (fs_exists target) (\<lambda>there.
     io_bind
       (if \<not> there then io_return False
        else io_bind (reject_link env target) (\<lambda>is_directory.
               if \<not> is_directory then io_return True
               else io_bind (io_map_err from_io (fs_read_dir (listing env) target)) (\<lambda>names.
                      io_return (names \<noteq> [])))) (\<lambda>occupied.
       if occupied then io_fail (app_error_invalid ''Restore target contains data; nothing was overwritten.'')
       else check_targets env project ds)))"

fun check_paths :: "snapshot_env \<Rightarrow> path \<Rightarrow> snapshot_entry list \<Rightarrow> (app_error, unit) prog" where
  "check_paths env project [] = io_return ()"
| "check_paths env project (e # es) =
     io_bind (confined_path env project (entry_path e)) (\<lambda>_. check_paths env project es)"

definition write_entry :: "snapshot_env \<Rightarrow> path \<Rightarrow> snapshot_entry \<Rightarrow> (app_error, unit) prog" where
  "write_entry env project e =
     io_bind (confined_path env project (entry_path e)) (\<lambda>target.
       if entry_directory e then io_map_err from_io (fs_create_dir_all target)
       else
         io_bind (case path_parent target of
                    Some parent \<Rightarrow> io_map_err from_io (fs_create_dir_all parent)
                  | None \<Rightarrow> io_return ()) (\<lambda>_.
         io_bind (io_map_err from_io (fs_create_new target)) (\<lambda>_.
         io_bind (io_map_err from_io (fs_write_all target (entry_bytes e))) (\<lambda>_.
           io_map_err from_io (fs_sync_all target)))))"

fun write_entries :: "snapshot_env \<Rightarrow> path \<Rightarrow> snapshot_entry list \<Rightarrow> (app_error, unit) prog" where
  "write_entries env project [] = io_return ()"
| "write_entries env project (e # es) =
     io_bind (write_entry env project e) (\<lambda>_. write_entries env project es)"

text \<open>By the number of separators, directories first.\<close>

definition restore_rank :: "snapshot_entry \<Rightarrow> nat" where
  "restore_rank e = 2 * length (filter (\<lambda>c. c = CHR ''/'') (entry_path e)) + (if entry_directory e then 0 else 1)"

definition restore_files :: "snapshot_env \<Rightarrow> path \<Rightarrow> snapshot \<Rightarrow> (app_error, unit) prog" where
  "restore_files env project s =
     io_bind (io_lift (validate_entries env s)) (\<lambda>_.
     io_bind (check_targets env project (bind_directories (snap_contract s))) (\<lambda>_.
     io_bind (fs_exists (path_join project SECRETS_FILE)) (\<lambda>there.
       if there
       then io_fail (app_error_invalid ''Restore target already contains credentials; nothing was overwritten.'')
       else
         io_bind (check_paths env project (snap_files s)) (\<lambda>_.
           write_entries env project (sort_key restore_rank (snap_files s))))))"

end
