(* ===== verification/Snapshot_Props.thy ===== *)
theory Snapshot_Props
  imports Snapshot Frames
begin

text \<open>
  Snapshots: the framing reads back what it wrote, a decoded snapshot is confined to the reviewed data,
  an archive holds ordinary members only, and restoring replaces nothing.
\<close>

section \<open>Framing\<close>

lemma le_bytes4_inverse:
  assumes "n < 2 ^ 32"
  shows "of_le_bytes4 (le_bytes4 n) = n"
proof -
  have four: "[0..<4] = [0, 1, 2, 3 :: nat]" by (simp add: upt_rec)
  have top: "n div 16777216 mod 256 = n div 16777216" using assms by (simp add: less_mult_imp_div_less)
  have parts: "n mod 256 + 256 * (n div 256) = n" "n div 256 mod 256 + 256 * (n div 65536) = n div 256"
    "n div 65536 mod 256 + 256 * (n div 16777216) = n div 65536"
    using mod_mult_div_eq [of n 256] mod_mult_div_eq [of "n div 256" 256] mod_mult_div_eq [of "n div 65536" 256]
    by (simp_all add: div_mult2_eq [symmetric])
  have "of_le_bytes4 (le_bytes4 n)
      = n mod 256 + 256 * (n div 256 mod 256 + 256 * (n div 65536 mod 256 + 256 * (n div 16777216 mod 256)))"
    by (simp add: of_le_bytes4_def le_bytes4_def four)
  then show ?thesis unfolding top parts .
qed

lemma length_le_bytes4 [simp]: "length (le_bytes4 n) = 4"
  by (simp add: le_bytes4_def)

lemma frame_files_concat:
  "list_all (\<lambda>e. entry_length e = length (entry_bytes e)) es \<Longrightarrow>
   frame_files (concat (map entry_bytes es) @ rest) (map (\<lambda>e. e\<lparr>entry_bytes := []\<rparr>) es) = Ok (es, rest)"
  by (induction es) auto

lemma frame_volumes_concat:
  "list_all (\<lambda>v. volume_length v = length (volume_bytes v)) vs \<Longrightarrow>
   frame_volumes (concat (map volume_bytes vs) @ rest) (map (\<lambda>v. v\<lparr>volume_bytes := []\<rparr>) vs) = Ok (vs, rest)"
  by (induction vs) auto

lemma skip_bytes_fields [simp]:
  "snap_files (skip_bytes s) = map (\<lambda>e. e\<lparr>entry_bytes := []\<rparr>) (snap_files s)"
  "snap_volumes (skip_bytes s) = map (\<lambda>v. v\<lparr>volume_bytes := []\<rparr>) (snap_volumes s)"
  "skip_bytes (skip_bytes s) = skip_bytes s"
  "(skip_bytes s)\<lparr>snap_files := snap_files s, snap_volumes := snap_volumes s\<rparr> = s"
  by (simp_all add: skip_bytes_def comp_def)

definition true_lengths :: "snapshot \<Rightarrow> bool" where
  "true_lengths s =
     (list_all (\<lambda>e. entry_length e = length (entry_bytes e)) (snap_files s)
      \<and> list_all (\<lambda>v. volume_length v = length (volume_bytes v)) (snap_volumes s))"

lemma decode_encoded:
  assumes "codec_ok json" and "snapshot_encode json s = Ok b" and "true_lengths s"
    and "int (length (snap_files s)) \<le> SNAP_FILES" and "length (snap_volumes s) \<le> 16"
  shows "decode_plain json b = Ok s"
proof -
  from assms(2) obtain m where m: "encode json (skip_bytes s) = Some m" "int (length m) \<le> SNAP_METADATA_BYTES"
    and b: "b = le_bytes4 (length m) @ m @ concat (map entry_bytes (snap_files s)) @ concat (map volume_bytes (snap_volumes s))"
    by (auto simp: snapshot_encode_def and_then_Ok_iff ok_or_def Let_def split: option.splits if_splits)
  have "length m < 2 ^ 32" using m(2) by (simp add: SNAP_METADATA_BYTES_def)
  then have n: "of_le_bytes4 (take 4 b) = length m" by (simp add: b le_bytes4_inverse)
  have d: "decode json m = Some (skip_bytes s)" using assms(1) m(1) by (auto simp: codec_ok_def)
  have cut: "take (length m) (drop 4 b) = m" "drop (4 + length m) b
      = concat (map entry_bytes (snap_files s)) @ concat (map volume_bytes (snap_volumes s)) @ []"
    by (simp_all add: b)
  have f: "frame_files (drop (4 + length m) b) (snap_files (skip_bytes s))
      = Ok (snap_files s, concat (map volume_bytes (snap_volumes s)) @ [])"
    using frame_files_concat [of "snap_files s"] assms(3) unfolding cut(2) by (simp add: true_lengths_def)
  have v: "frame_volumes (concat (map volume_bytes (snap_volumes s)) @ []) (snap_volumes (skip_bytes s)) = Ok (snap_volumes s, [])"
    using frame_volumes_concat [of "snap_volumes s" "[]"] assms(3) by (simp add: true_lengths_def)
  have "\<not> length b < 4" "\<not> length m > length b - 4" by (simp_all add: b)
  then show ?thesis
    using m(2) assms(4,5) f v by (simp add: decode_plain_def n cut(1) d ok_or_def Let_def)
qed

section \<open>Validation\<close>

lemma check_entries_Ok:
  "check_entries env c paths used es = Ok t \<Longrightarrow>
   t = used + (\<Sum>e\<leftarrow>es. int (length (entry_bytes e))) \<and> (es = [] \<or> t \<le> SNAP_DATA_BYTES)
   \<and> distinct (map (\<lambda>e. lower_text env (entry_path e)) es)
   \<and> set (map (\<lambda>e. lower_text env (entry_path e)) es) \<inter> set paths = {}
   \<and> list_all (\<lambda>e. safe_relative (entry_path e) \<and> entry_admitted c (entry_path e)
        \<and> entry_sha e = sha_hex env (entry_bytes e) \<and> (entry_directory e \<longrightarrow> entry_bytes e = [])) es"
proof (induction env c paths used es rule: check_entries.induct)
  case (2 env c paths used e es)
  from 2(2) have step: "check_entries env c (lower_text env (entry_path e) # paths) (used + int (length (entry_bytes e))) es = Ok t"
    and here: "safe_relative (entry_path e)" "entry_admitted c (entry_path e)" "lower_text env (entry_path e) \<notin> set paths"
      "entry_sha e = sha_hex env (entry_bytes e)" "entry_directory e \<longrightarrow> entry_bytes e = []"
      "used + int (length (entry_bytes e)) \<le> SNAP_DATA_BYTES"
    by (auto simp: Let_def split: if_splits)
  have "\<not> used + int (length (entry_bytes e)) \<ge> USIZE_LIMIT" using 2(2) by (auto simp: Let_def split: if_splits)
  from 2(1) [OF refl this _ step] here show ?case by (cases "es = []") auto
qed auto

lemma check_volumes_Ok:
  "check_volumes env c seen used vs = Ok seen' \<Longrightarrow>
   seen' = rev (map volume_name vs) @ seen \<and> distinct (map volume_name vs)
   \<and> set (map volume_name vs) \<inter> set seen = {} \<and> set (map volume_name vs) \<subseteq> set (contract_volumes c)
   \<and> (vs = [] \<or> used + (\<Sum>v\<leftarrow>vs. int (length (volume_bytes v))) \<le> SNAP_DATA_BYTES)
   \<and> list_all (\<lambda>v. volume_sha v = sha_hex env (volume_bytes v) \<and> validate_tar (volume_bytes v) = Ok ()) vs"
proof (induction env c seen used vs rule: check_volumes.induct)
  case (2 env c seen used v vs)
  from 2(2) have step: "check_volumes env c (volume_name v # seen) (used + int (length (volume_bytes v))) vs = Ok seen'"
    and here: "volume_name v \<in> set (contract_volumes c)" "volume_name v \<notin> set seen"
      "volume_sha v = sha_hex env (volume_bytes v)" "validate_tar (volume_bytes v) = Ok ()"
      "used + int (length (volume_bytes v)) \<le> SNAP_DATA_BYTES"
    by (auto simp: Let_def and_then_Ok_iff split: if_splits)
  have "\<not> used + int (length (volume_bytes v)) \<ge> USIZE_LIMIT" using 2(2) by (auto simp: Let_def split: if_splits)
  from 2(1) [OF refl this _ step] here show ?case by (cases "vs = []") (auto simp: add.assoc)
qed auto

text \<open>
  Claim C16. A protected snapshot that decodes is confined to the reviewed data: each path is relative, without
  parent steps or device names, and is the credential file or below a declared directory; no two are
  the same in lower case; contents match their hashes, directories have none; the volumes are declared ones,
  each once and as many as declared, with archives that pass their check; everything together is at most
  256 MiB; every declared directory is present, and no file stands where a directory is needed.
\<close>

theorem decoded_snapshot_confined:
  assumes "snapshot_decode env json unprotect b = Ok s"
  shows "list_all (\<lambda>e. safe_relative (entry_path e) \<and> entry_admitted (snap_contract s) (entry_path e)
        \<and> entry_sha e = sha_hex env (entry_bytes e) \<and> (entry_directory e \<longrightarrow> entry_bytes e = [])) (snap_files s)
    \<and> distinct (map (\<lambda>e. lower_text env (entry_path e)) (snap_files s))
    \<and> distinct (map volume_name (snap_volumes s))
    \<and> set (map volume_name (snap_volumes s)) \<subseteq> set (contract_volumes (snap_contract s))
    \<and> length (snap_volumes s) = length (contract_volumes (snap_contract s))
    \<and> list_all (\<lambda>v. volume_sha v = sha_hex env (volume_bytes v) \<and> validate_tar (volume_bytes v) = Ok ()) (snap_volumes s)
    \<and> (\<Sum>e\<leftarrow>snap_files s. int (length (entry_bytes e))) + (\<Sum>v\<leftarrow>snap_volumes s. int (length (volume_bytes v)))
        \<le> SNAP_DATA_BYTES
    \<and> (\<forall>d \<in> set (bind_directories (snap_contract s)). \<exists>e \<in> set (snap_files s). entry_path e = d \<and> entry_directory e)
    \<and> \<not> list_ex (file_in_the_way (snap_files s)) (snap_files s) \<and> is_wsl (snap_engine s)
    \<and> \<not> has_shared_host_folders (snap_contract s)"
proof -
  let ?c = "snap_contract s"
  have "validate_entries env s = Ok ()"
    using assms by (auto simp: snapshot_decode_def and_then_Ok_iff split: if_splits)
  then obtain used seen where sup: "contract_supported ?c = Ok ()"
    and e: "check_entries env ?c [] 0 (snap_files s) = Ok used"
    and v: "check_volumes env ?c [] used (snap_volumes s) = Ok seen" "length seen = length (contract_volumes ?c)"
    and rest: "is_wsl (snap_engine s)"
      "list_all (\<lambda>d. list_ex (\<lambda>e. entry_path e = d \<and> entry_directory e) (snap_files s)) (bind_directories ?c)"
      "\<not> list_ex (file_in_the_way (snap_files s)) (snap_files s)"
    by (auto simp: validate_entries_def Let_def and_then_Ok_iff ensure_def split: if_splits)
  note es = check_entries_Ok [OF e] and vs = check_volumes_Ok [OF v(1)]
  have lim: "(\<Sum>e\<leftarrow>snap_files s. int (length (entry_bytes e))) + (\<Sum>v\<leftarrow>snap_volumes s. int (length (volume_bytes v)))
      \<le> SNAP_DATA_BYTES"
    using es vs by (cases "snap_volumes s = []"; cases "snap_files s = []") (auto simp: SNAP_DATA_BYTES_def)
  have "length (snap_volumes s) = length (contract_volumes ?c)" using vs v(2) by simp
  moreover have "\<not> has_shared_host_folders ?c" using sup by (simp add: contract_supported_def split: if_splits)
  moreover have "\<forall>d \<in> set (bind_directories ?c). \<exists>e \<in> set (snap_files s). entry_path e = d \<and> entry_directory e"
    using rest(2) by (simp add: list_all_iff list_ex_iff)
  ultimately show ?thesis using es vs lim rest(1,3) by auto
qed

text \<open>
  Claim C15. A snapshot that was encoded and protected is decoded to itself, contents included, when it is valid, its recorded
  lengths are those of its contents, and it has at most 16 volumes: each file and volume gets back exactly the
  bytes it had, and nothing is left over.
\<close>

theorem snapshot_round_trip:
  assumes "codec_ok json" and "snapshot_encode json s = Ok b" and "unprotect p = Ok b" and "true_lengths s"
    and "validate_entries env s = Ok ()" and "length (snap_volumes s) \<le> 16"
    and "int (length (MAGIC @ p)) \<le> SNAP_ENCODED_BYTES"
  shows "snapshot_decode env json unprotect (MAGIC @ p) = Ok s"
proof -
  have "int (length (snap_files s)) \<le> SNAP_FILES"
    using assms(5) by (auto simp: validate_entries_def Let_def and_then_Ok_iff split: if_splits)
  then have plain: "decode_plain json b = Ok s" using decode_encoded assms(1,2,4,6) by blast
  have "int (length b) \<le> SNAP_ENCODED_BYTES"
    using assms(2) by (auto simp: snapshot_encode_def Let_def and_then_Ok_iff split: if_splits)
  then show ?thesis using assms(3,5,7) plain by (simp add: snapshot_decode_def starts_with_iff)
qed

section \<open>Archives\<close>

record tar_member =
  member_header :: bytes
  member_path :: "string option"
  member_data :: bytes

definition member_bytes :: "tar_member \<Rightarrow> bytes" where
  "member_bytes m = member_header m @ member_data m"

text \<open>An ordinary file or directory, with a safe path, without set-user, set-group and sticky bits, and with
  the contents its header announces.\<close>

definition ordinary_member :: "tar_member \<Rightarrow> bool" where
  "ordinary_member m =
     (let h = member_header m
      in length h = 512 \<and> cut 257 263 h = ''ustar'' @ [CHR 0x00]
         \<and> tar_octal (cut 148 156 h) = Ok (tar_checksum h)
         \<and> h ! 156 \<in> {CHR 0x00, CHR ''0'', CHR ''5''}
         \<and> (\<exists>mode. tar_octal (cut 100 108 h) = Ok mode \<and> mode div 512 mod 8 = 0)
         \<and> (\<exists>len. tar_octal (cut 124 136 h) = Ok len \<and> int (length (member_data m)) = (len + 511) div 512 * 512
              \<and> (h ! 156 = CHR ''5'' \<longrightarrow> len = 0))
         \<and> (case member_path m of Some p \<Rightarrow> safe_relative p | None \<Rightarrow> h ! 156 = CHR ''5'')
         \<and> (\<exists>name prefix. tar_field (cut 0 100 h) = Ok name \<and> tar_field (cut 345 500 h) = Ok prefix
              \<and> (case member_path m of Some p \<Rightarrow> tar_relative prefix name = p
                 | None \<Rightarrow> tar_relative prefix name \<in> {[], ''.''})))"

lemma tar_octal_nonneg: "tar_octal b = Ok n \<Longrightarrow> 0 \<le> n"
proof -
  have "0 \<le> foldl (\<lambda>n c. 8 * n + (int (code c) - 48)) k ds" if "list_all octal_digit ds" "0 \<le> k" for k ds
    using that by (induction ds arbitrary: k) (auto simp: octal_digit_def)
  then show "tar_octal b = Ok n \<Longrightarrow> 0 \<le> n"
    by (auto simp: tar_octal_def and_then_Ok_iff parse_octal_def ok_or_def Let_def split: if_splits option.splits)
qed

lemma tar_header_len: "tar_header seen h = Ok (m, len) \<Longrightarrow> 0 \<le> len"
  by (auto simp: tar_header_def and_then_Ok_iff Let_def intro: tar_octal_nonneg split: if_splits)

lemma tar_header_Ok:
  assumes "tar_header seen h = Ok (m, len)" "length h = 512" "int (length d) = (len + 511) div 512 * 512"
  shows "ordinary_member \<lparr>member_header = h, member_path = m, member_data = d\<rparr>"
    "\<forall>p. m = Some p \<longrightarrow> p \<notin> set seen"
proof -
  obtain name prefix mode where f: "cut 257 263 h = ''ustar'' @ [CHR 0x00]" "tar_octal (cut 148 156 h) = Ok (tar_checksum h)"
    "tar_field (cut 0 100 h) = Ok name" "tar_field (cut 345 500 h) = Ok prefix" "tar_octal (cut 124 136 h) = Ok len"
    "h ! 156 \<in> {CHR 0x00, CHR ''0'', CHR ''5''}" "h ! 156 = CHR ''5'' \<longrightarrow> len = 0"
    "tar_octal (cut 100 108 h) = Ok mode" "mode div 512 mod 8 = 0"
    and m: "if tar_relative prefix name = ''.'' \<or> tar_relative prefix name = [] then m = None \<and> h ! 156 = CHR ''5''
       else m = Some (tar_relative prefix name) \<and> safe_relative (tar_relative prefix name)
         \<and> tar_relative prefix name \<notin> set seen"
    using assms(1) unfolding tar_header_def
    by (auto simp: and_then_Ok_iff Let_def split: if_splits)
  show "ordinary_member \<lparr>member_header = h, member_path = m, member_data = d\<rparr>"
    unfolding ordinary_member_def Let_def using f m assms(2,3) by (auto split: if_splits)
  show "\<forall>p. m = Some p \<longrightarrow> p \<notin> set seen" using m by (auto split: if_splits)
qed


definition member_paths :: "tar_member list \<Rightarrow> string list" where
  "member_paths ms = List.map_filter member_path ms"

lemma member_paths_simps [simp]:
  "member_paths [] = []"
  "member_paths (m # ms) = (case member_path m of None \<Rightarrow> member_paths ms | Some p \<Rightarrow> p # member_paths ms)"
  by (simp_all add: member_paths_def map_filter_simps split: option.split)

lemma zeros_replicate: "list_all (\<lambda>c. code c = (0 :: nat)) b \<Longrightarrow> b = replicate (length b) (CHR 0x00)"
proof -
  have zero: "c = CHR 0x00" if "code c = (0 :: nat)" for c
    by (rule injD [OF inj_of_char]) (use that in simp)
  show "list_all (\<lambda>c. code c = (0 :: nat)) b \<Longrightarrow> b = replicate (length b) (CHR 0x00)"
    by (induction b) (simp_all add: zero)
qed

definition archive_of :: "int \<Rightarrow> string list \<Rightarrow> bytes \<Rightarrow> tar_member list \<Rightarrow> nat \<Rightarrow> bool" where
  "archive_of count seen b ms n =
     (b = concat (map member_bytes ms) @ replicate n (CHR 0x00) \<and> 1024 \<le> n \<and> list_all ordinary_member ms
      \<and> distinct (member_paths ms) \<and> set (member_paths ms) \<inter> set seen = {} \<and> count + int (length ms) \<le> SNAP_FILES)"

definition padded_length :: "int \<Rightarrow> int" where
  "padded_length len = (len + 511) div 512 * 512"

lemma tar_loop_step:
  assumes "tar_loop count seen b = Ok ()" and "\<not> list_all (\<lambda>c. code c = (0 :: nat)) (take 512 b)"
  obtains m len where "\<not> length b < 512" "\<not> count + 1 > SNAP_FILES" "tar_header seen (take 512 b) = Ok (m, len)"
    "\<not> int (length b) < 512 + padded_length len"
    "tar_loop (count + 1) (case m of None \<Rightarrow> seen | Some m \<Rightarrow> m # seen) (drop (512 + nat (padded_length len)) b) = Ok ()"
proof -
  note unroll = assms(1) [unfolded tar_loop.simps [of count seen b] padded_length_def [symmetric] Let_def]
  have long: "\<not> length b < 512" using unroll by (metis result.distinct(1))
  have more: "\<not> count + 1 > SNAP_FILES" using unroll long assms(2) by (metis result.distinct(1))
  note unroll = unroll [unfolded if_not_P [OF long] if_not_P [OF assms(2)] if_not_P [OF more]]
  obtain m len where h: "tar_header seen (take 512 b) = Ok (m, len)"
    using unroll by (cases "tar_header seen (take 512 b)") auto
  note unroll = unroll [unfolded h result.case prod.case]
  have enough: "\<not> int (length b) < 512 + padded_length len" using unroll by (metis result.distinct(1))
  show thesis using that [OF long more h enough] unroll [unfolded if_not_P [OF enough]] by blast
qed

lemma tar_loop_Ok:
  "tar_loop count seen b = Ok () \<Longrightarrow> count \<le> SNAP_FILES \<Longrightarrow> \<exists>ms n. archive_of count seen b ms n"
proof (induction count seen b rule: tar_loop.induct)
  case (1 count seen b)
  show ?case
  proof (cases "list_all (\<lambda>c. code c = (0 :: nat)) (take 512 b)")
    case True
    then have "1024 \<le> length b" "list_all (\<lambda>c. code c = (0 :: nat)) b"
      using 1(2) by (simp_all add: tar_loop.simps [of count seen b] ensure_def split: if_splits)
    then have "archive_of count seen b [] (length b)"
      using 1(3) zeros_replicate by (simp add: archive_of_def)
    then show ?thesis by blast
  next
    case False
    from tar_loop_step [OF 1(2) False] obtain m len
      where long: "\<not> length b < 512" and more: "\<not> count + 1 > SNAP_FILES"
        and h: "tar_header seen (take 512 b) = Ok (m, len)" and enough: "\<not> int (length b) < 512 + padded_length len"
        and rest: "tar_loop (count + 1) (case m of None \<Rightarrow> seen | Some m \<Rightarrow> m # seen)
          (drop (512 + nat (padded_length len)) b) = Ok ()" .
    let ?k = "nat (padded_length len)"
    let ?seen = "case m of None \<Rightarrow> seen | Some m \<Rightarrow> m # seen"
    let ?m = "\<lparr>member_header = take 512 b, member_path = m, member_data = take ?k (drop 512 b)\<rparr>"
    from more have "count + 1 \<le> SNAP_FILES" by simp
    then obtain ms n where ind: "archive_of (count + 1) ?seen (drop (512 + ?k) b) ms n"
      using 1(1) [OF long False more h refl padded_length_def enough rest] by blast
    have nonneg: "0 \<le> padded_length len" using tar_header_len [OF h] by (simp add: padded_length_def)
    have data: "int (length (take ?k (drop 512 b))) = (len + 511) div 512 * 512"
      using nonneg enough unfolding padded_length_def [symmetric] by (simp add: min_def) linarith
    have header: "ordinary_member ?m" "\<forall>p. m = Some p \<longrightarrow> p \<notin> set seen"
      using tar_header_Ok [OF h _ data] long by simp_all
    have "b = member_bytes ?m @ drop (512 + ?k) b"
      by (simp add: member_bytes_def) (metis add.commute append_take_drop_id drop_drop)
    with ind header have "archive_of count seen b (?m # ms) n"
      by (cases m) (simp_all add: archive_of_def)
    then show ?thesis by blast
  qed
qed

text \<open>
  Claim C14. An archive that passes its check is a sequence of ordinary members followed by at least two blocks of
  zeros: at most 4096 files and directories, each with a header whose checksum is right, contents as
  announced, a safe relative path that no other member has, and no link, device or privileged bit among them.
\<close>

theorem archive_has_ordinary_members:
  assumes "validate_tar b = Ok ()"
  shows "\<exists>ms n. b = concat (map member_bytes ms) @ replicate n (CHR 0x00) \<and> 1024 \<le> n
     \<and> list_all ordinary_member ms \<and> distinct (member_paths ms) \<and> int (length ms) \<le> SNAP_FILES"
proof -
  have "tar_loop 0 [] b = Ok ()" using assms by (simp add: validate_tar_def split: if_splits)
  from tar_loop_Ok [OF this] show ?thesis by (auto simp: archive_of_def SNAP_FILES_def)
qed

section \<open>Restoring\<close>

lemma spares_symlink_metadata [spares_intros, simp]: "spares c d q (fs_symlink_metadata p)"
  by (auto intro!: sparesI simp: fs_symlink_metadata_def fs_op_def split: fault.splits if_splits)

lemma spares_reject_link [spares_intros, simp]: "spares c d q (reject_link env p)"
  unfolding reject_link_def by (intro spares_intros)

lemma spares_confine_steps [spares_intros, simp]: "spares c d q (confine_steps env p cs)"
  by (induction env p cs rule: confine_steps.induct) (auto intro!: spares_intros)

lemma spares_confined_path [spares_intros, simp]: "spares c d q (confined_path env root relative)"
  unfolding confined_path_def by (intro spares_intros)

lemma confine_steps_Done: "confine_steps env p cs w = (Done t, w') \<Longrightarrow> t = p @ cs"
  by (induction env p cs arbitrary: w rule: confine_steps.induct)
    (auto elim!: io_bind_cases io_match_cases split: if_splits)

lemma confined_path_Done:
  "confined_path env root relative w = (Done t, w') \<Longrightarrow> t = root @ parse_path relative \<and> safe_relative relative"
  by (auto simp: confined_path_def dest: confine_steps_Done split: if_splits)

lemma spares_check_targets [spares_intros, simp]: "spares c d q (check_targets env project ds)"
  by (induction env project ds rule: check_targets.induct) (auto intro!: spares_intros)

lemma spares_check_paths [spares_intros, simp]: "spares c d q (check_paths env project es)"
  by (induction env project es rule: check_paths.induct) (auto intro!: spares_intros)

lemma spares_write_entry:
  assumes "c \<or> \<not> path_starts_with q project"
  shows "spares c d q (write_entry env project e)"
  unfolding write_entry_def
proof (rule spares_bind_knowing)
  fix t w w1
  assume run: "confined_path env project (entry_path e) w = (Done t, w1)"
  from confined_path_Done [OF run] have t: "path_starts_with t project" by (auto simp: path_starts_with_iff)
  then have new: "c \<or> q \<noteq> t" using assms by auto
  have store: "spares c d q (io_bind (io_map_err from_io (fs_create_new t)) (\<lambda>_.
      io_bind (io_map_err from_io (fs_write_all t (entry_bytes e))) (\<lambda>_. io_map_err from_io (fs_sync_all t))))"
  proof (rule spares_bind_knowing)
    show "spares c d q (io_map_err from_io (fs_create_new t))" using new by (intro spares_intros spares_create_new)
    fix u v v1
    assume "standing c d q v" "io_map_err from_io (fs_create_new t) v = (Done u, v1)"
    then have "q \<noteq> t" using new fs_create_new_run(2) [of t v "Done u" v1 u] by (auto simp: standing_def)
    then show "spares c d q (io_bind (io_map_err from_io (fs_write_all t (entry_bytes e))) (\<lambda>_. io_map_err from_io (fs_sync_all t)))"
      by (intro spares_intros)
  qed
  show "spares c d q (if entry_directory e then io_map_err from_io (fs_create_dir_all t)
      else io_bind (case path_parent t of Some parent \<Rightarrow> io_map_err from_io (fs_create_dir_all parent) | None \<Rightarrow> io_return ())
        (\<lambda>_. io_bind (io_map_err from_io (fs_create_new t)) (\<lambda>_.
           io_bind (io_map_err from_io (fs_write_all t (entry_bytes e))) (\<lambda>_. io_map_err from_io (fs_sync_all t)))))"
    by (intro spares_if spares_bind [OF _ store] spares_intros)
qed (intro spares_intros)

lemma spares_write_entries:
  "c \<or> \<not> path_starts_with q project \<Longrightarrow> spares c d q (write_entries env project es)"
  by (induction env project es rule: write_entries.induct) (auto intro!: spares_intros spares_write_entry)

lemma spares_restore_files:
  "c \<or> \<not> path_starts_with q project \<Longrightarrow> spares c d q (restore_files env project s)"
  unfolding restore_files_def by (intro spares_intros spares_write_entries)

lemma write_entry_Done:
  assumes "write_entry env project e w = (Done u, w')"
  shows "if entry_directory e then project @ parse_path (entry_path e) \<in> dirs w'
     else files w (project @ parse_path (entry_path e)) = None
       \<and> files w' (project @ parse_path (entry_path e)) = Some (entry_bytes e)"
proof -
  from assms obtain t w1 where t: "confined_path env project (entry_path e) w = (Done t, w1)"
    and rest: "(if entry_directory e then io_map_err from_io (fs_create_dir_all t)
      else io_bind (case path_parent t of Some parent \<Rightarrow> io_map_err from_io (fs_create_dir_all parent) | None \<Rightarrow> io_return ())
        (\<lambda>_. io_bind (io_map_err from_io (fs_create_new t)) (\<lambda>_.
           io_bind (io_map_err from_io (fs_write_all t (entry_bytes e))) (\<lambda>_. io_map_err from_io (fs_sync_all t))))) w1
      = (Done u, w')"
    unfolding write_entry_def by (auto elim!: io_bind_cases)
  have t': "t = project @ parse_path (entry_path e)" using confined_path_Done [OF t] ..
  show ?thesis
  proof (cases "entry_directory e")
    case True
    then show ?thesis using rest by (auto simp: t' fs_create_dir_all_def fs_op_def split: fault.splits)
  next
    case False
    let ?parent = "case path_parent t of Some parent \<Rightarrow> io_map_err from_io (fs_create_dir_all parent) | None \<Rightarrow> io_return ()"
    from False rest obtain x v1 y v2 v3 where p: "?parent w1 = (Done x, v1)" and c: "fs_create_new t v1 = (Done y, v2)"
      and wr: "fs_write_all t (entry_bytes e) v2 = (Done (), v3)" "fs_sync_all t v3 = (Done u, w')"
      by (auto elim!: io_bind_cases)
    have "spares False [] t ?parent" by (intro spares_intros)
    then have "files v1 t = files w1 t" using p by (auto simp: spares_def standing_def)
    moreover have "files w1 t = files w t"
      using t spares_confined_path [of False "[]" t] by (auto simp: spares_def standing_def)
    moreover have "files v1 t = None" using fs_create_new_run(2) [OF c] by blast
    moreover have "files w' t = Some (entry_bytes e)" using fs_write_all_run(2) [OF wr(1)] fs_sync_all_run [OF wr(2)] by simp
    ultimately show ?thesis using False t' by simp
  qed
qed

lemma untouched_before:
  assumes "spares True d q m" "m w = (r, w')" "files w' q = None" "d \<in> dirs w"
  shows "files w q = None"
  using assms unfolding spares_def standing_def by metis

text \<open>Directories stay.\<close>

definition grows :: "('e, 'a) prog \<Rightarrow> bool" where
  "grows m = (\<forall>w r w'. m w = (r, w') \<longrightarrow> dirs w \<subseteq> dirs w')"

lemma grows_bind: "grows m \<Longrightarrow> (\<And>x. grows (f x)) \<Longrightarrow> grows (io_bind m f)"
  unfolding grows_def by (blast elim: io_bind_cases)

lemma grows_match: "grows m \<Longrightarrow> (\<And>x. grows (f x)) \<Longrightarrow> (\<And>e. grows (h e)) \<Longrightarrow> grows (io_match m f h)"
  unfolding grows_def by (blast elim: io_match_cases)

lemma grows_map_err: "grows m \<Longrightarrow> grows (io_map_err g m)"
  unfolding io_map_err_def by (intro grows_match) (simp_all add: grows_def)

lemma grows_if: "grows m \<Longrightarrow> grows n \<Longrightarrow> grows (if b then m else n)"
  by simp

lemma grows_option: "grows m \<Longrightarrow> (\<And>x. grows (f x)) \<Longrightarrow> grows (case v of None \<Rightarrow> m | Some x \<Rightarrow> f x)"
  by (cases v) simp_all

lemma grows_steps:
  "grows (Pair v)" "grows (io_return x)" "grows (io_fail e)" "grows (fs_symlink_metadata p)" "grows (fs_create_dir_all p)"
  "grows (fs_create_new p)" "grows (fs_write_all p b)" "grows (fs_sync_all p)" "grows (fs_exists p)" "grows (fs_read_dir l p)"
  by (auto simp: grows_def io_return_def io_fail_def fs_symlink_metadata_def fs_create_dir_all_def fs_create_new_def
      fs_write_all_def fs_sync_all_def fs_exists_def fs_read_dir_def fs_op_def Let_def split: fault.splits option.splits if_splits)

lemmas grows_intros = grows_bind grows_match grows_map_err grows_if grows_option grows_steps

lemma grows_confined_path: "grows (confined_path env root relative)"
proof -
  have "grows (confine_steps env p cs)" for p cs
    by (induction env p cs rule: confine_steps.induct) (auto intro!: grows_intros simp: reject_link_def)
  then show ?thesis unfolding confined_path_def by (intro grows_intros)
qed

lemma grows_write_entry: "grows (write_entry env project e)"
  unfolding write_entry_def by (intro grows_intros grows_confined_path)

lemma grows_write_entries: "grows (write_entries env project es)"
  by (induction env project es rule: write_entries.induct) (simp_all add: grows_intros grows_write_entry)

lemma write_entries_Done:
  assumes "write_entries env project es w = (Done u, w')" and "d \<in> dirs w"
  shows "list_all (\<lambda>e. if entry_directory e then project @ parse_path (entry_path e) \<in> dirs w'
     else files w (project @ parse_path (entry_path e)) = None
       \<and> files w' (project @ parse_path (entry_path e)) = Some (entry_bytes e)) es"
  using assms
proof (induction env project es arbitrary: w rule: write_entries.induct)
  case (2 env project e es)
  from 2(2) obtain v w1 where e: "write_entry env project e w = (Done v, w1)"
    and es: "write_entries env project es w1 = (Done u, w')"
    by (auto elim: io_bind_cases)
  have d: "d \<in> dirs w1" using grows_write_entry e 2(3) by (fastforce simp: grows_def)
  have before: "files w q = None" if "files w1 q = None" for q
    using untouched_before [OF spares_write_entry e that 2(3)] by simp
  let ?t = "project @ parse_path (entry_path e)"
  have "if entry_directory e then ?t \<in> dirs w' else files w ?t = None \<and> files w' ?t = Some (entry_bytes e)"
  proof (cases "entry_directory e")
    case True
    then have "?t \<in> dirs w1" using write_entry_Done [OF e] by simp
    then have "?t \<in> dirs w'" using grows_write_entries es by (fastforce simp: grows_def)
    then show ?thesis using True by simp
  next
    case False
    then have now: "files w ?t = None" "files w1 ?t = Some (entry_bytes e)" using write_entry_Done [OF e] by simp_all
    then have "standing True d ?t w1" using d by (simp add: standing_def)
    from sparesD(2) [OF spares_write_entries this es] have "files w' ?t = files w1 ?t" by simp
    then show ?thesis using False now by simp
  qed
  then show ?case using 2(1) [OF es d] before by (auto simp: list_all_iff)
qed simp

lemma grows_check_targets: "grows (check_targets env project ds)"
  by (induction env project ds rule: check_targets.induct)
    (simp_all add: grows_intros grows_confined_path reject_link_def)

lemma grows_check_paths: "grows (check_paths env project es)"
  by (induction env project es rule: check_paths.induct) (simp_all add: grows_intros grows_confined_path)

lemma restore_files_Done:
  assumes "restore_files env project s w = (Done u, w')" and "d \<in> dirs w"
  obtains w1 where "validate_entries env s = Ok ()" "d \<in> dirs w1" "\<And>q. files w1 q = files w q"
    "write_entries env project (sort_key restore_rank (snap_files s)) w1 = (Done u, w')"
proof -
  let ?checks = "io_bind (check_targets env project (bind_directories (snap_contract s))) (\<lambda>_.
    io_bind (fs_exists (path_join project SECRETS_FILE)) (\<lambda>there.
      if there then io_fail (app_error_invalid ''Restore target already contains credentials; nothing was overwritten.'')
      else check_paths env project (snap_files s)))"
  from assms(1) obtain v t1 where v: "io_lift (validate_entries env s) w = (Done v, t1)"
    and rest: "io_bind (check_targets env project (bind_directories (snap_contract s))) (\<lambda>_.
      io_bind (fs_exists (path_join project SECRETS_FILE)) (\<lambda>there.
        if there then io_fail (app_error_invalid ''Restore target already contains credentials; nothing was overwritten.'')
        else io_bind (check_paths env project (snap_files s)) (\<lambda>_.
          write_entries env project (sort_key restore_rank (snap_files s))))) t1 = (Done u, w')"
    unfolding restore_files_def by (rule io_bind_cases) simp_all
  from v have v: "validate_entries env s = Ok ()" "t1 = w" by (cases "validate_entries env s"; simp add: io_return_def io_fail_def)+
  from rest v(2) obtain x1 t2 where t2: "check_targets env project (bind_directories (snap_contract s)) w = (Done x1, t2)"
    and rest: "io_bind (fs_exists (path_join project SECRETS_FILE)) (\<lambda>there.
        if there then io_fail (app_error_invalid ''Restore target already contains credentials; nothing was overwritten.'')
        else io_bind (check_paths env project (snap_files s)) (\<lambda>_.
          write_entries env project (sort_key restore_rank (snap_files s)))) t2 = (Done u, w')"
    by (auto elim: io_bind_cases)
  from rest obtain t3 w1 where t3: "fs_exists (path_join project SECRETS_FILE) t2 = (Done False :: (app_error, bool) run, t3)"
    "check_paths env project (snap_files s) t3 = (Done (), w1)"
    and run: "write_entries env project (sort_key restore_rank (snap_files s)) w1 = (Done u, w')"
    by (auto elim!: io_bind_cases split: if_splits)
  have c: "?checks w = (Done (), w1)" using t2 t3 by (simp add: io_bind_def)
  have "grows ?checks" by (intro grows_intros grows_check_targets grows_check_paths)
  then have "d \<in> dirs w1" using c assms(2) by (fastforce simp: grows_def)
  moreover have "files w1 q = files w q" for q
  proof -
    have "spares False [] q ?checks" by (intro spares_intros)
    then show ?thesis using c by (auto simp: spares_def standing_def)
  qed
  ultimately show thesis using that v(1) run by blast
qed

text \<open>
  Claim C13. Whatever fails and wherever the process dies, restoring leaves every file alone that exists or lies outside
  of the project. When it succeeds, the snapshot was valid, every file of it has its contents, in a place where
  there was no file before, and every directory of it is there.
\<close>

theorem restore_replaces_nothing:
  assumes "restore_files env project s w = (r, w')" and "dirs w \<noteq> {}"
  shows "(\<forall>q. files w q \<noteq> None \<or> \<not> path_starts_with q project \<longrightarrow> files w' q = files w q)
    \<and> (r = Done () \<longrightarrow> validate_entries env s = Ok ()
      \<and> list_all (\<lambda>e. if entry_directory e then project @ parse_path (entry_path e) \<in> dirs w'
          else files w (project @ parse_path (entry_path e)) = None
            \<and> files w' (project @ parse_path (entry_path e)) = Some (entry_bytes e)) (snap_files s))"
proof -
  from assms(2) obtain d where d: "d \<in> dirs w" by blast
  have "files w' q = files w q" if "files w q \<noteq> None \<or> \<not> path_starts_with q project" for q
  proof (cases "files w q = None")
    case True
    with that show ?thesis
      using sparesD(2) [OF spares_restore_files [of False] _ assms(1)] by (simp add: standing_def)
  next
    case False
    then have "standing True d q w" using d by (simp add: standing_def)
    from sparesD(2) [OF spares_restore_files this assms(1)] show ?thesis by simp
  qed
  moreover have "validate_entries env s = Ok ()
      \<and> list_all (\<lambda>e. if entry_directory e then project @ parse_path (entry_path e) \<in> dirs w'
          else files w (project @ parse_path (entry_path e)) = None
            \<and> files w' (project @ parse_path (entry_path e)) = Some (entry_bytes e)) (snap_files s)" if "r = Done ()"
  proof -
    from assms(1) that obtain w1 where v: "validate_entries env s = Ok ()" "d \<in> dirs w1" and same: "\<And>q. files w1 q = files w q"
      and run: "write_entries env project (sort_key restore_rank (snap_files s)) w1 = (Done (), w')"
      using restore_files_Done [OF _ d] by metis
    show ?thesis using write_entries_Done [OF run v(2)] v(1) unfolding same by (simp add: list_all_iff)
  qed
  ultimately show ?thesis by blast
qed

section \<open>Witnesses\<close>

lemma tar_checksum_parts:
  assumes "length h = 512"
  shows "tar_checksum h = (\<Sum>c\<leftarrow>take 148 h. int (code c)) + 256 + (\<Sum>c\<leftarrow>drop 156 h. int (code c))"
proof -
  define f where "f = (\<lambda>(i :: nat, c). if 148 \<le> i \<and> i < 156 then 32 else int (code c))"
  define s where "s = (\<lambda>a xs. sum_list (map f (zip [a..<a + length xs] xs)))"
  have s_simps [simp]: "s a [] = 0" "s a (x # xs) = f (a, x) + s (Suc a) xs" for a x xs
    by (simp_all add: s_def upt_conv_Cons del: upt_Suc)
  have low: "s a xs = (\<Sum>c\<leftarrow>xs. int (code c))" if "a + length xs \<le> 148" for a xs
    using that by (induction xs arbitrary: a) (simp_all add: f_def)
  have high: "s a xs = (\<Sum>c\<leftarrow>xs. int (code c))" if "156 \<le> a" for a xs
    using that by (induction xs arbitrary: a) (simp_all add: f_def)
  have middle: "s a xs = 32 * int (length xs)" if "148 \<le> a" "a + length xs \<le> 156" for a xs
    using that by (induction xs arbitrary: a) (simp_all add: f_def)
  have split: "s a (xs @ ys) = s a xs + s (a + length xs) ys" for a xs ys
    by (induction xs arbitrary: a) simp_all
  have "drop 148 h = take 8 (drop 148 h) @ drop 156 h" using append_take_drop_id [of 8 "drop 148 h"] by simp
  then have "h = take 148 h @ take 8 (drop 148 h) @ drop 156 h" using append_take_drop_id [of 148 h] by simp
  then have "s 0 h = s 0 (take 148 h @ take 8 (drop 148 h) @ drop 156 h)" by (rule arg_cong)
  also have "\<dots> = (\<Sum>c\<leftarrow>take 148 h. int (code c)) + (256 + (\<Sum>c\<leftarrow>drop 156 h. int (code c)))"
    unfolding split using assms by (simp add: low middle high)
  finally show ?thesis using assms by (simp add: tar_checksum_def s_def f_def)
qed

definition data_header :: bytes where
  "data_header =
     ''data/'' @ replicate 95 (CHR 0x00) @ ''0000755'' @ [CHR 0x00] @ ''0000000'' @ [CHR 0x00] @ ''0000000'' @ [CHR 0x00]
     @ ''00000000000'' @ [CHR 0x00] @ ''00000000000'' @ [CHR 0x00] @ ''006656'' @ [CHR 0x00, CHR '' ''] @ ''5''
     @ replicate 100 (CHR 0x00) @ ''ustar'' @ [CHR 0x00] @ ''00'' @ replicate 247 (CHR 0x00)"

lemma data_header_length: "length data_header = 512" by (simp add: data_header_def)

lemma data_header_sum: "tar_checksum data_header = 3502"
  unfolding tar_checksum_parts [OF data_header_length]
  by (simp add: data_header_def sum_list_replicate)

lemma data_header_cuts:
  "cut 257 263 data_header = ''ustar'' @ [CHR 0x00]"
  "cut 148 156 data_header = ''006656'' @ [CHR 0x00, CHR '' '']"
  "cut 0 100 data_header = ''data/'' @ replicate 95 (CHR 0x00)"
  "cut 345 500 data_header = replicate 155 (CHR 0x00)"
  "cut 124 136 data_header = ''00000000000'' @ [CHR 0x00]"
  "cut 100 108 data_header = ''0000755'' @ [CHR 0x00]"
  "data_header ! 156 = CHR ''5''"
  by (simp_all add: cut_def data_header_def nth_append)

lemma data_header_fields:
  "tar_octal (''006656'' @ [CHR 0x00, CHR '' '']) = Ok 3502"
  "tar_octal (''00000000000'' @ [CHR 0x00]) = Ok 0"
  "tar_octal (''0000755'' @ [CHR 0x00]) = Ok 493"
  "tar_field (''data/'' @ replicate 95 (CHR 0x00)) = Ok ''data/''"
  "tar_field (replicate 155 (CHR 0x00)) = Ok []"
  "tar_relative [] ''data/'' = ''data''"
  "safe_relative ''data''"
  by code_simp+

lemma data_header_ok: "tar_header [] data_header = Ok (Some ''data'', 0)"
  by (simp add: tar_header_def data_header_cuts data_header_fields [simplified] data_header_sum Let_def)

definition data_archive :: bytes where
  "data_archive = data_header @ replicate 1024 (CHR 0x00)"

lemma data_header_nonzero: "\<not> list_all (\<lambda>c. code c = (0 :: nat)) data_header"
  by (simp add: data_header_def)

lemma data_archive_valid: "validate_tar data_archive = Ok ()"
proof -
  have zeros: "list_all (\<lambda>c. code c = (0 :: nat)) (replicate n (CHR 0x00))" for n by (simp add: list_all_iff)
  have "tar_loop 1 [''data''] (replicate 1024 (CHR 0x00)) = Ok ()"
    by (simp add: tar_loop.simps zeros ensure_def)
  then have "tar_loop 0 [] data_archive = Ok ()"
    by (simp add: tar_loop.simps [of 0] data_archive_def data_header_length data_header_nonzero data_header_ok SNAP_FILES_def)
  then show ?thesis
    by (simp add: validate_tar_def data_archive_def data_header_length SNAP_DATA_BYTES_def)
qed

definition test_env :: snapshot_env where
  "test_env = \<lparr>sha_hex = take 8, lower_text = lowercase, special = (\<lambda>_. False), listing = (\<lambda>_ _. []), plan_text = (\<lambda>_. [])\<rparr>"

definition notes_files :: "snapshot_entry list" where
  "notes_files =
     [\<lparr>entry_path = ''data/a'', entry_directory = False, entry_sha = ''old'', entry_bytes = ''old'', entry_length = 3\<rparr>,
      \<lparr>entry_path = ''data'', entry_directory = True, entry_sha = [], entry_bytes = [], entry_length = 0\<rparr>]"

definition notes_snapshot :: "snapshot_volume list \<Rightarrow> snapshot" where
  "notes_snapshot vs =
     \<lparr>snap_version = 1,
      snap_contract = \<lparr>offering_id = ''notes'', reviewed_plan_sha256 = ''p'', bind_directories = [''data''],
        contract_volumes = map volume_name vs, has_shared_host_folders = False\<rparr>,
      snap_engine = managed_wsl, daemon_id_sha256 = ''d'', snap_files = notes_files, snap_volumes = vs\<rparr>"

definition notes_volumes :: "snapshot_volume list" where
  "notes_volumes = [\<lparr>volume_name = ''notes_db'', volume_sha = ''data/'' @ replicate 3 (CHR 0x00), volume_bytes = data_archive,
     volume_length = 1536\<rparr>]"

definition one_snapshot :: "snapshot \<Rightarrow> snapshot codec" where
  "one_snapshot s =
     \<lparr>encode = (\<lambda>t. if t = skip_bytes s then Some ''m'' else None),
      decode = (\<lambda>b. if b = ''m'' then Some (skip_bytes s) else None)\<rparr>"

definition notes_encoded :: bytes where
  "notes_encoded = [CHR 0x01, CHR 0x00, CHR 0x00, CHR 0x00] @ ''m'' @ ''old'' @ data_archive"

lemma data_archive_length: "length data_archive = 1536"
  by (simp add: data_archive_def data_header_length)

lemma one_snapshot_ok: "codec_ok (one_snapshot s)"
  by (simp add: codec_ok_def one_snapshot_def)

lemma notes_encodes: "snapshot_encode (one_snapshot (notes_snapshot notes_volumes)) (notes_snapshot notes_volumes) = Ok notes_encoded"
proof -
  have "le_bytes4 1 = [CHR 0x01, CHR 0x00, CHR 0x00, CHR 0x00]" by (simp add: le_bytes4_def upt_rec char_of_def bit_0)
  then show ?thesis
    by (simp add: snapshot_encode_def one_snapshot_def ok_or_def notes_encoded_def notes_snapshot_def notes_files_def
        notes_volumes_def data_archive_length SNAP_METADATA_BYTES_def SNAP_ENCODED_BYTES_def)
qed

definition notes_contract :: "string list \<Rightarrow> storage_contract" where
  "notes_contract names = \<lparr>offering_id = ''notes'', reviewed_plan_sha256 = ''p'', bind_directories = [''data''],
     contract_volumes = names, has_shared_host_folders = False\<rparr>"

lemma notes_parts:
  "snap_contract (notes_snapshot vs) = notes_contract (map volume_name vs)"
  "snap_files (notes_snapshot vs) = notes_files" "snap_volumes (notes_snapshot vs) = vs"
  "snap_engine (notes_snapshot vs) = managed_wsl" "snap_version (notes_snapshot vs) = 1"
  "contract_volumes (notes_contract names) = names" "bind_directories (notes_contract names) = [''data'']"
  by (simp_all add: notes_snapshot_def notes_contract_def)

lemma notes_checked:
  "contract_supported (notes_contract names) = Ok ()"
  "check_entries test_env (notes_contract names) [] 0 notes_files = Ok 3"
  "list_ex (\<lambda>e. entry_path e = ''data'' \<and> entry_directory e) notes_files"
  "list_ex (file_in_the_way notes_files) notes_files = False"
  "length notes_files = 2" "is_wsl managed_wsl"
  by (simp add: contract_supported_def notes_contract_def ensure_def, code_simp+)

lemma notes_volumes_checked:
  "check_volumes test_env (notes_contract [''notes_db'']) [] 3 notes_volumes = Ok [''notes_db'']"
  "map volume_name notes_volumes = [''notes_db'']"
proof -
  have sha: "sha_hex test_env data_archive = ''data/'' @ replicate 3 (CHR 0x00)"
    by (simp add: test_env_def data_archive_def data_header_def)
  show "check_volumes test_env (notes_contract [''notes_db'']) [] 3 notes_volumes = Ok [''notes_db'']"
    by (simp add: notes_volumes_def notes_parts data_archive_valid data_archive_length sha USIZE_LIMIT_def SNAP_DATA_BYTES_def)
qed (simp add: notes_volumes_def)

lemma notes_valid: "validate_entries test_env (notes_snapshot notes_volumes) = Ok ()"
  by (simp add: validate_entries_def notes_parts notes_checked notes_volumes_checked Let_def ensure_def SNAP_FILES_def)

lemma notes_lengths:
  "length MAGIC = 28" "length notes_encoded = 1544" "true_lengths (notes_snapshot notes_volumes)"
  "length (snap_volumes (notes_snapshot notes_volumes)) \<le> 16"
proof -
  show "true_lengths (notes_snapshot notes_volumes)"
    by (simp add: true_lengths_def notes_parts) (simp add: notes_files_def notes_volumes_def data_archive_length)
qed (simp_all add: MAGIC_def notes_encoded_def data_archive_length notes_parts notes_volumes_def)

theorem snapshot_round_trip_witness:
  "snapshot_decode test_env (one_snapshot (notes_snapshot notes_volumes)) Ok (MAGIC @ notes_encoded)
     = Ok (notes_snapshot notes_volumes)"
  by (rule snapshot_round_trip [OF one_snapshot_ok notes_encodes _ notes_lengths(3) notes_valid notes_lengths(4)])
    (simp_all add: notes_lengths SNAP_ENCODED_BYTES_def)

lemma notes_decodes:
  "snapshot_decode test_env (one_snapshot (notes_snapshot notes_volumes)) Ok (MAGIC @ notes_encoded)
     = Ok (notes_snapshot notes_volumes)"
proof -
  have "decode_plain (one_snapshot (notes_snapshot notes_volumes)) notes_encoded = Ok (notes_snapshot notes_volumes)"
    by (intro decode_encoded one_snapshot_ok notes_encodes notes_lengths(3,4)) (simp add: notes_parts notes_checked SNAP_FILES_def)
  then show ?thesis
    by (simp add: snapshot_decode_def notes_lengths(1,2) starts_with_iff notes_valid SNAP_ENCODED_BYTES_def)
qed

theorem decoded_snapshot_confined_witness:
  "length (snap_volumes (notes_snapshot notes_volumes)) = length (contract_volumes (snap_contract (notes_snapshot notes_volumes)))"
  using decoded_snapshot_confined [OF notes_decodes] by (elim conjE)

theorem archive_has_ordinary_members_witness:
  "\<exists>ms n. data_archive = concat (map member_bytes ms) @ replicate n (CHR 0x00) \<and> 1024 \<le> n
     \<and> list_all ordinary_member ms \<and> distinct (member_paths ms) \<and> int (length ms) \<le> SNAP_FILES"
  by (rule archive_has_ordinary_members [OF data_archive_valid])

definition fresh_world :: world where
  "fresh_world = \<lparr>files = [[Normal ''apps'', Normal ''notes'', Normal ''compose.yaml''] \<mapsto> ''services:''],
     dirs = {[Normal ''apps''], [Normal ''apps'', Normal ''notes'']}, locked = {}, clock_secs = Some 5, clock_nanos = 7,
     entropy = [], faults = []\<rparr>"

lemma notes_restored:
  "fst (restore_files test_env [Normal ''apps'', Normal ''notes''] (notes_snapshot []) fresh_world) = Done ()"
  by code_simp

theorem restore_replaces_nothing_witness:
  "let w' = snd (restore_files test_env [Normal ''apps'', Normal ''notes''] (notes_snapshot []) fresh_world)
   in files w' [Normal ''apps'', Normal ''notes'', Normal ''compose.yaml''] = Some ''services:''
      \<and> files w' [Normal ''apps'', Normal ''notes'', Normal ''data'', Normal ''a''] = Some ''old''"
proof -
  let ?p = "[Normal ''apps'', Normal ''notes'']"
  let ?r = "restore_files test_env ?p (notes_snapshot []) fresh_world"
  have r: "?r = (fst ?r, snd ?r)" by (rule prod.collapse [symmetric])
  have "dirs fresh_world \<noteq> {}" by (simp add: fresh_world_def)
  note all = restore_replaces_nothing [OF r this]
  have kept: "files fresh_world [Normal ''apps'', Normal ''notes'', Normal ''compose.yaml''] = Some ''services:''"
    by (simp add: fresh_world_def)
  have path: "parse_path ''data/a'' = [Normal ''data'', Normal ''a'']" by code_simp
  have "files (snd ?r) (?p @ parse_path ''data/a'') = Some ''old''"
    using all notes_restored by (simp add: notes_parts) (simp add: notes_files_def)
  moreover have "files (snd ?r) [Normal ''apps'', Normal ''notes'', Normal ''compose.yaml''] = Some ''services:''"
    using all kept by simp
  ultimately show ?thesis by (simp add: path Let_def)
qed

end
