(* ===== verification/Spec2Isabelle.thy ===== *)
theory Spec2Isabelle
  imports Errors Storage_Props Compose_Readback Plan_Ports Agent_Gateway Runtipi_Props Request_History Install_Results Snapshot_Props
begin

text \<open>
  A verification development of Local Store, a desktop application (\<^verbatim>\<open>src/src/\<close>, Rust) that installs
  self-hosted apps as Docker Compose projects, keeps a registry of them, and lets agents outside the
  program see and, with the owner's approval, operate them.

  \<^bold>\<open>The parts and how they interact.\<close> A definition from an upstream catalogue is imported
  (\<^verbatim>\<open>importers/\<close>) as a template: a deployment plan whose environment values and shared folders hold
  placeholders, the fields and generated secrets that fill them, and seed files (\<^verbatim>\<open>setup.rs\<close>). Answers
  and secrets resolve a template to a plan, the plan is validated and rendered as a Compose file
  (\<^verbatim>\<open>plan.rs\<close>), and the installation writes it into the app's project directory, starts it and waits for
  its address, or undoes it (\<^verbatim>\<open>runtime/mod.rs\<close>), under a lock that no other operation on the app can
  hold. The app is then recorded in the registry (\<^verbatim>\<open>storage.rs\<close>), and every Docker command runs
  through the engine bound to the project (\<^verbatim>\<open>runtime/engine.rs\<close>). An agent presents a credential
  (\<^verbatim>\<open>agent_gateway/auth.rs\<close>) to the gateway (\<^verbatim>\<open>agent_gateway.rs\<close>), which asks the policy
  (\<^verbatim>\<open>agent_policy.rs\<close>, on disk in \<^verbatim>\<open>agent_policy/store.rs\<close>) and the registry; changes go through a queue
  that the owner decides (\<^verbatim>\<open>agent_requests.rs\<close>). Errors cross the boundary redacted (\<^verbatim>\<open>error.rs\<close>,
  \<^verbatim>\<open>runtime/process.rs\<close>).

  \<^bold>\<open>Theories, by part.\<close>
  \<^item> \<^theory_text>\<open>Prelude\<close>: results, ordered maps (the locale \<^theory_text>\<open>ordered_map\<close>, interpreted on the sorted
    association lists that stand for \<^verbatim>\<open>BTreeMap\<close>), fixed-width integers, codecs. \<^theory_text>\<open>Rust_Str\<close>,
    \<^theory_text>\<open>Decimal\<close>, \<^theory_text>\<open>Paths\<close>, \<^theory_text>\<open>Json\<close>: what the code uses of strings (as UTF-8 bytes), numbers, paths and JSON
    values. \<^theory_text>\<open>World\<close>: files, locks, clock, random source and pending faults, and programs over them;
    a fault makes an operation fail, or ends the process before or after its effect.
  \<^item> \<^theory_text>\<open>Redact\<close>, \<^theory_text>\<open>Errors\<close>: diagnostics without credentials, and the error type of the boundary.
  \<^item> \<^theory_text>\<open>App_Model\<close>, \<^theory_text>\<open>Storage\<close>, \<^theory_text>\<open>Storage_Props\<close>: installed apps, atomic replacement of files, the
    registry's load, save, import and mutations; crash safety. The locale \<^theory_text>\<open>atomic_file\<close> states what a
    replacement promises and is interpreted on \<^verbatim>\<open>write_file_atomically\<close>.
  \<^item> \<^theory_text>\<open>Plan_Args\<close>, \<^theory_text>\<open>Health_Check\<close>, \<^theory_text>\<open>Plan\<close>, \<^theory_text>\<open>Plan_Render\<close> (\<^verbatim>\<open>plan.rs\<close>, \<^verbatim>\<open>plan/healthcheck.rs\<close>):
    the plan, its validation check by check in the order of the code, and its rendering;
    \<^theory_text>\<open>Plan_Props\<close> what a validated plan guarantees, \<^theory_text>\<open>Plan_Ports\<close> the choice and move of ports,
    \<^theory_text>\<open>Compose_Lines\<close> and \<^theory_text>\<open>Compose_Readback\<close> the lines of the file and what is read back from them.
  \<^item> \<^theory_text>\<open>Folders\<close>, \<^theory_text>\<open>Secrets\<close>, \<^theory_text>\<open>Setup\<close>, \<^theory_text>\<open>Setup_Props\<close> (\<^verbatim>\<open>folders.rs\<close>, \<^verbatim>\<open>setup.rs\<close>,
    \<^verbatim>\<open>setup/review.rs\<close>): shared folders, generated credentials, fields and answers, placeholders,
    validation and resolution of templates, and the review.
  \<^item> \<^theory_text>\<open>Importers\<close>, \<^theory_text>\<open>Caprover\<close>, \<^theory_text>\<open>Caprover_Props\<close>, \<^theory_text>\<open>Runtipi\<close>, \<^theory_text>\<open>Runtipi_Props\<close>
    (\<^verbatim>\<open>importers/\<close>): both importers, from setup variables and form fields to the template or the
    reasons against one.
  \<^item> \<^theory_text>\<open>Agent_Policy\<close>, \<^theory_text>\<open>Json_Store\<close>, \<^theory_text>\<open>Policy_Store\<close>, \<^theory_text>\<open>Agent_Auth\<close>, \<^theory_text>\<open>Agent_Gateway\<close>: grants and
    tickets in memory and on disk, credentials, and the operations of the gateway. The locale
    \<^theory_text>\<open>json_store\<close> states what a locked, bounded, checked JSON file promises; the policy store, the
    credential store and the request queue interpret it.
  \<^item> \<^theory_text>\<open>Engine\<close> (\<^verbatim>\<open>runtime/engine.rs\<close>, \<^verbatim>\<open>runtime/engine/wsl.rs\<close>): bindings, their routing of commands,
    the stored choice, and the transport into WSL. \<^theory_text>\<open>Wsl_Projection\<close>
    (\<^verbatim>\<open>runtime/engine/wsl/projection.rs\<close>): the same plan with its paths on the drives of the owned
    distribution.
  \<^item> \<^theory_text>\<open>Operation_Lock\<close> (\<^verbatim>\<open>lock_operation\<close>, \<^verbatim>\<open>OperationLock\<close>, \<^verbatim>\<open>cancel_operation\<close> of
    \<^verbatim>\<open>runtime/mod.rs\<close>): the table of running operations as a value, its steps as an inductive relation
    in which any thread may act at any time, and an invariant of every history.
  \<^item> \<^theory_text>\<open>Runtime\<close>, \<^theory_text>\<open>Runtime_Props\<close>: the check of the prerequisites, the commands of an app, the wait for
    an address and the last words of containers. \<^theory_text>\<open>Install\<close>: \<^verbatim>\<open>install_source_with\<close> from its first
    checkpoint to its rollback, \<^verbatim>\<open>install_template_with\<close>, \<^verbatim>\<open>PendingInstall::commit\<close>, \<^verbatim>\<open>uninstall\<close>
    and the operations that hold the lock. \<^theory_text>\<open>Frames\<close> has rules that show, by the shape of a program,
    what it leaves alone; \<^theory_text>\<open>Install_Props\<close> and \<^theory_text>\<open>Install_Results\<close> apply them.
  \<^item> \<^theory_text>\<open>Snapshot\<close>, \<^theory_text>\<open>Snapshot_Props\<close> (\<^verbatim>\<open>backup.rs\<close>, \<^verbatim>\<open>backup/volumes.rs\<close>): what of a plan is stored, the
    framing and validation of a snapshot, the check of the archives in it, and putting the files back.
  \<^item> \<^theory_text>\<open>Agent_Requests\<close>, \<^theory_text>\<open>Request_Props\<close>, \<^theory_text>\<open>Request_History\<close>: the queue and its service, the
    invariant of its rows, and what holds over every history of calls.

  \<^bold>\<open>What the lemmas show.\<close> The storage lemmas quantify over every fault at every file-system step: the
  registry loads as before or as saved. The plan lemmas show that validation is exactly a set of
  structural rules (addresses, jobs, order, volumes, networks) and that the rendered file has no other
  lines than the plan's. The setup lemmas show that a valid template is closed under its placeholders and
  that resolution then misses none. The importer lemmas show that nothing is passed over unread, but for
  the shortfalls stated beside them. The agent lemmas relate the policy to the history of the owner's
  decisions, and the queue to the runs it permits. The installation lemmas, again for every fault, show
  which files an installation, a rollback, a commit and an uninstallation may touch, in which state
  each of them leaves the disk and the registry, and that operations on one app exclude each other. The
  snapshot lemmas show that an encoded snapshot decodes to itself, what an accepted one can contain, and
  that restoring replaces nothing. Some theorems state that the code does less than its
  comments promise; each says so in its text.

  \<^bold>\<open>Bounds and fuel.\<close> Recursion is structural or has a measure. The loop over fallbacks of the
  Runtipi importer (\<^theory_text>\<open>fallback_loop\<close>) is a partial function, proved to end for the values it is used with.
  Three loops of the code are bounded there: the hundred names tried for a temporary file (\<^theory_text>\<open>allocate_temp\<close>), the nine attempts on
  a busy queue (\<^theory_text>\<open>retry_busy\<close>) and the twenty of a finishing worker (\<^theory_text>\<open>finish_retry\<close>), which carry that
  number. Generating a secret takes 64 bytes of the random source per round and ends when the source
  does (\<^theory_text>\<open>fill_secret\<close>). The order of services (\<^theory_text>\<open>order_loop\<close>) grows by a service per round or stops. The
  wait for an address (\<^theory_text>\<open>wait_round\<close>) sleeps 400 milliseconds per round, so its deadline bounds its
  rounds; what a round sees (an answer, a raised token, how far the clock is ahead of the sleeps) is
  arbitrary.

  \<^bold>\<open>Parameters.\<close> JSON and YAML readers and writers, SHA-256, the regular-expression engine, the resolution
  of symbolic links, child processes and Docker, the probes of addresses and ports, and the moments at which
  a person cancels are arguments of the definitions that use them; where a
  theorem needs a law of one of them (a codec that reads back what it wrote, say) it is a hypothesis, and
  the theorem's witness gives an instance.

  \<^bold>\<open>Not modelled.\<close> Running child processes and threads, the desktop window, the command line, HTTP
  clients, Windows integration and WSL control (\<^verbatim>\<open>runtime/engine/wsl/bootstrap.rs\<close>,
  \<^verbatim>\<open>engine_setup.rs\<close>, \<^verbatim>\<open>engine_removal.rs\<close>, \<^verbatim>\<open>backup/protection.rs\<close>, \<^verbatim>\<open>agent_content/\<close>) and, of
  \<^verbatim>\<open>runtime/mod.rs\<close>, the socket probes and the wrappers that supply the real environment are input and output around the parts above;
  the recipes and templates of the catalogue are data tables; the seed files beside a Runtipi
  definition are read by a walk of the file system.
\<close>

end
